(* ===== verification/Prelude.thy ===== *)
theory Prelude
  imports Main "HOL-Library.Word" "HOL-Library.Sublist" "HOL-Library.Char_ord"
    "HOL-Library.List_Lexorder"
begin

text \<open>
  Shared foundations of the snapshotd development: the C++ exceptions the sources throw,
  the state-and-exception computations in which every effectful function is written, the
  frame calculus with which effects are bounded, and generic facts about lists.

  A computation maps a state to an outcome and the state that is left behind. The state
  survives an exception, as it does in the C++ code: files written before a throw stay
  written.
\<close>

named_theorems action_simps \<open>evaluation rules of the computation combinators\<close>
named_theorems frame_intros \<open>introduction rules of the frame calculus\<close>

section \<open>Exceptions\<close>

text \<open>
  The exception classes the sources throw or that the standard library throws at them. All of
  them derive from \<^verbatim>\<open>std::exception\<close>, and \<open>what\<close> is their \<^verbatim>\<open>what()\<close> text.
  \<open>ErrnoRuntimeError\<close> is the class of util.h; \<open>RequestError\<close> the one of daemon.cc.
\<close>

datatype exn =
    RuntimeError string
  | ErrnoRuntimeError string int
  | RequestError string string "(string \<times> string) list"
  | InvalidArgument string
  | OutOfRange string
  | FilesystemError string

primrec what :: "exn \<Rightarrow> string" where
  "what (RuntimeError m) = m"
| "what (ErrnoRuntimeError m e) = m"
| "what (RequestError c m fs) = m"
| "what (InvalidArgument m) = m"
| "what (OutOfRange m) = m"
| "what (FilesystemError m) = m"

section \<open>Computations\<close>

type_synonym ('s, 'a) action = "'s \<Rightarrow> (exn + 'a) \<times> 's"

definition ret :: "'a \<Rightarrow> ('s, 'a) action" where
  "ret x = (\<lambda>s. (Inr x, s))"

definition raise :: "exn \<Rightarrow> ('s, 'a) action" where
  "raise e = (\<lambda>s. (Inl e, s))"

definition bnd :: "('s, 'a) action \<Rightarrow> ('a \<Rightarrow> ('s, 'b) action) \<Rightarrow> ('s, 'b) action" where
  "bnd m f = (\<lambda>s. case m s of (Inl e, s') \<Rightarrow> (Inl e, s') | (Inr x, s') \<Rightarrow> f x s')"

definition catch_exn :: "('s, 'a) action \<Rightarrow> (exn \<Rightarrow> ('s, 'a) action) \<Rightarrow> ('s, 'a) action" where
  "catch_exn m h = (\<lambda>s. case m s of (Inl e, s') \<Rightarrow> h e s' | (Inr x, s') \<Rightarrow> (Inr x, s'))"

definition gets :: "('s \<Rightarrow> 'a) \<Rightarrow> ('s, 'a) action" where
  "gets f = (\<lambda>s. (Inr (f s), s))"

definition modify :: "('s \<Rightarrow> 's) \<Rightarrow> ('s, unit) action" where
  "modify f = (\<lambda>s. (Inr (), f s))"

definition lift_sum :: "exn + 'a \<Rightarrow> ('s, 'a) action" where
  "lift_sum r = (\<lambda>s. (r, s))"

definition require :: "bool \<Rightarrow> exn \<Rightarrow> ('s, unit) action" where
  "require b e = (if b then ret () else raise e)"

primrec for_each :: "('a \<Rightarrow> ('s, unit) action) \<Rightarrow> 'a list \<Rightarrow> ('s, unit) action" where
  "for_each f [] = ret ()"
| "for_each f (x # xs) = bnd (f x) (\<lambda>_. for_each f xs)"

primrec collect :: "('a \<Rightarrow> ('s, 'b) action) \<Rightarrow> 'a list \<Rightarrow> ('s, 'b list) action" where
  "collect f [] = ret []"
| "collect f (x # xs) = bnd (f x) (\<lambda>y. bnd (collect f xs) (\<lambda>ys. ret (y # ys)))"

text \<open>Code equations that wait for the state an action runs on, so that an evaluation follows the run.\<close>

lemmas action_code [code] =
  fun_cong [OF bnd_def] fun_cong [OF ret_def] fun_cong [OF raise_def] fun_cong [OF catch_exn_def] fun_cong [OF gets_def]
  fun_cong [OF modify_def] fun_cong [OF lift_sum_def] fun_cong [OF require_def]

text \<open>The same sequencing for pure code that can throw but touches no state.\<close>

definition try_bind :: "exn + 'a \<Rightarrow> ('a \<Rightarrow> exn + 'b) \<Rightarrow> exn + 'b" where
  "try_bind r f = (case r of Inl e \<Rightarrow> Inl e | Inr x \<Rightarrow> f x)"

primrec try_map :: "('a \<Rightarrow> exn + 'b) \<Rightarrow> 'a list \<Rightarrow> exn + 'b list" where
  "try_map f [] = Inr []"
| "try_map f (x # xs) = try_bind (f x) (\<lambda>y. try_bind (try_map f xs) (\<lambda>ys. Inr (y # ys)))"

definition succeeds :: "exn + 'a \<Rightarrow> bool" where
  "succeeds r = (case r of Inl _ \<Rightarrow> False | Inr _ \<Rightarrow> True)"

section \<open>Frames: what a computation may change\<close>

text \<open>
  \<open>keeps R m\<close>: whatever the outcome of \<open>m\<close>, the states before and after it are related by
  \<open>R\<close>. For a reflexive and transitive \<open>R\<close> the combinators above keep \<open>R\<close> when their parts do;
  the locale \<open>effect_frame\<close> proves this once, and each frame condition of the development
  interprets it.
\<close>

definition keeps :: "('s \<Rightarrow> 's \<Rightarrow> bool) \<Rightarrow> ('s, 'a) action \<Rightarrow> bool" where
  "keeps R m \<longleftrightarrow> (\<forall>s. R s (snd (m s)))"

section \<open>Laws of the combinators\<close>

lemma ret_apply [simp, action_simps]: "ret x s = (Inr x, s)"
  by (simp add: ret_def)

lemma raise_apply [simp, action_simps]: "raise e s = (Inl e, s)"
  by (simp add: raise_def)

lemma gets_apply [simp, action_simps]: "gets f s = (Inr (f s), s)"
  by (simp add: gets_def)

lemma modify_apply [simp, action_simps]: "modify f s = (Inr (), f s)"
  by (simp add: modify_def)

lemma lift_sum_apply [simp, action_simps]: "lift_sum r s = (r, s)"
  by (simp add: lift_sum_def)

lemma require_apply [action_simps]:
  "require b e s = (if b then (Inr (), s) else (Inl e, s))"
  by (simp add: require_def)

lemma require_True [simp]: "require True e = ret ()"
  by (simp add: require_def)

lemma require_False [simp]: "require False e = raise e"
  by (simp add: require_def)

lemma bnd_ret [simp]: "bnd (ret x) f = f x"
  by (simp add: bnd_def fun_eq_iff)

lemma bnd_raise [simp]: "bnd (raise e) f = raise e"
  by (simp add: bnd_def fun_eq_iff)

lemma bnd_assoc: "bnd (bnd m f) g = bnd m (\<lambda>x. bnd (f x) g)"
  by (auto simp add: bnd_def fun_eq_iff split: prod.split sum.split)

lemma bnd_apply_Inr: "m s = (Inr x, s') \<Longrightarrow> bnd m f s = f x s'"
  by (simp add: bnd_def)

lemma bnd_apply_Inl: "m s = (Inl e, s') \<Longrightarrow> bnd m f s = (Inl e, s')"
  by (simp add: bnd_def)

lemma bnd_apply [action_simps]:
  "bnd m f s = (case m s of (Inl e, s') \<Rightarrow> (Inl e, s') | (Inr x, s') \<Rightarrow> f x s')"
  by (simp add: bnd_def)

lemma catch_apply [action_simps]:
  "catch_exn m h s = (case m s of (Inl e, s') \<Rightarrow> h e s' | (Inr x, s') \<Rightarrow> (Inr x, s'))"
  by (simp add: catch_exn_def)

lemma catch_ret [simp]: "catch_exn (ret x) h = ret x"
  by (simp add: catch_exn_def fun_eq_iff)

lemma catch_raise [simp]: "catch_exn (raise e) h = h e"
  by (simp add: catch_exn_def fun_eq_iff)

lemma bnd_InrE:
  assumes "bnd m f s = (Inr y, s2)"
  obtains x s1 where "m s = (Inr x, s1)" and "f x s1 = (Inr y, s2)"
  using assms by (auto simp: bnd_def split: prod.splits sum.splits)

lemma bnd_Inr_iff: "bnd m f s = (Inr y, t) \<longleftrightarrow> (\<exists>x s1. m s = (Inr x, s1) \<and> f x s1 = (Inr y, t))"
  by (auto simp: bnd_def split: prod.splits sum.splits)

text \<open>The pattern \<^verbatim>\<open>catch (...) { cleanup; throw; }\<close>: a normal result is the body's.\<close>

lemma rethrow_Inr_iff: "catch_exn m (\<lambda>x. bnd c (\<lambda>_. raise x)) s = (Inr y, t) \<longleftrightarrow> m s = (Inr y, t)"
  by (auto simp: catch_exn_def bnd_def split: prod.splits sum.splits)

lemma bnd_cases:
  obtains (err) e s1 where "m s = (Inl e, s1)" and "bnd m f s = (Inl e, s1)"
  | (ok) x s1 where "m s = (Inr x, s1)" and "bnd m f s = f x s1"
  by (cases "m s"; cases "fst (m s)") (auto simp: bnd_def)

lemma bnd_post:
  "(\<And>e s1. m s = (Inl e, s1) \<Longrightarrow> Q (Inl e, s1)) \<Longrightarrow> (\<And>x s1. m s = (Inr x, s1) \<Longrightarrow> Q (f x s1)) \<Longrightarrow> Q (bnd m f s)"
  by (rule bnd_cases [of m s f]) auto

lemma bnd_cong [fundef_cong]:
  assumes "m1 s = m2 s" and "\<And>x s1. m2 s = (Inr x, s1) \<Longrightarrow> f1 x s1 = f2 x s1"
  shows "bnd m1 f1 s = bnd m2 f2 s"
  using assms by (auto simp: bnd_def split: prod.split sum.split)

lemma try_bind_simps [simp]:
  "try_bind (Inr x) f = f x" "try_bind (Inl e) f = Inl e"
  by (simp_all add: try_bind_def)

lemma try_bind_InrE:
  assumes "try_bind r f = Inr y"
  obtains x where "r = Inr x" and "f x = Inr y"
  using assms by (cases r) auto

lemma try_bind_eq_Inr: "try_bind r f = Inr y \<longleftrightarrow> (\<exists>x. r = Inr x \<and> f x = Inr y)"
  by (cases r) auto

lemma try_map_Inr_iff:
  "try_map f xs = Inr ys \<longleftrightarrow> list_all2 (\<lambda>x y. f x = Inr y) xs ys"
proof (induction xs arbitrary: ys)
  case Nil
  then show ?case by auto
next
  case (Cons x xs)
  then show ?case by (cases ys) (auto simp: try_bind_eq_Inr)
qed

lemma try_map_total:
  "(\<And>x. x \<in> set xs \<Longrightarrow> f x = Inr (g x)) \<Longrightarrow> try_map f xs = Inr (map g xs)"
  by (induction xs) auto

lemma succeeds_simps [simp]: "succeeds (Inr x)" "\<not> succeeds (Inl e)"
  by (simp_all add: succeeds_def)

lemma succeeds_iff: "succeeds r \<longleftrightarrow> (\<exists>x. r = Inr x)"
  by (cases r) auto

section \<open>The frame calculus\<close>

lemma keepsI: "(\<And>s. R s (snd (m s))) \<Longrightarrow> keeps R m"
  by (simp add: keeps_def)

lemma keepsD: "keeps R m \<Longrightarrow> R s (snd (m s))"
  by (simp add: keeps_def)

lemma keeps_result: "keeps R m \<Longrightarrow> m s = (r, s') \<Longrightarrow> R s s'"
  by (metis keepsD snd_conv)

lemma keeps_mono: "keeps R m \<Longrightarrow> (\<And>s t. R s t \<Longrightarrow> Q s t) \<Longrightarrow> keeps Q m"
  by (auto simp: keeps_def)

locale effect_frame =
  fixes R :: "'s \<Rightarrow> 's \<Rightarrow> bool"
  assumes frame_refl: "R s s"
    and frame_trans: "R s t \<Longrightarrow> R t u \<Longrightarrow> R s u"
begin

lemma ret_keeps: "keeps R (ret x)"
  by (simp add: keeps_def frame_refl)

lemma raise_keeps: "keeps R (raise e)"
  by (simp add: keeps_def frame_refl)

lemma gets_keeps: "keeps R (gets f)"
  by (simp add: keeps_def frame_refl)

lemma lift_sum_keeps: "keeps R (lift_sum r)"
  by (simp add: keeps_def frame_refl)

lemma require_keeps: "keeps R (require b e)"
  by (simp add: require_def ret_keeps raise_keeps)

lemma bnd_step:
  assumes "R s (snd (m s))"
    and "\<And>x s1. m s = (Inr x, s1) \<Longrightarrow> R s1 (snd (f x s1))"
  shows "R s (snd (bnd m f s))"
proof (rule bnd_cases [of m s f])
  fix e s1 assume "m s = (Inl e, s1)" "bnd m f s = (Inl e, s1)"
  then show ?thesis using assms(1) by simp
next
  fix x s1 assume m: "m s = (Inr x, s1)" and b: "bnd m f s = f x s1"
  have "R s s1" using assms(1) m by simp
  moreover have "R s1 (snd (f x s1))" by (rule assms(2)) (rule m)
  ultimately show ?thesis using b frame_trans by metis
qed

lemma bnd_keeps: "keeps R m \<Longrightarrow> (\<And>x. keeps R (f x)) \<Longrightarrow> keeps R (bnd m f)"
  by (intro keepsI bnd_step) (simp_all add: keepsD)

lemma bnd_keeps_result:
  "keeps R m \<Longrightarrow> (\<And>x s s1. m s = (Inr x, s1) \<Longrightarrow> keeps R (f x)) \<Longrightarrow> keeps R (bnd m f)"
  by (intro keepsI bnd_step) (blast intro: keepsD)+

lemma lift_bnd_keeps: "(\<And>x. r = Inr x \<Longrightarrow> keeps R (f x)) \<Longrightarrow> keeps R (bnd (lift_sum r) f)"
  by (rule bnd_keeps_result) (auto intro: lift_sum_keeps)

lemma catch_keeps:
  assumes m: "keeps R m" and h: "\<And>e. keeps R (h e)"
  shows "keeps R (catch_exn m h)"
proof (rule keepsI)
  fix s
  obtain r s1 where ms: "m s = (r, s1)" by (cases "m s")
  have "R s s1" using m ms by (rule keeps_result)
  then show "R s (snd (catch_exn m h s))"
    using ms keepsD [OF h] by (cases r) (auto simp: catch_exn_def intro: frame_trans)
qed

lemma if_keeps: "(b \<Longrightarrow> keeps R m) \<Longrightarrow> (\<not> b \<Longrightarrow> keeps R n) \<Longrightarrow> keeps R (if b then m else n)"
  by simp

lemma for_each_keeps: "(\<And>x. x \<in> set xs \<Longrightarrow> keeps R (f x)) \<Longrightarrow> keeps R (for_each f xs)"
  by (induction xs) (auto intro: ret_keeps bnd_keeps)

lemma collect_keeps: "(\<And>x. x \<in> set xs \<Longrightarrow> keeps R (f x)) \<Longrightarrow> keeps R (collect f xs)"
  by (induction xs) (auto intro!: ret_keeps bnd_keeps)

lemmas combinators_keep =
  ret_keeps raise_keeps gets_keeps lift_sum_keeps require_keeps bnd_keeps catch_keeps
  if_keeps for_each_keeps collect_keeps

end

section \<open>Lists\<close>

lemma takeWhile_append_stop: "\<forall>x\<in>set xs. P x \<Longrightarrow> \<not> P y \<Longrightarrow> takeWhile P (xs @ y # ys) = xs"
  by (induction xs) auto

lemma dropWhile_append_stop: "\<forall>x\<in>set xs. P x \<Longrightarrow> \<not> P y \<Longrightarrow> dropWhile P (xs @ y # ys) = y # ys"
  by (induction xs) auto

lemma map_of_filter_key: "map_of (filter (\<lambda>(k, v). P k) m) k = (if P k then map_of m k else None)"
  by (induction m) auto

lemma list_all2_right: "list_all2 P xs ys \<Longrightarrow> y \<in> set ys \<Longrightarrow> \<exists>x\<in>set xs. P x y"
  by (induction rule: list_all2_induct) auto

end
