(* ===== verification/CppText.thy ===== *)
theory CppText
  imports Prelude
begin

text \<open>
  The parts of the C++ standard library on which the sources compute with text: character
  classes of the C locale, \<^verbatim>\<open>std::to_string\<close>, the \<^verbatim>\<open>std::stol\<close> family, formatted
  extraction from a string stream, \<^verbatim>\<open>std::getline\<close>, and the lexical operations of
  \<^verbatim>\<open>std::filesystem::path\<close>. A \<^verbatim>\<open>std::string\<close> is a list of bytes; \<open><\<close> on it is the
  lexicographic order of unsigned bytes, as for \<^verbatim>\<open>std::string\<close>.
\<close>

section \<open>Character classes\<close>

definition isspace :: "char \<Rightarrow> bool" where
  "isspace c \<longleftrightarrow> c \<in> set [CHR '' '', CHR 0x09, CHR 0x0A, CHR 0x0B, CHR 0x0C, CHR 0x0D]"

definition isdigit :: "char \<Rightarrow> bool" where
  "isdigit c \<longleftrightarrow> c \<in> set ''0123456789''"

definition isalnum :: "char \<Rightarrow> bool" where
  "isalnum c \<longleftrightarrow>
     c \<in> set ''0123456789ABCDEFGHIJKLMNOPQRSTUVWXYZabcdefghijklmnopqrstuvwxyz''"

abbreviation NUL :: char where "NUL \<equiv> CHR 0x00"
abbreviation NL :: char where "NL \<equiv> CHR 0x0A"
abbreviation SLASH :: char where "SLASH \<equiv> CHR ''/''"
abbreviation EQ :: char where "EQ \<equiv> CHR ''=''"

section \<open>Numbers as text\<close>

definition digit_char :: "nat \<Rightarrow> char" where
  "digit_char d = ''0123456789abcdef'' ! d"

definition digit_val :: "char \<Rightarrow> nat" where
  "digit_val c = of_char c - 48"

fun show_nat :: "nat \<Rightarrow> string" where
  "show_nat n = (if n < 10 then [digit_char n] else show_nat (n div 10) @ [digit_char (n mod 10)])"

declare show_nat.simps [simp del]

definition show_int :: "int \<Rightarrow> string" where
  "show_int i = (if i < 0 then CHR ''-'' # show_nat (nat (- i)) else show_nat (nat i))"

definition digits_val :: "string \<Rightarrow> nat" where
  "digits_val ds = foldl (\<lambda>a c. a * 10 + digit_val c) 0 ds"

text \<open>
  The scanner shared by \<^verbatim>\<open>strtol\<close> and \<^verbatim>\<open>operator>>\<close>: leading white space, an optional
  sign, decimal digits. The result is the sign, the magnitude and the unread rest.
\<close>

definition scan_num :: "string \<Rightarrow> (bool \<times> nat \<times> string) option" where
  "scan_num s =
     (let t = dropWhile isspace s;
          neg = (case t of c # _ \<Rightarrow> c = CHR ''-'' | [] \<Rightarrow> False);
          u = (case t of c # r \<Rightarrow> if c = CHR ''-'' \<or> c = CHR ''+'' then r else t | [] \<Rightarrow> t);
          ds = takeWhile isdigit u
      in if ds = [] then None else Some (neg, digits_val ds, dropWhile isdigit u))"

definition signed_value :: "bool \<times> nat \<times> string \<Rightarrow> int" where
  "signed_value p = (case p of (neg, m, _) \<Rightarrow> if neg then - int m else int m)"

definition parse_signed :: "string \<Rightarrow> int \<Rightarrow> int \<Rightarrow> string \<Rightarrow> exn + int" where
  "parse_signed fn lo hi s =
     (case scan_num s of
        None \<Rightarrow> Inl (InvalidArgument fn)
      | Some p \<Rightarrow> if lo \<le> signed_value p \<and> signed_value p \<le> hi then Inr (signed_value p)
                  else Inl (OutOfRange fn))"

definition stoi :: "string \<Rightarrow> exn + int" where
  "stoi = parse_signed ''stoi'' (- (2 ^ 31)) (2 ^ 31 - 1)"

definition stol :: "string \<Rightarrow> exn + int" where
  "stol = parse_signed ''stol'' (- (2 ^ 63)) (2 ^ 63 - 1)"

definition stoll :: "string \<Rightarrow> exn + int" where
  "stoll = parse_signed ''stoll'' (- (2 ^ 63)) (2 ^ 63 - 1)"

text \<open>The unsigned variants accept a minus sign and negate modulo \<open>2 ^ 64\<close>, as \<^verbatim>\<open>strtoull\<close> does.\<close>

definition parse_unsigned :: "string \<Rightarrow> string \<Rightarrow> exn + 64 word" where
  "parse_unsigned fn s =
     (case scan_num s of
        None \<Rightarrow> Inl (InvalidArgument fn)
      | Some (neg, m, _) \<Rightarrow>
          if int m < 2 ^ 64 then Inr (if neg then - of_nat m else of_nat m) else Inl (OutOfRange fn))"

definition stoul :: "string \<Rightarrow> exn + 64 word" where
  "stoul = parse_unsigned ''stoul''"

definition stoull :: "string \<Rightarrow> exn + 64 word" where
  "stoull = parse_unsigned ''stoull''"

section \<open>Formatted extraction from string streams\<close>

text \<open>\<open>None\<close> is a stream whose fail bit got set.\<close>

definition extract_ull :: "string \<Rightarrow> (64 word \<times> string) option" where
  "extract_ull s =
     (case scan_num s of
        None \<Rightarrow> None
      | Some (neg, m, r) \<Rightarrow>
          if int m < 2 ^ 64 then Some (if neg then - of_nat m else of_nat m, r) else None)"

definition extract_word :: "string \<Rightarrow> (string \<times> string) option" where
  "extract_word s =
     (let t = dropWhile isspace s
      in if t = [] then None
         else Some (takeWhile (\<lambda>c. \<not> isspace c) t, dropWhile (\<lambda>c. \<not> isspace c) t))"

text \<open>All lines \<^verbatim>\<open>std::getline\<close> delivers for the delimiter \<open>d\<close>: a last line without
  delimiter counts only if it is not empty.\<close>

function getlines :: "char \<Rightarrow> string \<Rightarrow> string list" where
  "getlines d [] = []"
| "getlines d (c # cs) =
     (if c = d then [] # getlines d cs
      else (c # takeWhile (\<lambda>x. x \<noteq> d) cs)
             # getlines d (drop 1 (dropWhile (\<lambda>x. x \<noteq> d) cs)))"
  by pat_completeness auto
termination
  by (relation "measure (\<lambda>(d, s). length s)")
    (auto intro: le_imp_less_Suc le_trans [OF diff_le_self length_dropWhile_le])

text \<open>\<^verbatim>\<open>s.find(c)\<close> used to cut a string at its first \<open>c\<close>: the two parts around it.\<close>

definition cut :: "char \<Rightarrow> string \<Rightarrow> (string \<times> string) option" where
  "cut c s = (if c \<in> set s
              then Some (takeWhile (\<lambda>x. x \<noteq> c) s, drop 1 (dropWhile (\<lambda>x. x \<noteq> c) s))
              else None)"

text \<open>\<^verbatim>\<open>s.rfind(p, 0) == 0\<close>.\<close>

definition starts_with :: "string \<Rightarrow> string \<Rightarrow> bool" where
  "starts_with p s \<longleftrightarrow> take (length p) s = p"

section \<open>Paths\<close>

type_synonym path = string

text \<open>The non-empty components of a path name: the key under which a file is found.\<close>

fun split_on :: "char \<Rightarrow> string \<Rightarrow> string list" where
  "split_on d [] = [[]]"
| "split_on d (c # cs) =
     (if c = d then [] # split_on d cs
      else (case split_on d cs of [] \<Rightarrow> [[c]] | w # ws \<Rightarrow> (c # w) # ws))"

definition path_key :: "path \<Rightarrow> string list" where
  "path_key p = filter (\<lambda>c. c \<noteq> []) (split_on SLASH p)"

definition is_absolute :: "path \<Rightarrow> bool" where
  "is_absolute p \<longleftrightarrow> (case p of c # _ \<Rightarrow> c = SLASH | [] \<Rightarrow> False)"

text \<open>\<^verbatim>\<open>operator/\<close> of \<^verbatim>\<open>std::filesystem::path\<close>.\<close>

definition path_append :: "path \<Rightarrow> path \<Rightarrow> path" where
  "path_append a b =
     (if is_absolute b then b
      else if a = [] \<or> last a = SLASH then a @ b
      else a @ [SLASH] @ b)"

definition parent_path :: "path \<Rightarrow> path" where
  "parent_path p =
     (let d = rev (dropWhile (\<lambda>c. c \<noteq> SLASH) (rev p));
          e = rev (dropWhile (\<lambda>c. c = SLASH) (rev d))
      in if d = [] then [] else if e = [] then [SLASH] else e)"

text \<open>The elements a path iterator visits: the root directory, the names, and an empty
  element after a trailing separator.\<close>

definition path_elements :: "path \<Rightarrow> string list" where
  "path_elements p =
     (if is_absolute p then [[SLASH]] else []) @ path_key p @
     (if path_key p \<noteq> [] \<and> last p = SLASH then [[]] else [])"

section \<open>Evaluation\<close>

text \<open>Faster equations for evaluating worked instances.\<close>

lemma isalnum_code [code]:
  "isalnum (Char b0 b1 b2 b3 b4 b5 b6 b7) \<longleftrightarrow> \<not> b7 \<and>
     (if b6 then (b0 \<or> b1 \<or> b2 \<or> b3 \<or> b4) \<and> \<not> (b4 \<and> b3 \<and> (b2 \<or> b1 \<and> b0))
      else b5 \<and> b4 \<and> \<not> (b3 \<and> (b2 \<or> b1)))"
  by (cases b0; cases b1; cases b2; cases b3; cases b4; cases b5; cases b6; cases b7) (simp_all add: isalnum_def)

lemma isdigit_code [code]:
  "isdigit (Char b0 b1 b2 b3 b4 b5 b6 b7) \<longleftrightarrow> \<not> b7 \<and> \<not> b6 \<and> b5 \<and> b4 \<and> \<not> (b3 \<and> (b2 \<or> b1))"
  by (cases b0; cases b1; cases b2; cases b3; cases b4; cases b5; cases b6; cases b7) (simp_all add: isdigit_def)

lemma isspace_code [code]:
  "isspace (Char b0 b1 b2 b3 b4 b5 b6 b7) \<longleftrightarrow> \<not> b7 \<and> \<not> b6 \<and> \<not> b4 \<and>
     (if b5 then \<not> (b0 \<or> b1 \<or> b2 \<or> b3) else b3 \<and> (if b2 then \<not> b1 else b0 \<or> b1))"
  by (cases b0; cases b1; cases b2; cases b3; cases b4; cases b5; cases b6; cases b7) (simp_all add: isspace_def)

lemma stol_code [code]: "stol = parse_signed ''stol'' (- 9223372036854775808) 9223372036854775807"
  by (simp add: stol_def)

lemma stoll_code [code]: "stoll = parse_signed ''stoll'' (- 9223372036854775808) 9223372036854775807"
  by (simp add: stoll_def)

section \<open>Facts about numbers as text\<close>

lemma digit_char_isdigit: "d < 10 \<Longrightarrow> isdigit (digit_char d)"
  by (auto simp: isdigit_def digit_char_def less_Suc_eq numeral_eq_Suc)

lemma digit_val_digit_char: "d < 10 \<Longrightarrow> digit_val (digit_char d) = d"
  by (auto simp: digit_val_def digit_char_def less_Suc_eq eval_nat_numeral)

lemma show_nat_not_Nil [simp]: "show_nat n \<noteq> []"
  by (subst show_nat.simps) simp

lemma show_nat_digits: "\<forall>c\<in>set (show_nat n). isdigit c"
proof (induction n rule: show_nat.induct)
  case (1 n)
  then show ?case
    by (subst show_nat.simps) (auto simp: digit_char_isdigit)
qed

lemma digits_val_snoc [simp]: "digits_val (ds @ [c]) = digits_val ds * 10 + digit_val c"
  by (simp add: digits_val_def)

lemma digits_val_show_nat [simp]: "digits_val (show_nat n) = n"
proof (induction n rule: show_nat.induct)
  case (1 n)
  show ?case
  proof (cases "n < 10")
    case True
    then show ?thesis
      by (subst show_nat.simps) (simp add: digits_val_def digit_val_digit_char)
  next
    case False
    with 1 show ?thesis
      by (subst show_nat.simps) (simp add: digit_val_digit_char)
  qed
qed

lemma isdigit_not_special: "isdigit c \<Longrightarrow> \<not> isspace c \<and> c \<noteq> CHR ''-'' \<and> c \<noteq> CHR ''+''"
  by (auto simp: isdigit_def isspace_def)

lemma scan_num_digits:
  assumes "ds \<noteq> []" and "\<forall>c\<in>set ds. isdigit c"
  shows "scan_num ds = Some (False, digits_val ds, [])"
proof -
  obtain c cs where ds: "ds = c # cs" using assms(1) by (cases ds) auto
  then have c: "\<not> isspace c" "c \<noteq> CHR ''-''" "c \<noteq> CHR ''+''"
    using assms(2) isdigit_not_special [of c] by auto
  have "takeWhile isdigit ds = ds" "dropWhile isdigit ds = []"
    using assms(2) by (simp_all add: takeWhile_eq_all_conv dropWhile_eq_Nil_conv)
  then show ?thesis using ds c by (simp add: scan_num_def)
qed

lemma scan_num_minus:
  assumes "ds \<noteq> []" and "\<forall>c\<in>set ds. isdigit c"
  shows "scan_num (CHR ''-'' # ds) = Some (True, digits_val ds, [])"
proof -
  have ds: "takeWhile isdigit ds = ds" "dropWhile isdigit ds = []"
    using assms(2) by (simp_all add: takeWhile_eq_all_conv dropWhile_eq_Nil_conv)
  show ?thesis using assms(1) unfolding scan_num_def Let_def by (simp add: isspace_def ds)
qed

lemma scan_show_nat [simp]: "scan_num (show_nat n) = Some (False, n, [])"
  by (simp add: scan_num_digits show_nat_digits)

lemma signed_value_show_int:
  "\<exists>p. scan_num (show_int i) = Some p \<and> signed_value p = i"
  by (auto simp: show_int_def signed_value_def scan_num_minus show_nat_digits)

lemma parse_signed_show_int:
  "lo \<le> i \<Longrightarrow> i \<le> hi \<Longrightarrow> parse_signed fn lo hi (show_int i) = Inr i"
  using signed_value_show_int [of i] by (auto simp: parse_signed_def)

lemma parse_signed_range: "parse_signed fn lo hi s = Inr i \<Longrightarrow> lo \<le> i \<and> i \<le> hi"
  by (auto simp: parse_signed_def split: option.splits if_splits)

lemma parse_unsigned_show: "parse_unsigned fn (show_nat (unat (w :: 64 word))) = Inr w"
  using unsigned_less [of w] by (simp add: parse_unsigned_def)

lemma parse_unsigned_show_32: "parse_unsigned fn (show_nat (unat (w :: 32 word))) = Inr (ucast w)"
proof -
  have "unat w < 2 ^ 32" using unsigned_less [of w, where 'a = nat] by simp
  then have "unat w < 2 ^ 64" by simp
  then show ?thesis by (simp add: parse_unsigned_def)
qed

lemma isdigit_neq: "isdigit c \<Longrightarrow> c \<noteq> NUL \<and> c \<noteq> NL \<and> c \<noteq> SLASH \<and> c \<noteq> EQ"
  by (auto simp: isdigit_def)

lemma show_nat_clean: "NL \<notin> set (show_nat n)" "SLASH \<notin> set (show_nat n)" "NUL \<notin> set (show_nat n)"
  using show_nat_digits [of n] isdigit_neq by blast+

lemma show_int_clean: "NL \<notin> set (show_int i)"
  using show_nat_clean by (auto simp: show_int_def)

lemma show_nat_inject [simp]: "show_nat m = show_nat n \<longleftrightarrow> m = n"
  by (metis digits_val_show_nat)

section \<open>Facts about lines and cuts\<close>

lemma getlines_line:
  "d \<notin> set l \<Longrightarrow> getlines d (l @ d # rest) = l # getlines d rest"
proof (cases l)
  case (Cons c cs)
  assume "d \<notin> set l"
  then have "takeWhile (\<lambda>x. x \<noteq> d) (cs @ d # rest) = cs"
      "dropWhile (\<lambda>x. x \<noteq> d) (cs @ d # rest) = d # rest"
    using Cons by (auto intro!: takeWhile_append_stop dropWhile_append_stop)
  then show ?thesis using Cons \<open>d \<notin> set l\<close> by auto
qed simp

lemma cut_append [simp]: "c \<notin> set a \<Longrightarrow> cut c (a @ c # b) = Some (a, b)"
proof -
  assume "c \<notin> set a"
  then have "\<forall>x\<in>set a. x \<noteq> c" by auto
  then show ?thesis by (simp add: cut_def takeWhile_append_stop dropWhile_append_stop)
qed

lemma cut_SomeD: "cut c s = Some (a, b) \<Longrightarrow> s = a @ c # b \<and> c \<notin> set a"
proof -
  assume cut: "cut c s = Some (a, b)"
  then have "c \<in> set s" and a: "a = takeWhile (\<lambda>x. x \<noteq> c) s"
    and b: "b = drop 1 (dropWhile (\<lambda>x. x \<noteq> c) s)"
    by (auto simp: cut_def split: if_splits)
  then obtain u v where s: "s = u @ c # v" and u: "c \<notin> set u"
    by (meson split_list_first)
  then have "\<forall>x\<in>set u. x \<noteq> c" by auto
  then have "a = u" "b = v"
    using a b s by (simp_all add: takeWhile_append_stop dropWhile_append_stop)
  then show ?thesis using s u by simp
qed

lemma cut_None_iff: "cut c s = None \<longleftrightarrow> c \<notin> set s"
  by (simp add: cut_def)

lemma starts_with_prefix: "starts_with p s \<longleftrightarrow> prefix p s"
  by (metis append_eq_conv_conj append_take_drop_id prefixE prefixI starts_with_def)

section \<open>Facts about paths\<close>

lemma split_on_not_Nil [simp]: "split_on d s \<noteq> []"
  by (induction s) (auto split: list.splits)

lemma split_on_append: "split_on d (xs @ d # ys) = split_on d xs @ split_on d ys"
  by (induction xs) (auto split: list.splits)

lemma split_on_free: "d \<notin> set s \<Longrightarrow> split_on d s = [s]"
  by (induction s) (auto split: list.splits)

lemma path_key_Nil [simp]: "path_key [] = []"
  by (simp add: path_key_def)

lemma path_key_sep: "path_key (a @ SLASH # b) = path_key a @ path_key b"
  by (simp add: path_key_def split_on_append)

lemma path_key_snoc [simp]: "path_key (a @ [SLASH]) = path_key a"
  using path_key_sep [of a "[]"] by simp

lemma path_key_single: "SLASH \<notin> set s \<Longrightarrow> s \<noteq> [] \<Longrightarrow> path_key s = [s]"
  by (simp add: path_key_def split_on_free)

lemma path_key_append [simp]:
  "\<not> is_absolute b \<Longrightarrow> path_key (path_append a b) = path_key a @ path_key b"
proof -
  assume b: "\<not> is_absolute b"
  show ?thesis
  proof (cases "a = [] \<or> last a = SLASH")
    case True
    show ?thesis
    proof (cases "a = []")
      case False
      with True obtain a' where "a = a' @ [SLASH]" by (metis append_butlast_last_id)
      then show ?thesis using b by (simp add: path_append_def path_key_sep)
    qed (use b in \<open>simp add: path_append_def\<close>)
  qed (use b in \<open>simp add: path_append_def path_key_sep\<close>)
qed

lemma rev_dropWhile_split: "\<exists>f. p = rev (dropWhile P (rev p)) @ f \<and> (\<forall>c\<in>set f. P c)"
proof (intro exI conjI)
  have "rev p = takeWhile P (rev p) @ dropWhile P (rev p)" by simp
  then show "p = rev (dropWhile P (rev p)) @ rev (takeWhile P (rev p))"
    by (metis rev_append rev_rev_ident)
  show "\<forall>c\<in>set (rev (takeWhile P (rev p))). P c"
    by (auto dest: set_takeWhileD)
qed

lemma last_rev_dropWhile:
  "rev (dropWhile P (rev p)) = [] \<or> \<not> P (last (rev (dropWhile P (rev p))))"
  by (metis hd_dropWhile last_rev rev_rev_ident rev.simps(1))

lemma path_key_slashes: "\<forall>c\<in>set s. c = SLASH \<Longrightarrow> path_key (d @ s) = path_key d"
proof (induction s rule: rev_induct)
  case (snoc c s)
  then have "path_key (d @ s @ [c]) = path_key ((d @ s) @ [SLASH])" by simp
  also have "\<dots> = path_key d" using snoc path_key_snoc [of "d @ s"] by simp
  finally show ?case .
qed simp

lemma parent_path_split:
  obtains f where "SLASH \<notin> set f" and "path_key p = path_key (parent_path p) @ path_key f"
    and "f \<noteq> [] \<or> p = [] \<or> last p = SLASH"
proof -
  define d where "d = rev (dropWhile (\<lambda>c. c \<noteq> SLASH) (rev p))"
  define e where "e = rev (dropWhile (\<lambda>c. c = SLASH) (rev d))"
  obtain f where p: "p = d @ f" and f: "SLASH \<notin> set f"
    using rev_dropWhile_split [of p "\<lambda>c. c \<noteq> SLASH", folded d_def] by auto
  obtain s where d: "d = e @ s" and s: "\<forall>c\<in>set s. c = SLASH"
    using rev_dropWhile_split [of d "\<lambda>c. c = SLASH", folded e_def] by auto
  have key_d: "path_key d = path_key e" using path_key_slashes s d by simp
  have parent: "parent_path p = (if d = [] then [] else if e = [] then [SLASH] else e)"
    unfolding parent_path_def Let_def d_def e_def by (rule refl)
  have key_parent: "path_key (parent_path p) = path_key d"
    using parent key_d path_key_slashes [of "[SLASH]" "[]"] by auto
  have d_end: "d = [] \<or> last d = SLASH"
    using last_rev_dropWhile [of "\<lambda>c. c \<noteq> SLASH" p] unfolding d_def by blast
  have "path_key p = path_key d @ path_key f"
  proof (cases "d = []")
    case False
    with d_end obtain d' where "d = d' @ [SLASH]" by (metis append_butlast_last_id)
    then show ?thesis using p by (simp add: path_key_sep)
  qed (use p in simp)
  moreover have "f \<noteq> [] \<or> p = [] \<or> last p = SLASH" using p d_end by auto
  ultimately show thesis using that f key_parent by metis
qed

lemma parent_key_prefix: "prefix (path_key (parent_path p)) (path_key p)"
  by (metis parent_path_split prefixI)

lemma path_key_parent [simp]:
  assumes "b \<noteq> []" and "SLASH \<notin> set b"
  shows "path_key (parent_path (path_append a b)) = path_key a"
proof -
  have b: "\<not> is_absolute b" using assms by (cases b) (auto simp: is_absolute_def)
  obtain f where "path_key (path_append a b) = path_key (parent_path (path_append a b)) @ path_key f"
    and f: "SLASH \<notin> set f" "f \<noteq> [] \<or> path_append a b = [] \<or> last (path_append a b) = SLASH"
    using parent_path_split by blast
  moreover have "last (path_append a b) = last b" using assms b by (simp add: path_append_def)
  moreover have "last b \<noteq> SLASH" using assms by (metis last_in_set)
  moreover have "path_append a b \<noteq> []" using assms b by (simp add: path_append_def)
  ultimately show ?thesis using assms b by (simp add: path_key_single)
qed

lemma parent_path_shorter: "path_key p \<noteq> [] \<Longrightarrow> length (parent_path p) < length p"
proof -
  assume key: "path_key p \<noteq> []"
  define d where "d = rev (dropWhile (\<lambda>c. c \<noteq> SLASH) (rev p))"
  define e where "e = rev (dropWhile (\<lambda>c. c = SLASH) (rev d))"
  have parent: "parent_path p = (if d = [] then [] else if e = [] then [SLASH] else e)"
    unfolding parent_path_def Let_def d_def e_def by (rule refl)
  obtain f where p: "p = d @ f"
    using rev_dropWhile_split [of p "\<lambda>c. c \<noteq> SLASH", folded d_def] by auto
  obtain s where d: "d = e @ s" and s: "\<forall>c\<in>set s. c = SLASH"
    using rev_dropWhile_split [of d "\<lambda>c. c = SLASH", folded e_def] by auto
  have d_end: "d = [] \<or> last d = SLASH"
    using last_rev_dropWhile [of "\<lambda>c. c \<noteq> SLASH" p] unfolding d_def by blast
  have e_end: "e = [] \<or> last e \<noteq> SLASH"
    using last_rev_dropWhile [of "\<lambda>c. c = SLASH" d] unfolding e_def by blast
  show ?thesis
  proof (cases "d = []")
    case True
    then show ?thesis using parent key p by (cases p) auto
  next
    case d_ne: False
    show ?thesis
    proof (cases "e = []")
      case True
      have "path_key (d @ f) \<noteq> []" using key p by metis
      moreover have "path_key d = []" using path_key_slashes [of s "[]"] s d True by simp
      ultimately have "f \<noteq> []" by (metis append_Nil2)
      then show ?thesis using parent d_ne True p by (cases d) auto
    next
      case False
      then have "s \<noteq> []" using d d_end e_end d_ne by auto
      then show ?thesis using parent d_ne False p d by simp
    qed
  qed
qed

lemma key_component_nonempty: "c \<in> set (path_key p) \<Longrightarrow> c \<noteq> []"
  by (simp add: path_key_def)

end
