(* ===== verification/SysCalls.thy ===== *)
theory SysCalls
  imports CppText
begin

text \<open>
  System call results and the retry loops around \<^verbatim>\<open>read\<close>, \<^verbatim>\<open>write\<close> and \<^verbatim>\<open>send\<close>.

  The kernel decides how each system call ends. Its decisions are a script, a finite list that
  every call takes one entry from: \<open>Ok\<close> completes the call, \<open>Short n\<close> lets a transfer move at
  most \<open>n + 1\<close> bytes (other calls complete), \<open>Fail e\<close> makes the call fail with errno \<open>e\<close>. Past
  the end of the script every call completes. A script can thus place finitely many faults,
  interruptions and partial transfers anywhere in a run; theorems quantify over it.
\<close>

datatype sysres = Ok | Short nat | Fail int

abbreviation (input) EPERM :: int where "EPERM \<equiv> 1"
abbreviation (input) ENOENT :: int where "ENOENT \<equiv> 2"
abbreviation (input) ESRCH :: int where "ESRCH \<equiv> 3"
abbreviation (input) EINTR :: int where "EINTR \<equiv> 4"
abbreviation (input) ENXIO :: int where "ENXIO \<equiv> 6"
abbreviation (input) ECHILD :: int where "ECHILD \<equiv> 10"
abbreviation (input) EACCES :: int where "EACCES \<equiv> 13"
abbreviation (input) EEXIST :: int where "EEXIST \<equiv> 17"
abbreviation (input) ENOTDIR :: int where "ENOTDIR \<equiv> 20"
abbreviation (input) EISDIR :: int where "EISDIR \<equiv> 21"
abbreviation (input) EPIPE :: int where "EPIPE \<equiv> 32"
abbreviation (input) ELOOP :: int where "ELOOP \<equiv> 40"
abbreviation (input) ENODATA :: int where "ENODATA \<equiv> 61"
abbreviation (input) ENOTSUP :: int where "ENOTSUP \<equiv> 95"
abbreviation (input) ECONNRESET :: int where "ECONNRESET \<equiv> 104"
abbreviation (input) ENOTCONN :: int where "ENOTCONN \<equiv> 107"

type_synonym mode_t = "32 word"
type_synonym uid_t = "32 word"
type_synonym gid_t = "32 word"
type_synonym pid_t = "32 word"

section \<open>Writing everything\<close>

text \<open>
  The loop of \<^verbatim>\<open>WriteAll\<close> (util.cc over \<^verbatim>\<open>write\<close>, protocol.cc over \<^verbatim>\<open>send\<close>): the bytes that
  have gone out, the bytes that remain. It retries after \<^verbatim>\<open>EINTR\<close> and stops at any other error.
  The result is the error, the bytes written and the script that is left.
\<close>

fun write_loop :: "sysres list \<Rightarrow> string \<Rightarrow> string \<Rightarrow> int option \<times> string \<times> sysres list" where
  "write_loop sc out rem =
     (if rem = [] then (None, out, sc)
      else (case sc of
              [] \<Rightarrow> (None, out @ rem, [])
            | Ok # sc' \<Rightarrow> (None, out @ rem, sc')
            | Short n # sc' \<Rightarrow> write_loop sc' (out @ take (Suc n) rem) (drop (Suc n) rem)
            | Fail e # sc' \<Rightarrow> if e = EINTR then write_loop sc' out rem else (Some e, out, sc')))"

declare write_loop.simps [simp del]

section \<open>Reading exactly\<close>

datatype read_end = ReadDone | ReadEof | ReadError int

text \<open>
  The loop of \<^verbatim>\<open>ReadAll\<close>: \<open>avail\<close> is everything the peer still sends before it closes, \<open>got\<close>
  what has been read, \<open>n\<close> how much is missing. A read of nothing is the end of the stream.
\<close>

function read_loop ::
  "sysres list \<Rightarrow> string \<Rightarrow> string \<Rightarrow> nat \<Rightarrow> read_end \<times> string \<times> string \<times> sysres list" where
  "read_loop sc avail got n =
     (if n = 0 then (ReadDone, got, avail, sc)
      else (case sc of
              [] \<Rightarrow> if avail = [] then (ReadEof, got, avail, [])
                    else read_loop [] (drop n avail) (got @ take n avail) (n - length (take n avail))
            | Ok # sc' \<Rightarrow> if avail = [] then (ReadEof, got, avail, sc')
                    else read_loop sc' (drop n avail) (got @ take n avail) (n - length (take n avail))
            | Short k # sc' \<Rightarrow> if avail = [] then (ReadEof, got, avail, sc')
                    else (let m = min n (Suc k) in
                      read_loop sc' (drop m avail) (got @ take m avail) (n - length (take m avail)))
            | Fail e # sc' \<Rightarrow> if e = EINTR then read_loop sc' avail got n
                    else (ReadError e, got, avail, sc')))"
  by pat_completeness auto
termination
  by (relation "measures [\<lambda>(sc, avail, got, n). length sc, \<lambda>(sc, avail, got, n). n]") auto

declare read_loop.simps [simp del]

section \<open>What the loops guarantee\<close>

lemma write_loop_eqs [simp]:
  "write_loop sc out [] = (None, out, sc)"
  "write_loop [] out rem = (None, out @ rem, [])"
  "rem \<noteq> [] \<Longrightarrow> write_loop (Ok # sc) out rem = (None, out @ rem, sc)"
  "rem \<noteq> [] \<Longrightarrow> write_loop (Short n # sc) out rem =
     write_loop sc (out @ take (Suc n) rem) (drop (Suc n) rem)"
  "rem \<noteq> [] \<Longrightarrow> write_loop (Fail e # sc) out rem =
     (if e = EINTR then write_loop sc out rem else (Some e, out, sc))"
  by (simp_all add: write_loop.simps [of _ _ rem] write_loop.simps [of _ _ "[]"])

text \<open>Only an error other than an interruption ends the write loop early, and what went out then
  is a prefix; otherwise all of it went out.\<close>

lemma write_loop_complete:
  "write_loop sc out rem = (None, out', sc') \<Longrightarrow> out' = out @ rem"
proof (induction sc arbitrary: out rem)
  case (Cons r sc)
  then show ?case by (cases r; cases "rem = []") (auto split: if_splits dest!: Cons.IH)
qed simp

lemma write_loop_partial:
  "write_loop sc out rem = (Some e, out', sc') \<Longrightarrow>
     e \<noteq> EINTR \<and> Fail e \<in> set sc \<and> (\<exists>p. out' = out @ p \<and> prefix p rem)"
proof (induction sc arbitrary: out rem)
  case (Cons r sc)
  then have rem: "rem \<noteq> []" by auto
  show ?case
  proof (cases r)
    case (Short n)
    then have "write_loop sc (out @ take (Suc n) rem) (drop (Suc n) rem) = (Some e, out', sc')"
      using Cons.prems rem by simp
    from Cons.IH [OF this] obtain p where
      p: "e \<noteq> EINTR" "Fail e \<in> set sc" "out' = out @ take (Suc n) rem @ p" "prefix p (drop (Suc n) rem)"
      by auto
    have "prefix (take (Suc n) rem @ p) rem"
      using p(4) by (metis append_take_drop_id same_prefix_prefix)
    then show ?thesis using p by auto
  qed (use Cons rem in \<open>auto split: if_splits\<close>)
qed simp

lemma write_loop_no_fault:
  assumes "\<forall>e. Fail e \<in> set sc \<longrightarrow> e = EINTR"
  shows "\<exists>sc'. write_loop sc out rem = (None, out @ rem, sc')"
proof -
  obtain r out' sc' where w: "write_loop sc out rem = (r, out', sc')" by (cases "write_loop sc out rem")
  moreover have "r = None"
    using w write_loop_partial [of sc out rem _ out' sc'] assms by (cases r) auto
  ultimately show ?thesis using write_loop_complete by blast
qed

lemma read_loop_eqs [simp]:
  "read_loop sc avail got 0 = (ReadDone, got, avail, sc)"
  "0 < n \<Longrightarrow> read_loop [] [] got n = (ReadEof, got, [], [])"
  "0 < n \<Longrightarrow> avail \<noteq> [] \<Longrightarrow> read_loop [] avail got n =
     read_loop [] (drop n avail) (got @ take n avail) (n - length (take n avail))"
  "0 < n \<Longrightarrow> avail \<noteq> [] \<Longrightarrow> read_loop (Ok # sc) avail got n =
     read_loop sc (drop n avail) (got @ take n avail) (n - length (take n avail))"
  "0 < n \<Longrightarrow> avail \<noteq> [] \<Longrightarrow> read_loop (Short k # sc) avail got n =
     read_loop sc (drop (min n (Suc k)) avail) (got @ take (min n (Suc k)) avail)
       (n - length (take (min n (Suc k)) avail))"
  "0 < n \<Longrightarrow> read_loop (Ok # sc) [] got n = (ReadEof, got, [], sc)"
  "0 < n \<Longrightarrow> read_loop (Short k # sc) [] got n = (ReadEof, got, [], sc)"
  "0 < n \<Longrightarrow> read_loop (Fail e # sc) avail got n =
     (if e = EINTR then read_loop sc avail got n else (ReadError e, got, avail, sc))"
  by (simp_all add: read_loop.simps [of _ _ _ n] read_loop.simps [of _ _ _ 0] Let_def)

lemma read_loop_quiet:
  "read_loop [] avail got n =
     (if n \<le> length avail then (ReadDone, got @ take n avail, drop n avail, [])
      else (ReadEof, got @ avail, [], []))"
  by (cases "n = 0"; cases "avail = []") auto

lemma take_step: "m \<le> n \<Longrightarrow> take m xs @ take (n - m) (drop m xs) = take n xs"
  by (metis le_add_diff_inverse take_add)

text \<open>A completed read returns exactly the next \<open>n\<close> bytes and leaves the rest in the stream.\<close>

lemma read_loop_complete:
  "read_loop sc avail got n = (ReadDone, got', avail', sc') \<Longrightarrow>
     n \<le> length avail \<and> got' = got @ take n avail \<and> avail' = drop n avail"
proof (induction sc arbitrary: avail got n)
  case Nil
  then show ?case by (auto simp: read_loop_quiet split: if_splits)
next
  case (Cons r sc)
  show ?case
  proof (cases "n = 0 \<or> avail = []")
    case True
    then show ?thesis
      using Cons.prems by (cases "n = 0"; cases r) (auto split: if_splits dest!: Cons.IH)
  next
    case False
    then have pos: "0 < n" "avail \<noteq> []" by auto
    have move: ?thesis if m: "m \<le> n"
      "read_loop sc (drop m avail) (got @ take m avail) (n - length (take m avail))
         = (ReadDone, got', avail', sc')" for m
      using Cons.IH [OF m(2)] m(1) take_step [OF m(1), of avail]
      by (cases "m \<le> length avail") auto
    show ?thesis
    proof (cases r)
      case Ok
      then show ?thesis using Cons.prems pos by (intro move [of n]) simp_all
    next
      case (Short k)
      then show ?thesis using Cons.prems pos by (intro move [of "min n (Suc k)"]) simp_all
    next
      case (Fail e)
      then show ?thesis using Cons.prems pos by (auto split: if_splits dest: Cons.IH)
    qed
  qed
qed

lemma read_loop_short:
  "length avail < n \<Longrightarrow> fst (read_loop sc avail got n) \<noteq> ReadDone"
  by (metis (no_types, lifting) leD prod.collapse read_loop_complete)

lemma read_loop_no_fault:
  "(\<forall>e. Fail e \<in> set sc \<longrightarrow> e = EINTR) \<Longrightarrow> n \<le> length avail \<Longrightarrow>
     \<exists>sc'. read_loop sc avail got n = (ReadDone, got @ take n avail, drop n avail, sc')
       \<and> set sc' \<subseteq> set sc"
proof (induction sc arbitrary: avail got n)
  case Nil
  then show ?case by (simp add: read_loop_quiet)
next
  case (Cons r sc)
  have ok: "\<forall>e. Fail e \<in> set sc \<longrightarrow> e = EINTR" using Cons.prems by auto
  show ?case
  proof (cases "n = 0")
    case False
    then have pos: "0 < n" "avail \<noteq> []" using Cons.prems by auto
    have move: "\<exists>sc'. read_loop sc (drop m avail) (got @ take m avail) (n - length (take m avail))
        = (ReadDone, got @ take n avail, drop n avail, sc') \<and> set sc' \<subseteq> set sc" if "m \<le> n" for m
      using Cons.IH [OF ok, of "n - m" "drop m avail" "got @ take m avail"] that Cons.prems
        take_step [OF that, of avail] by auto
    show ?thesis
    proof (cases r)
      case Ok
      then show ?thesis using move [of n] pos by auto
    next
      case (Short k)
      then show ?thesis using move [of "min n (Suc k)"] pos by auto
    next
      case (Fail e)
      then show ?thesis using Cons.IH [OF ok, of n avail got] Cons.prems pos by auto
    qed
  qed auto
qed

text \<open>Without faults the loop reads what there is, up to \<open>n\<close> bytes.\<close>

lemma read_loop_faultless:
  "list_all (\<lambda>r. case r of Fail _ \<Rightarrow> False | _ \<Rightarrow> True) sc \<Longrightarrow>
     read_loop sc avail got n = (fin, got', rest, sc') \<Longrightarrow>
     (\<forall>e. fin \<noteq> ReadError e) \<and> got' = got @ take n avail"
proof (induction sc arbitrary: avail got n)
  case Nil
  then show ?case by (auto simp: read_loop_quiet split: if_splits)
next
  case (Cons r sc)
  show ?case
  proof (cases "n = 0 \<or> avail = []")
    case True
    then show ?thesis using Cons.prems by (cases "n = 0"; cases r) auto
  next
    case False
    then have pos: "0 < n" "avail \<noteq> []" by auto
    have move: ?thesis if m: "m \<le> n"
      "read_loop sc (drop m avail) (got @ take m avail) (n - length (take m avail)) = (fin, got', rest, sc')" for m
      using Cons.IH [OF _ m(2)] Cons.prems(1) take_step [OF m(1), of avail]
      by (cases "m \<le> length avail") auto
    show ?thesis
    proof (cases r)
      case Ok
      then show ?thesis using Cons.prems pos by (intro move [of n]) simp_all
    next
      case (Short k)
      then show ?thesis using Cons.prems pos by (intro move [of "min n (Suc k)"]) simp_all
    qed (use Cons.prems in simp)
  qed
qed

end
