(* ===== verification/Protocol.thy ===== *)
theory Protocol
  imports SysCalls
begin

text \<open>
  The control protocol of \<^verbatim>\<open>protocol.h\<close> and \<^verbatim>\<open>protocol.cc\<close>: messages, their wire encoding,
  the length-prefixed frames on a stream socket, the file descriptor that can travel with the
  first byte of a frame, and the field allowlist.

  A socket end is the record \<open>sock\<close>: the bytes the peer still delivers before it closes, the
  bytes sent so far, the kernel's script for the calls on this socket, and the descriptors that
  arrive, leave or get closed. The main results: the encoding is inverted by the decoder exactly
  for messages whose command has no NUL and whose keys have no equals sign; a frame that is sent
  completely is received as the same message whatever partial transfers and interruptions happen
  on either side; an oversized header is refused before any payload byte is read.
\<close>

section \<open>Messages\<close>

definition kMaxControlMessageBytes :: nat where
  "kMaxControlMessageBytes = 64 * 1024"

record PeerCred =
  peer_pid :: pid_t
  peer_uid :: uid_t
  peer_gid :: gid_t

record Message =
  command :: string
  msg_fields :: "(string \<times> string) list"

definition AddField :: "string \<Rightarrow> string \<Rightarrow> Message \<Rightarrow> Message" where
  "AddField key value m = m\<lparr>msg_fields := msg_fields m @ [(key, value)]\<rparr>"

fun get_first :: "string \<Rightarrow> string \<Rightarrow> (string \<times> string) list \<Rightarrow> string" where
  "get_first key dflt [] = dflt"
| "get_first key dflt ((k, v) # fs) = (if k = key then v else get_first key dflt fs)"

definition Get :: "Message \<Rightarrow> string \<Rightarrow> string" where
  "Get m key = get_first key [] (msg_fields m)"

definition GetOr :: "Message \<Rightarrow> string \<Rightarrow> string \<Rightarrow> string" where
  "GetOr m key dflt = get_first key dflt (msg_fields m)"

definition GetAll :: "Message \<Rightarrow> string \<Rightarrow> string list" where
  "GetAll m key = map snd (filter (\<lambda>(k, v). k = key) (msg_fields m))"

section \<open>Wire encoding\<close>

fun encode_fields :: "(string \<times> string) list \<Rightarrow> exn + string" where
  "encode_fields [] = Inr []"
| "encode_fields ((key, value) # fs) =
     (if key = [] \<or> NUL \<in> set key \<or> NUL \<in> set value
      then Inl (RuntimeError ''invalid NUL in control message'')
      else try_bind (encode_fields fs) (\<lambda>rest. Inr (key @ [EQ] @ value @ [NUL] @ rest)))"

definition EncodeMessage :: "Message \<Rightarrow> exn + string" where
  "EncodeMessage m =
     (if command m = [] then Inl (RuntimeError ''message command may not be empty'')
      else try_bind (encode_fields (msg_fields m)) (\<lambda>rest. Inr (command m @ [NUL] @ rest)))"

text \<open>The loop of \<^verbatim>\<open>DecodeMessage\<close> over the NUL-delimited tokens; empty tokens are skipped.\<close>

fun decode_tokens :: "string list \<Rightarrow> bool \<Rightarrow> Message \<Rightarrow> exn + Message" where
  "decode_tokens [] first m = Inr m"
| "decode_tokens (token # ts) first m =
     (if token = [] then decode_tokens ts first m
      else if first then decode_tokens ts False (m\<lparr>command := token\<rparr>)
      else (case cut EQ token of
              None \<Rightarrow> Inl (RuntimeError ''malformed control token'')
            | Some (k, v) \<Rightarrow> decode_tokens ts False (AddField k v m)))"

definition DecodeMessage :: "string \<Rightarrow> exn + Message" where
  "DecodeMessage payload =
     try_bind (decode_tokens (getlines NUL payload) True \<lparr>command = [], msg_fields = []\<rparr>)
       (\<lambda>m. if command m = [] then Inl (RuntimeError ''missing control command'') else Inr m)"

section \<open>Sockets\<close>

record sock =
  s_in :: string
  s_out :: string
  s_script :: "sysres list"
  s_anc_in :: "int option"
  s_anc_out :: "int list"
  s_fd :: int
  s_closed :: "int list"
  s_strerror :: "int \<Rightarrow> string"

definition errno_error :: "(int \<Rightarrow> string) \<Rightarrow> string \<Rightarrow> int \<Rightarrow> exn" where
  "errno_error strerr context e = ErrnoRuntimeError (context @ '': '' @ strerr e) e"

definition WriteAll :: "string \<Rightarrow> (sock, unit) action" where
  "WriteAll buffer = (\<lambda>s.
     case write_loop (s_script s) [] buffer of
       (err, out, sc) \<Rightarrow>
         (case err of None \<Rightarrow> Inr () | Some e \<Rightarrow> Inl (errno_error (s_strerror s) ''write'' e),
          s\<lparr>s_out := s_out s @ out, s_script := sc\<rparr>))"

definition ReadAll :: "nat \<Rightarrow> (sock, string) action" where
  "ReadAll n = (\<lambda>s.
     case read_loop (s_script s) (s_in s) [] n of
       (fin, got, rest, sc) \<Rightarrow>
         (case fin of
            ReadDone \<Rightarrow> Inr got
          | ReadEof \<Rightarrow> Inl (RuntimeError ''unexpected EOF on control socket'')
          | ReadError e \<Rightarrow> Inl (errno_error (s_strerror s) ''read'' e),
          s\<lparr>s_in := rest, s_script := sc\<rparr>))"

text \<open>The four header bytes of a \<^verbatim>\<open>std::uint32_t\<close> in host (little-endian) order.\<close>

definition le32 :: "32 word \<Rightarrow> string" where
  "le32 w = map (\<lambda>i. char_of (unat w div 256 ^ i)) [0, 1, 2, 3]"

definition of_le32 :: "string \<Rightarrow> 32 word" where
  "of_le32 bs = of_nat (foldr (\<lambda>c a. of_char c + 256 * a) bs 0)"

section \<open>Frames\<close>

definition SendMessage :: "Message \<Rightarrow> (sock, unit) action" where
  "SendMessage m =
     bnd (lift_sum (EncodeMessage m)) (\<lambda>payload.
     if length payload > kMaxControlMessageBytes
     then raise (RuntimeError ''control message exceeds maximum payload size'')
     else bnd (WriteAll (le32 (of_nat (length payload)))) (\<lambda>_.
       if payload \<noteq> [] then WriteAll payload else ret ()))"

definition ReceiveMessage :: "(sock, Message) action" where
  "ReceiveMessage =
     bnd (ReadAll 4) (\<lambda>header.
     if unat (of_le32 header) > kMaxControlMessageBytes
     then raise (RuntimeError ''control message exceeds maximum payload size'')
     else bnd (if unat (of_le32 header) > 0 then ReadAll (unat (of_le32 header)) else ret [])
       (\<lambda>payload. lift_sum (DecodeMessage payload)))"

text \<open>
  The \<^verbatim>\<open>sendmsg\<close> loop. The descriptor is attached to every call made while nothing has been
  sent, so it leaves with the first byte that is accepted.
\<close>

fun sendmsg_loop ::
  "sysres list \<Rightarrow> int \<Rightarrow> string \<Rightarrow> string \<Rightarrow> int list \<Rightarrow>
     int option \<times> string \<times> int list \<times> sysres list" where
  "sendmsg_loop sc fd out rem anc =
     (if rem = [] then (None, out, anc, sc)
      else (let anc' = (if out = [] \<and> fd \<ge> 0 then anc @ [fd] else anc) in
        case sc of
          [] \<Rightarrow> (None, out @ rem, anc', [])
        | Ok # sc' \<Rightarrow> (None, out @ rem, anc', sc')
        | Short n # sc' \<Rightarrow> sendmsg_loop sc' fd (out @ take (Suc n) rem) (drop (Suc n) rem) anc'
        | Fail e # sc' \<Rightarrow>
            if e = EINTR then sendmsg_loop sc' fd out rem anc else (Some e, out, anc, sc')))"

declare sendmsg_loop.simps [simp del]

definition SendMessageWithFd :: "Message \<Rightarrow> int \<Rightarrow> (sock, unit) action" where
  "SendMessageWithFd m ancillary_fd =
     bnd (lift_sum (EncodeMessage m)) (\<lambda>payload.
     if length payload > kMaxControlMessageBytes
     then raise (RuntimeError ''control message exceeds maximum payload size'')
     else (\<lambda>s.
       case sendmsg_loop (s_script s) ancillary_fd []
              (le32 (of_nat (length payload)) @ payload) [] of
         (err, out, anc, sc) \<Rightarrow>
           (case err of None \<Rightarrow> Inr () | Some e \<Rightarrow> Inl (errno_error (s_strerror s) ''sendmsg'' e),
            s\<lparr>s_out := s_out s @ out, s_anc_out := s_anc_out s @ anc, s_script := sc\<rparr>)))"

text \<open>
  The \<^verbatim>\<open>recvmsg\<close> loop for the header. The control buffer is offered only while nothing has been
  read; the descriptor attached to the first byte arrives with the first successful call.
\<close>

definition incoming_fd :: "int option \<Rightarrow> string \<Rightarrow> int \<Rightarrow> int" where
  "incoming_fd anc got fd =
     (if got = [] \<and> fd < 0 then (case anc of Some d \<Rightarrow> d | None \<Rightarrow> fd) else fd)"

function recvmsg_loop ::
  "sysres list \<Rightarrow> string \<Rightarrow> int option \<Rightarrow> string \<Rightarrow> nat \<Rightarrow> int \<Rightarrow>
     read_end \<times> string \<times> string \<times> int \<times> sysres list" where
  "recvmsg_loop sc avail anc got n fd =
     (if n = 0 then (ReadDone, got, avail, fd, sc)
      else (let fd' = incoming_fd anc got fd in
        case sc of
          [] \<Rightarrow> if avail = [] then (ReadEof, got, avail, fd, [])
                else recvmsg_loop [] (drop n avail) anc (got @ take n avail)
                       (n - length (take n avail)) fd'
        | Ok # sc' \<Rightarrow> if avail = [] then (ReadEof, got, avail, fd, sc')
                else recvmsg_loop sc' (drop n avail) anc (got @ take n avail)
                       (n - length (take n avail)) fd'
        | Short k # sc' \<Rightarrow> if avail = [] then (ReadEof, got, avail, fd, sc')
                else (let m = min n (Suc k) in
                  recvmsg_loop sc' (drop m avail) anc (got @ take m avail)
                    (n - length (take m avail)) fd')
        | Fail e # sc' \<Rightarrow>
            if e = EINTR then recvmsg_loop sc' avail anc got n fd
            else (ReadError e, got, avail, fd, sc')))"
  by pat_completeness auto
termination
  by (relation "measures [\<lambda>(sc, avail, anc, got, n, fd). length sc,
                          \<lambda>(sc, avail, anc, got, n, fd). n]") auto

declare recvmsg_loop.simps [simp del]

text \<open>\<open>s_fd\<close> is the target of the \<^verbatim>\<open>received_fd\<close> pointer, visible to the caller also after an
  exception.\<close>

definition recv_header :: "(sock, string) action" where
  "recv_header = (\<lambda>s.
     case recvmsg_loop (s_script s) (s_in s) (s_anc_in s) [] 4 (s_fd s) of
       (fin, got, rest, fd, sc) \<Rightarrow>
         (case fin of
            ReadDone \<Rightarrow> Inr got
          | ReadEof \<Rightarrow> Inl (RuntimeError ''unexpected EOF on control socket'')
          | ReadError e \<Rightarrow> Inl (errno_error (s_strerror s) ''recvmsg'' e),
          s\<lparr>s_in := rest, s_fd := fd, s_script := sc\<rparr>))"

definition close_received_fd :: "sock \<Rightarrow> sock" where
  "close_received_fd s =
     (if s_fd s \<ge> 0 then s\<lparr>s_closed := s_closed s @ [s_fd s], s_fd := - 1\<rparr> else s)"

definition ReceiveMessageWithFd :: "(sock, Message) action" where
  "ReceiveMessageWithFd =
     bnd (modify (s_fd_update (\<lambda>_. - 1))) (\<lambda>_.
     bnd recv_header (\<lambda>header.
     if unat (of_le32 header) > kMaxControlMessageBytes
     then bnd (modify close_received_fd) (\<lambda>_.
       raise (RuntimeError ''control message exceeds maximum payload size''))
     else bnd (if unat (of_le32 header) > 0 then ReadAll (unat (of_le32 header)) else ret [])
       (\<lambda>payload. lift_sum (DecodeMessage payload))))"

section \<open>The field allowlist\<close>

fun check_fields :: "(string \<times> string) list \<Rightarrow> string list \<Rightarrow> exn + unit" where
  "check_fields [] allowed = Inr ()"
| "check_fields ((key, v) # fs) allowed =
     (if key \<notin> set allowed then Inl (RuntimeError (''unexpected field in request: '' @ key))
      else check_fields fs allowed)"

definition ValidateAllowedFields :: "Message \<Rightarrow> string list \<Rightarrow> exn + unit" where
  "ValidateAllowedFields m allowed = check_fields (msg_fields m) allowed"

section \<open>Encoding and decoding\<close>

text \<open>What the encoder cannot check by itself: it accepts these messages, and exactly these
  survive the trip.\<close>

definition wire_safe :: "Message \<Rightarrow> bool" where
  "wire_safe m \<longleftrightarrow> NUL \<notin> set (command m) \<and> (\<forall>(k, v)\<in>set (msg_fields m). EQ \<notin> set k)"

lemma AddField_simps [simp]:
  "command (AddField k v m) = command m"
  "msg_fields (AddField k v m) = msg_fields m @ [(k, v)]"
  by (simp_all add: AddField_def)

lemma encode_fields_clean:
  "encode_fields fs = Inr p \<Longrightarrow> (k, v) \<in> set fs \<Longrightarrow> k \<noteq> [] \<and> NUL \<notin> set k \<and> NUL \<notin> set v"
  by (induction fs arbitrary: p rule: encode_fields.induct)
    (auto simp: try_bind_eq_Inr split: if_splits)

lemma decode_encoded_fields:
  assumes "encode_fields fs = Inr p" and "\<forall>(k, v)\<in>set fs. EQ \<notin> set k"
  shows "decode_tokens (getlines NUL p) False m = Inr (m\<lparr>msg_fields := msg_fields m @ fs\<rparr>)"
  using assms
proof (induction fs arbitrary: p m rule: encode_fields.induct)
  case 1
  then show ?case by simp
next
  case (2 key val fs)
  then obtain rest where rest: "encode_fields fs = Inr rest"
    and p: "p = key @ [EQ] @ val @ [NUL] @ rest"
    and clean: "key \<noteq> []" "NUL \<notin> set key" "NUL \<notin> set val"
    by (auto simp: try_bind_eq_Inr split: if_splits)
  have "getlines NUL p = (key @ EQ # val) # getlines NUL rest"
    using getlines_line [of NUL "key @ EQ # val" rest] clean p by simp
  moreover have "decode_tokens (getlines NUL rest) False (AddField key val m)
      = Inr ((AddField key val m)\<lparr>msg_fields := msg_fields (AddField key val m) @ fs\<rparr>)"
    using 2 rest clean by (intro "2.IH") auto
  ultimately show ?case using "2.prems"(2) by (simp add: AddField_def)
qed

lemma decode_encoded:
  assumes "EncodeMessage m = Inr p" and "wire_safe m"
  shows "DecodeMessage p = Inr m"
proof -
  obtain rest where rest: "encode_fields (msg_fields m) = Inr rest" and cmd: "command m \<noteq> []"
    and p: "p = command m @ [NUL] @ rest"
    using assms(1) by (auto simp: EncodeMessage_def try_bind_eq_Inr split: if_splits)
  have "getlines NUL p = command m # getlines NUL rest"
    using getlines_line [of NUL "command m" rest] assms(2) p by (simp add: wire_safe_def)
  moreover have "decode_tokens (getlines NUL rest) False \<lparr>command = command m, msg_fields = []\<rparr> = Inr m"
    using decode_encoded_fields [OF rest] assms(2) by (simp add: wire_safe_def)
  ultimately show ?thesis using cmd by (simp add: DecodeMessage_def)
qed

lemma getlines_free: "l \<in> set (getlines d s) \<Longrightarrow> d \<notin> set l"
  by (induction d s rule: getlines.induct) (auto split: if_splits dest: set_takeWhileD)

lemma wire_safe_AddField [simp]: "wire_safe (AddField k v m) \<longleftrightarrow> wire_safe m \<and> EQ \<notin> set k"
  by (auto simp: wire_safe_def)

lemma wire_safe_command [simp]:
  "wire_safe (m\<lparr>command := c\<rparr>) \<longleftrightarrow> NUL \<notin> set c \<and> (\<forall>(k, v)\<in>set (msg_fields m). EQ \<notin> set k)"
  by (auto simp: wire_safe_def)

lemma decode_tokens_wire_safe:
  "decode_tokens ts first m = Inr m' \<Longrightarrow> \<forall>t\<in>set ts. NUL \<notin> set t \<Longrightarrow> wire_safe m \<Longrightarrow> wire_safe m'"
proof (induction ts first m rule: decode_tokens.induct)
  case (2 token ts first m)
  have "\<forall>(k, v)\<in>set (msg_fields m). EQ \<notin> set k" using "2.prems"(3) by (simp add: wire_safe_def)
  moreover have "EQ \<notin> set a" if "cut EQ token = Some (a, b)" for a b
    using cut_SomeD [OF that] by simp
  ultimately show ?case
    using 2 by (auto split: if_splits option.splits)
qed simp

lemma decoded_wire_safe: "DecodeMessage p = Inr m \<Longrightarrow> wire_safe m"
proof -
  assume "DecodeMessage p = Inr m"
  then have "decode_tokens (getlines NUL p) True \<lparr>command = [], msg_fields = []\<rparr> = Inr m"
    by (auto simp: DecodeMessage_def try_bind_eq_Inr split: if_splits)
  then show ?thesis
    by (rule decode_tokens_wire_safe) (auto simp: wire_safe_def dest: getlines_free)
qed

section \<open>Headers\<close>

lemma length_le32 [simp]: "length (le32 w) = 4"
  by (simp add: le32_def)

lemma le32_not_Nil [simp]: "le32 w \<noteq> []"
  by (simp add: le32_def)

lemma of_le32_le32 [simp]: "of_le32 (le32 w) = w"
proof -
  define n where "n = unat w"
  define a where "a = n div 256"
  define b where "b = a div 256"
  have "n < 2 ^ 32" using unsigned_less [of w, where 'a = nat] by (simp add: n_def)
  then have "b div 256 mod 256 = b div 256" by (simp add: a_def b_def div_mult2_eq [symmetric])
  moreover have "n mod 256 + (256 * (a mod 256) + 65536 * b) = n"
    using mod_mult_div_eq [of n 256] mod_mult_div_eq [of a 256]
    unfolding a_def [symmetric] b_def [symmetric] by linarith
  moreover have "n div 65536 = b" "n div 16777216 = b div 256"
    by (simp_all add: a_def b_def div_mult2_eq [symmetric])
  ultimately have "foldr (\<lambda>c a. of_char c + 256 * a) (le32 w) 0 = n"
    by (simp add: le32_def n_def [symmetric] a_def [symmetric])
  then show ?thesis by (simp add: of_le32_def n_def)
qed

lemma unat_frame_size: "length p \<le> kMaxControlMessageBytes \<Longrightarrow> unat (of_nat (length p) :: 32 word) = length p"
  by (simp add: kMaxControlMessageBytes_def unat_of_nat)

section \<open>Frames on a socket\<close>

text \<open>A script without hard errors: interruptions and partial transfers only.\<close>

definition benign :: "sysres list \<Rightarrow> bool" where
  "benign sc \<longleftrightarrow> (\<forall>e. Fail e \<in> set sc \<longrightarrow> e = EINTR)"

lemma WriteAll_Inr: "WriteAll b s = (Inr (), s') \<Longrightarrow> \<exists>sc. s' = s\<lparr>s_out := s_out s @ b, s_script := sc\<rparr>"
  by (auto simp: WriteAll_def split: prod.splits option.splits dest!: write_loop_complete)

lemma ReadAll_benign:
  assumes "benign (s_script s)" and "n \<le> length (s_in s)"
  shows "\<exists>sc. ReadAll n s = (Inr (take n (s_in s)), s\<lparr>s_in := drop n (s_in s), s_script := sc\<rparr>)
    \<and> benign sc"
proof -
  obtain sc where sc: "read_loop (s_script s) (s_in s) [] n
      = (ReadDone, take n (s_in s), drop n (s_in s), sc)" and "set sc \<subseteq> set (s_script s)"
    using read_loop_no_fault [of "s_script s" n "s_in s" "[]"] assms by (auto simp: benign_def)
  then have "benign sc" using assms(1) by (auto simp: benign_def)
  moreover have "ReadAll n s = (Inr (take n (s_in s)), s\<lparr>s_in := drop n (s_in s), s_script := sc\<rparr>)"
    using sc by (simp add: ReadAll_def)
  ultimately show ?thesis by blast
qed

lemma SendMessage_frame:
  assumes "SendMessage m s = (Inr (), s')"
  obtains p where "EncodeMessage m = Inr p" and "length p \<le> kMaxControlMessageBytes"
    and "s_out s' = s_out s @ le32 (of_nat (length p)) @ p"
proof -
  obtain p where p: "EncodeMessage m = Inr p"
    using assms by (cases "EncodeMessage m") (auto simp: SendMessage_def bnd_apply)
  then have len: "length p \<le> kMaxControlMessageBytes"
    using assms by (auto simp: SendMessage_def bnd_apply split: if_splits)
  then obtain s1 where s1: "WriteAll (le32 (of_nat (length p))) s = (Inr (), s1)"
    and s': "(if p \<noteq> [] then WriteAll p else ret ()) s1 = (Inr (), s')"
    using assms p by (auto simp: SendMessage_def bnd_apply split: prod.splits sum.splits)
  have "s_out s' = s_out s1 @ p"
    using s' by (auto split: if_splits dest: WriteAll_Inr)
  then show thesis using that p len WriteAll_Inr [OF s1] by auto
qed

lemma payload_read:
  assumes "benign (s_script s)" and "s_in s = p @ rest" and "n = length p"
  shows "\<exists>sc. (if n > 0 then ReadAll n else ret []) s = (Inr p, s\<lparr>s_in := rest, s_script := sc\<rparr>)"
proof (cases "n > 0")
  case True
  then show ?thesis using assms ReadAll_benign [of s n] by auto
next
  case False
  then show ?thesis using assms by (intro exI [of _ "s_script s"]) simp
qed

lemma ReceiveMessage_frame:
  assumes "benign (s_script s)" and "length p \<le> kMaxControlMessageBytes"
    and "s_in s = le32 (of_nat (length p)) @ p @ rest"
  shows "\<exists>sc. ReceiveMessage s = (DecodeMessage p, s\<lparr>s_in := rest, s_script := sc\<rparr>)"
proof -
  obtain sc where hdr: "ReadAll 4 s = (Inr (le32 (of_nat (length p))), s\<lparr>s_in := p @ rest, s_script := sc\<rparr>)"
    and sc: "benign sc"
    using ReadAll_benign [of s 4] assms by auto
  let ?s1 = "s\<lparr>s_in := p @ rest, s_script := sc\<rparr>"
  obtain sc' where "(if length p > 0 then ReadAll (length p) else ret []) ?s1
      = (Inr p, ?s1\<lparr>s_in := rest, s_script := sc'\<rparr>)"
    using payload_read [of ?s1 p rest "length p"] sc by auto
  then show ?thesis
    using hdr assms(2) unat_frame_size [of p]
    by (auto simp: ReceiveMessage_def bnd_apply split: if_splits)
qed

lemma write_loop_benign: "benign sc \<Longrightarrow> \<exists>sc'. write_loop sc out rem = (None, out @ rem, sc')"
  using write_loop_no_fault by (simp add: benign_def)

section \<open>Frames that carry a descriptor\<close>

lemma sendmsg_loop_eqs [simp]:
  "sendmsg_loop sc fd out [] anc = (None, out, anc, sc)"
  "rem \<noteq> [] \<Longrightarrow> sendmsg_loop [] fd out rem anc =
     (None, out @ rem, if out = [] \<and> fd \<ge> 0 then anc @ [fd] else anc, [])"
  "rem \<noteq> [] \<Longrightarrow> sendmsg_loop (Ok # sc) fd out rem anc =
     (None, out @ rem, if out = [] \<and> fd \<ge> 0 then anc @ [fd] else anc, sc)"
  "rem \<noteq> [] \<Longrightarrow> sendmsg_loop (Short n # sc) fd out rem anc =
     sendmsg_loop sc fd (out @ take (Suc n) rem) (drop (Suc n) rem)
       (if out = [] \<and> fd \<ge> 0 then anc @ [fd] else anc)"
  "rem \<noteq> [] \<Longrightarrow> sendmsg_loop (Fail e # sc) fd out rem anc =
     (if e = EINTR then sendmsg_loop sc fd out rem anc else (Some e, out, anc, sc))"
  by (simp_all add: sendmsg_loop.simps [of _ _ _ rem] sendmsg_loop.simps [of _ _ _ "[]"] Let_def)

text \<open>The bytes go out as in \<open>write_loop\<close>, and the descriptor leaves exactly once, with the
  first byte.\<close>

lemma sendmsg_loop_write:
  "sendmsg_loop sc fd out rem anc =
     (case write_loop sc out rem of (err, out', sc') \<Rightarrow>
        (err, out', if out = [] \<and> out' \<noteq> [] \<and> fd \<ge> 0 then anc @ [fd] else anc, sc'))"
proof (induction sc arbitrary: out rem anc)
  case Nil
  then show ?case by (cases "rem = []") auto
next
  case (Cons r sc)
  have grows: "out' \<noteq> []" if "write_loop sc (out @ take (Suc n) rem) (drop (Suc n) rem) = (err, out', sc')"
    "rem \<noteq> []" for n err out' sc'
  proof (cases err)
    case None
    then show ?thesis using that write_loop_complete by fastforce
  next
    case (Some e)
    then show ?thesis using that write_loop_partial by fastforce
  qed
  show ?case
  proof (cases "rem = []")
    case False
    then show ?thesis
      using Cons.IH grows by (cases r) (auto split: prod.split)
  qed auto
qed

lemma read_loop_grows: "read_loop sc avail got n = (fin, got', rest, sc') \<Longrightarrow> prefix got got'"
proof (induction sc arbitrary: avail got n)
  case Nil
  then show ?case by (auto simp: read_loop_quiet prefix_def split: if_splits)
next
  case (Cons r sc)
  show ?case
  proof (cases "n = 0 \<or> avail = []")
    case True
    then show ?thesis
      using Cons.prems by (cases "n = 0"; cases r) (auto split: if_splits dest!: Cons.IH)
  next
    case False
    then have pos: "0 < n" "avail \<noteq> []" by auto
    then show ?thesis
      using Cons.prems Cons.IH append_prefixD
      by (cases r) (fastforce split: if_splits)+
  qed
qed

lemma recvmsg_loop_eqs [simp]:
  "recvmsg_loop sc avail anc got 0 fd = (ReadDone, got, avail, fd, sc)"
  "0 < n \<Longrightarrow> recvmsg_loop [] [] anc got n fd = (ReadEof, got, [], fd, [])"
  "0 < n \<Longrightarrow> avail \<noteq> [] \<Longrightarrow> recvmsg_loop [] avail anc got n fd =
     recvmsg_loop [] (drop n avail) anc (got @ take n avail) (n - length (take n avail)) (incoming_fd anc got fd)"
  "0 < n \<Longrightarrow> avail \<noteq> [] \<Longrightarrow> recvmsg_loop (Ok # sc) avail anc got n fd =
     recvmsg_loop sc (drop n avail) anc (got @ take n avail) (n - length (take n avail)) (incoming_fd anc got fd)"
  "0 < n \<Longrightarrow> avail \<noteq> [] \<Longrightarrow> recvmsg_loop (Short k # sc) avail anc got n fd =
     recvmsg_loop sc (drop (min n (Suc k)) avail) anc (got @ take (min n (Suc k)) avail)
       (n - length (take (min n (Suc k)) avail)) (incoming_fd anc got fd)"
  "0 < n \<Longrightarrow> recvmsg_loop (Ok # sc) [] anc got n fd = (ReadEof, got, [], fd, sc)"
  "0 < n \<Longrightarrow> recvmsg_loop (Short k # sc) [] anc got n fd = (ReadEof, got, [], fd, sc)"
  "0 < n \<Longrightarrow> recvmsg_loop (Fail e # sc) avail anc got n fd =
     (if e = EINTR then recvmsg_loop sc avail anc got n fd else (ReadError e, got, avail, fd, sc))"
  by (simp_all add: recvmsg_loop.simps [of _ _ _ _ n] recvmsg_loop.simps [of _ _ _ _ 0] Let_def)

lemma incoming_fd_simps [simp]:
  "got \<noteq> [] \<Longrightarrow> incoming_fd anc got fd = fd" "0 \<le> fd \<Longrightarrow> incoming_fd anc got fd = fd"
  "incoming_fd anc [] (- 1) = (case anc of Some d \<Rightarrow> d | None \<Rightarrow> - 1)"
  by (auto simp: incoming_fd_def)

lemma recvmsg_loop_moved:
  assumes IH: "\<And>avail got n fd. recvmsg_loop sc avail anc got n fd =
     (case read_loop sc avail got n of (fin, got', rest, sc') \<Rightarrow>
        (fin, got', rest, if got' = got then fd else incoming_fd anc got fd, sc'))"
    and pos: "0 < m" "avail \<noteq> []"
  shows "recvmsg_loop sc (drop m avail) anc (got @ take m avail) k (incoming_fd anc got fd) =
    (case read_loop sc (drop m avail) (got @ take m avail) k of (fin, got', rest, sc') \<Rightarrow>
      (fin, got', rest, if got' = got then fd else incoming_fd anc got fd, sc'))"
proof -
  obtain fin got' rest sc' where r: "read_loop sc (drop m avail) (got @ take m avail) k = (fin, got', rest, sc')"
    by (cases "read_loop sc (drop m avail) (got @ take m avail) k")
  have "got @ take m avail \<noteq> []" "got' \<noteq> got"
    using read_loop_grows [OF r] pos by (auto simp: prefix_def)
  then show ?thesis using IH r by simp
qed

lemma recvmsg_loop_read:
  "recvmsg_loop sc avail anc got n fd =
     (case read_loop sc avail got n of (fin, got', rest, sc') \<Rightarrow>
        (fin, got', rest, if got' = got then fd else incoming_fd anc got fd, sc'))"
proof (induction sc arbitrary: avail got n fd)
  case Nil
  show ?case
  proof (cases "n = 0 \<or> avail = []")
    case True
    then show ?thesis by (cases "n = 0") (simp_all add: recvmsg_loop_eqs(1, 2))
  next
    case False
    then have "recvmsg_loop [] avail anc got n fd =
        (if n \<le> length avail
         then (ReadDone, got @ take n avail, drop n avail, incoming_fd anc got fd, [])
         else (ReadEof, got @ avail, [], incoming_fd anc got fd, []))"
      by (auto simp: recvmsg_loop_eqs(3))
    then show ?thesis using False by (simp add: read_loop_quiet)
  qed
next
  case (Cons r sc)
  show ?case
  proof (cases "n = 0 \<or> avail = []")
    case True
    then show ?thesis using Cons.IH by (cases "n = 0"; cases r) auto
  next
    case False
    then have pos: "0 < n" "avail \<noteq> []" by auto
    note moved = recvmsg_loop_moved [OF Cons.IH _ pos(2)]
    show ?thesis
      using pos moved [of n got "n - length (take n avail)" fd] Cons.IH [of avail got n fd]
        moved [of "min n (Suc k)" got "n - length (take (min n (Suc k)) avail)" fd for k]
      by (cases r) simp_all
  qed
qed

lemma recv_header_benign:
  assumes "benign (s_script s)" and "4 \<le> length (s_in s)" and "s_fd s = - 1"
  shows "\<exists>sc. recv_header s = (Inr (take 4 (s_in s)),
      s\<lparr>s_in := drop 4 (s_in s), s_fd := (case s_anc_in s of Some d \<Rightarrow> d | None \<Rightarrow> - 1), s_script := sc\<rparr>)
    \<and> benign sc"
proof -
  obtain sc where sc: "read_loop (s_script s) (s_in s) [] 4
      = (ReadDone, take 4 (s_in s), drop 4 (s_in s), sc)" and "set sc \<subseteq> set (s_script s)"
    using read_loop_no_fault [of "s_script s" 4 "s_in s" "[]"] assms by (auto simp: benign_def)
  then have "benign sc" using assms(1) by (auto simp: benign_def)
  moreover have "s_in s \<noteq> []" using assms(2) by auto
  ultimately show ?thesis
    using sc assms(3) by (intro exI [of _ sc]) (auto simp: recv_header_def recvmsg_loop_read split: option.split)
qed

lemma ReceiveMessageWithFd_frame:
  assumes "benign (s_script s)" and "length p \<le> kMaxControlMessageBytes"
    and "s_in s = le32 (of_nat (length p)) @ p @ rest"
  shows "\<exists>sc. ReceiveMessageWithFd s = (DecodeMessage p, s\<lparr>s_in := rest,
      s_fd := (case s_anc_in s of Some d \<Rightarrow> d | None \<Rightarrow> - 1), s_script := sc\<rparr>)"
proof -
  let ?s0 = "s\<lparr>s_fd := - 1\<rparr>"
  let ?fd = "case s_anc_in s of Some d \<Rightarrow> d | None \<Rightarrow> - 1"
  obtain sc where hdr: "recv_header ?s0 = (Inr (le32 (of_nat (length p))),
      s\<lparr>s_in := p @ rest, s_fd := ?fd, s_script := sc\<rparr>)" and sc: "benign sc"
    using recv_header_benign [of ?s0] assms by auto
  let ?s1 = "s\<lparr>s_in := p @ rest, s_fd := ?fd, s_script := sc\<rparr>"
  obtain sc' where "(if length p > 0 then ReadAll (length p) else ret []) ?s1
      = (Inr p, ?s1\<lparr>s_in := rest, s_script := sc'\<rparr>)"
    using payload_read [of ?s1 p rest "length p"] sc by auto
  then show ?thesis
    using hdr assms(2) unat_frame_size [of p]
    by (intro exI [of _ sc'])
      (auto simp: ReceiveMessageWithFd_def bnd_apply split: if_splits)
qed

lemma SendMessageWithFd_frame:
  assumes "SendMessageWithFd m fd s = (Inr (), s')"
  shows "\<exists>p. EncodeMessage m = Inr p \<and> length p \<le> kMaxControlMessageBytes
    \<and> s_out s' = s_out s @ le32 (of_nat (length p)) @ p
    \<and> s_anc_out s' = s_anc_out s @ (if fd \<ge> 0 then [fd] else [])"
proof -
  obtain p where p: "EncodeMessage m = Inr p"
    using assms by (cases "EncodeMessage m") (auto simp: SendMessageWithFd_def bnd_apply)
  obtain err out sc where w: "write_loop (s_script s) [] (le32 (of_nat (length p)) @ p) = (err, out, sc)"
    by (cases "write_loop (s_script s) [] (le32 (of_nat (length p)) @ p)")
  then have "err = None" and len: "length p \<le> kMaxControlMessageBytes"
    using assms p
    by (auto simp: SendMessageWithFd_def bnd_apply sendmsg_loop_write split: if_splits option.splits)
  then have "out = le32 (of_nat (length p)) @ p"
    using w write_loop_complete [of "s_script s" "[]"] by fastforce
  then show ?thesis
    using assms p w \<open>err = None\<close> len
    by (auto simp: SendMessageWithFd_def bnd_apply sendmsg_loop_write)
qed

section \<open>Properties\<close>

text \<open>C24: Decoding inverts encoding exactly for the messages whose command holds no NUL byte and
  whose keys hold no equals sign: these come back unchanged, every other message the encoder
  accepts comes back as something else.\<close>

theorem decode_encode_iff:
  assumes "EncodeMessage m = Inr p"
  shows "DecodeMessage p = Inr m \<longleftrightarrow> wire_safe m"
  using assms decode_encoded decoded_wire_safe by blast

theorem decode_encode_iff_witness:
  "DecodeMessage (''checkpoint'' @ [NUL] @ ''job_id=job-1'' @ [NUL] @ ''namespace_dump=1'' @ [NUL])
     = Inr \<lparr>command = ''checkpoint'', msg_fields = [(''job_id'', ''job-1''), (''namespace_dump'', ''1'')]\<rparr>"
  by (subst decode_encode_iff) (code_simp, simp add: wire_safe_def)

text \<open>A frame that \<^verbatim>\<open>SendMessage\<close> delivered completely is read back by \<^verbatim>\<open>ReceiveMessage\<close> as
  the same message, and exactly its bytes are consumed, whatever interruptions and partial
  transfers the two ends see.\<close>

lemma frame_roundtrip:
  assumes sent: "SendMessage m a = (Inr (), a')" and safe: "wire_safe m"
    and stream: "s_out a' = s_out a @ frame" "s_in b = frame @ rest"
    and calm: "benign (s_script b)"
  shows "\<exists>sc. ReceiveMessage b = (Inr m, b\<lparr>s_in := rest, s_script := sc\<rparr>)"
proof -
  obtain p where p: "EncodeMessage m = Inr p" and len: "length p \<le> kMaxControlMessageBytes"
    and out: "s_out a' = s_out a @ le32 (of_nat (length p)) @ p"
    using SendMessage_frame [OF sent] .
  have "s_in b = le32 (of_nat (length p)) @ p @ rest" using stream out by simp
  from ReceiveMessage_frame [OF calm len this] show ?thesis
    using decode_encoded [OF p safe] by simp
qed

definition idle_sock :: sock where
  "idle_sock = \<lparr>s_in = [], s_out = [], s_script = [], s_anc_in = None, s_anc_out = [], s_fd = - 1,
     s_closed = [], s_strerror = (\<lambda>_. [])\<rparr>"

definition status_request :: Message where
  "status_request = \<lparr>command = ''status'', msg_fields = [(''job_id'', ''job-1'')]\<rparr>"

text \<open>C23: The same for frames with a descriptor: the message arrives unchanged and the receiver owns
  the descriptor the kernel attached, or \<open>-1\<close> when none was attached; the sender attaches its
  descriptor exactly once, and not at all when it is negative.\<close>

theorem fd_frame_roundtrip:
  assumes sent: "SendMessageWithFd m fd a = (Inr (), a')" and safe: "wire_safe m"
    and stream: "s_out a' = s_out a @ frame" "s_in b = frame @ rest"
    and calm: "benign (s_script b)"
  shows "s_anc_out a' = s_anc_out a @ (if fd \<ge> 0 then [fd] else [])
    \<and> (\<exists>sc. ReceiveMessageWithFd b = (Inr m, b\<lparr>s_in := rest,
      s_fd := (case s_anc_in b of Some d \<Rightarrow> d | None \<Rightarrow> - 1), s_script := sc\<rparr>))"
proof -
  obtain p where p: "EncodeMessage m = Inr p" and len: "length p \<le> kMaxControlMessageBytes"
    and out: "s_out a' = s_out a @ le32 (of_nat (length p)) @ p"
    and anc: "s_anc_out a' = s_anc_out a @ (if fd \<ge> 0 then [fd] else [])"
    using SendMessageWithFd_frame [OF sent] by blast
  have "s_in b = le32 (of_nat (length p)) @ p @ rest" using stream out by simp
  from ReceiveMessageWithFd_frame [OF calm len this]
  show ?thesis using decode_encoded [OF p safe] anc by simp
qed

theorem fd_frame_roundtrip_witness:
  "\<exists>sc. ReceiveMessageWithFd (idle_sock\<lparr>s_in := le32 20 @ ''status'' @ [NUL] @ ''job_id=job-1'' @ [NUL],
       s_anc_in := Some 9, s_script := [Short 1, Fail EINTR]\<rparr>)
     = (Inr status_request, idle_sock\<lparr>s_in := [], s_anc_in := Some 9, s_fd := 9, s_script := sc\<rparr>)"
proof -
  let ?a = "idle_sock\<lparr>s_script := [Fail EINTR, Short 2]\<rparr>"
  let ?frame = "le32 20 @ ''status'' @ [NUL] @ ''job_id=job-1'' @ [NUL]"
  let ?b = "idle_sock\<lparr>s_in := ?frame, s_anc_in := Some 9, s_script := [Short 1, Fail EINTR]\<rparr>"
  note eval = SendMessageWithFd_def EncodeMessage_def status_request_def idle_sock_def bnd_apply
    sendmsg_loop_write kMaxControlMessageBytes_def
  have 1: "SendMessageWithFd status_request 5 ?a = (Inr (), snd (SendMessageWithFd status_request 5 ?a))"
    by (simp add: eval)
  have 2: "wire_safe status_request" by (simp add: wire_safe_def status_request_def)
  have 3: "s_out (snd (SendMessageWithFd status_request 5 ?a)) = s_out ?a @ ?frame"
    by (simp add: eval le32_def)
  have 4: "s_in ?b = ?frame @ []" by simp
  have 5: "benign (s_script ?b)" by (simp add: benign_def)
  show ?thesis using conjunct2 [OF fd_frame_roundtrip [OF 1 2 3 4 5]] by (simp add: idle_sock_def)
qed

text \<open>C37: A header that announces more than the limit is refused after its four bytes: the payload
  stays unread in the stream, and a descriptor that came with it is closed and forgotten.\<close>

theorem oversized_frame_refused:
  assumes "benign (s_script s)" and "4 \<le> length (s_in s)"
    and "kMaxControlMessageBytes < unat (of_le32 (take 4 (s_in s)))"
  shows "\<exists>s'. ReceiveMessageWithFd s
      = (Inl (RuntimeError ''control message exceeds maximum payload size''), s')
    \<and> s_in s' = drop 4 (s_in s) \<and> s_fd s' < 0
    \<and> s_closed s' = s_closed s @ (case s_anc_in s of Some d \<Rightarrow> if d \<ge> 0 then [d] else [] | None \<Rightarrow> [])"
proof -
  let ?s0 = "s\<lparr>s_fd := - 1\<rparr>"
  obtain sc where "recv_header ?s0 = (Inr (take 4 (s_in s)), ?s0\<lparr>s_in := drop 4 (s_in s),
      s_fd := (case s_anc_in s of Some d \<Rightarrow> d | None \<Rightarrow> - 1), s_script := sc\<rparr>)"
    using recv_header_benign [of ?s0] assms by auto
  then show ?thesis
    using assms(3)
    by (auto simp: ReceiveMessageWithFd_def bnd_apply close_received_fd_def split: option.split)
qed

theorem oversized_frame_refused_witness:
  "\<exists>s'. ReceiveMessageWithFd (idle_sock\<lparr>s_in := le32 65537 @ ''abc'', s_anc_in := Some 7\<rparr>)
      = (Inl (RuntimeError ''control message exceeds maximum payload size''), s')
    \<and> s_in s' = ''abc'' \<and> s_fd s' < 0 \<and> s_closed s' = [7]"
proof -
  let ?s = "idle_sock\<lparr>s_in := le32 65537 @ ''abc'', s_anc_in := Some 7\<rparr>"
  have 1: "benign (s_script ?s)" by (simp add: benign_def idle_sock_def)
  have 2: "4 \<le> length (s_in ?s)" by simp
  have 3: "kMaxControlMessageBytes < unat (of_le32 (take 4 (s_in ?s)))"
    by (simp add: kMaxControlMessageBytes_def)
  show ?thesis using oversized_frame_refused [OF 1 2 3] by (simp add: idle_sock_def)
qed

end
