(* ===== verification/World.thy ===== *)
theory World
  imports Protocol
begin

text \<open>
  The machine the broker runs on, as far as its sources see it: the file tree, the answers of the
  kernel (process table, clocks, random device), and the script that decides which system calls
  fail.

  Files are named by keys, the non-empty components of their absolute paths; the root directory
  has the empty key and always exists. Symbolic links inside the tree are not represented: the
  broker's state tree is written by the broker and its worker alone. What \<^verbatim>\<open>weakly_canonical\<close> makes
  of a path is a kernel answer. Every answer may depend on the time of the question, a counter
  that each system call advances.

  The locale \<open>file_tree\<close> is the interface of the tree, interpreted on the association lists used
  here; \<open>outside K\<close> is the frame condition with which the effects of the operations are bounded.
\<close>

section \<open>The file tree\<close>

type_synonym key = "string list"

datatype file_kind = Directory | Regular | Socket

record node =
  n_kind :: file_kind
  n_mode :: mode_t
  n_uid :: uid_t
  n_gid :: gid_t
  n_cap :: bool
  n_data :: string

type_synonym tree = "(key \<times> node) list"

definition root_node :: node where
  "root_node = \<lparr>n_kind = Directory, n_mode = 0x1ED, n_uid = 0, n_gid = 0, n_cap = False, n_data = []\<rparr>"

definition fs_get :: "tree \<Rightarrow> key \<Rightarrow> node option" where
  "fs_get t k = (if k = [] then Some root_node else map_of t k)"

definition fs_put :: "key \<Rightarrow> node \<Rightarrow> tree \<Rightarrow> tree" where
  "fs_put k n t = (k, n) # filter (\<lambda>(k', _). k' \<noteq> k) t"

definition fs_drop :: "(key \<Rightarrow> bool) \<Rightarrow> tree \<Rightarrow> tree" where
  "fs_drop P t = filter (\<lambda>(k, _). \<not> P k) t"

text \<open>What lies strictly below a directory, and the names of its entries, in listing order.\<close>

definition fs_below :: "tree \<Rightarrow> key \<Rightarrow> key list" where
  "fs_below t k = remdups (filter (\<lambda>k'. strict_prefix k k') (map fst t))"

definition fs_children :: "tree \<Rightarrow> key \<Rightarrow> string list" where
  "fs_children t k = map last (filter (\<lambda>k'. k' \<noteq> [] \<and> butlast k' = k) (fs_below t k))"

definition is_dir :: "tree \<Rightarrow> key \<Rightarrow> bool" where
  "is_dir t k = (case fs_get t k of Some n \<Rightarrow> n_kind n = Directory | None \<Rightarrow> False)"

section \<open>The kernel and the world\<close>

datatype wait_status = Exited int | Signaled int

text \<open>What \<^verbatim>\<open>waitpid(-1, &status, WNOHANG)\<close> finds: no child at all, none that has ended, or one.\<close>

datatype reap = NoChild | NoneEnded | Reaped pid_t wait_status

text \<open>The first argument of an answer that can change is the time of the question.\<close>

record kernel =
  k_umask :: mode_t
  k_euid :: uid_t
  k_egid :: gid_t
  k_strerror :: "int \<Rightarrow> string"
  k_proc :: "nat \<Rightarrow> key \<Rightarrow> string option"
  k_link :: "nat \<Rightarrow> key \<Rightarrow> string option"
  k_kill :: "nat \<Rightarrow> pid_t \<Rightarrow> int"
  k_time :: "nat \<Rightarrow> int"
  k_lag :: "nat \<Rightarrow> nat"
  k_rand :: "nat \<Rightarrow> nat"
  k_canon :: "tree \<Rightarrow> path \<Rightarrow> path option"
  k_partial :: "nat \<Rightarrow> key \<Rightarrow> bool"
  k_passwd :: "uid_t \<Rightarrow> (string \<times> string \<times> string) option"
  k_fd :: "nat \<Rightarrow> int"
  k_fork :: "nat \<Rightarrow> pid_t"
  k_wait :: "nat \<Rightarrow> pid_t \<Rightarrow> wait_status option"
  k_exit :: "nat \<Rightarrow> pid_t \<Rightarrow> wait_status"
  k_reap :: "nat \<Rightarrow> reap"
  k_isatty :: "int \<Rightarrow> bool"
  k_child :: "nat \<Rightarrow> sysres list"
  k_spawn :: "nat \<Rightarrow> string list \<Rightarrow> tree \<Rightarrow> tree"
  k_signal :: "nat \<Rightarrow> int"

text \<open>What the broker does to the outside world, in order.\<close>

datatype event =
    LaunchEv uid_t gid_t string "string list" "string list"
  | SpawnEv "string list"
  | ExecEv "string list" "string list"
  | DupEv int int
  | SignalEv int int
  | LogEv string

record world =
  w_files :: tree
  w_script :: "sysres list"
  w_tick :: nat
  w_mono :: nat
  w_trace :: "event list"
  w_kernel :: kernel

type_synonym 'a io = "(world, 'a) action"

section \<open>System calls\<close>

text \<open>Every call takes one entry of the script and one unit of time. A \<open>Short\<close> entry completes
  the calls that transfer nothing; no call fails with errno \<open>0\<close>.\<close>

definition sys :: "sysres io" where
  "sys = (\<lambda>w. case w_script w of
     [] \<Rightarrow> (Inr Ok, w\<lparr>w_tick := Suc (w_tick w)\<rparr>)
   | r # sc \<Rightarrow> (Inr r, w\<lparr>w_script := sc, w_tick := Suc (w_tick w)\<rparr>))"

definition fault :: "int option io" where
  "fault = bnd sys (\<lambda>r. ret (case r of Fail e \<Rightarrow> if e = 0 then None else Some e | _ \<Rightarrow> None))"

definition answer :: "(kernel \<Rightarrow> nat \<Rightarrow> 'a) \<Rightarrow> 'a io" where
  "answer f = gets (\<lambda>w. f (w_kernel w) (w_tick w))"

definition log_event :: "event \<Rightarrow> unit io" where
  "log_event e = modify (\<lambda>w. w\<lparr>w_trace := w_trace w @ [e]\<rparr>)"

text \<open>\<^verbatim>\<open>ThrowErrno\<close> with the value of \<^verbatim>\<open>errno\<close> made explicit.\<close>

definition ThrowErrno :: "string \<Rightarrow> int \<Rightarrow> 'a io" where
  "ThrowErrno context e = (\<lambda>w. (Inl (errno_error (k_strerror (w_kernel w)) context e), w))"

text \<open>\<^verbatim>\<open>ErrnoMessage\<close>.\<close>

definition ErrnoMessage :: "string \<Rightarrow> int \<Rightarrow> string io" where
  "ErrnoMessage context e = gets (\<lambda>w. context @ '': '' @ k_strerror (w_kernel w) e)"

text \<open>\<^verbatim>\<open>fs::exists(path, error)\<close>: a failed \<^verbatim>\<open>stat\<close> counts as absent. \<^verbatim>\<open>fs::is_directory\<close> likewise.\<close>

definition fs_exists :: "path \<Rightarrow> bool io" where
  "fs_exists p = bnd fault (\<lambda>f. gets (\<lambda>w. f = None \<and> fs_get (w_files w) (path_key p) \<noteq> None))"

definition fs_is_directory :: "path \<Rightarrow> bool io" where
  "fs_is_directory p = bnd fault (\<lambda>f. gets (\<lambda>w. f = None \<and> is_dir (w_files w) (path_key p)))"

text \<open>A change to one node, if it exists: the errno, or \<open>0\<close>. The root keeps its node.\<close>

definition set_node :: "key \<Rightarrow> (kernel \<Rightarrow> node \<Rightarrow> node) \<Rightarrow> int io" where
  "set_node k f = (\<lambda>w. case fs_get (w_files w) k of
     None \<Rightarrow> (Inr ENOENT, w)
   | Some n \<Rightarrow>
       (Inr 0, if k = [] then w else w\<lparr>w_files := fs_put k (f (w_kernel w) n) (w_files w)\<rparr>))"

definition or_fault :: "int io \<Rightarrow> int io" where
  "or_fault m = bnd fault (\<lambda>f. case f of Some e \<Rightarrow> ret e | None \<Rightarrow> m)"

definition chmod_at :: "key \<Rightarrow> mode_t \<Rightarrow> int io" where
  "chmod_at k m = or_fault (set_node k (\<lambda>_ n. n\<lparr>n_mode := m\<rparr>))"

definition chown_at :: "key \<Rightarrow> uid_t \<Rightarrow> gid_t \<Rightarrow> int io" where
  "chown_at k u g = or_fault (set_node k (\<lambda>_ n. n\<lparr>n_uid := u, n_gid := g\<rparr>))"

definition sys_chmod :: "path \<Rightarrow> mode_t \<Rightarrow> int io" where
  "sys_chmod p m = chmod_at (path_key p) m"

unbundle bit_operations_syntax

definition new_node :: "kernel \<Rightarrow> file_kind \<Rightarrow> mode_t \<Rightarrow> node" where
  "new_node ker kd m = \<lparr>n_kind = kd, n_mode = m AND NOT (k_umask ker), n_uid = k_euid ker,
     n_gid = k_egid ker, n_cap = False, n_data = []\<rparr>"

definition create_node :: "file_kind \<Rightarrow> path \<Rightarrow> mode_t \<Rightarrow> int io" where
  "create_node kd p m = (\<lambda>w.
     let k = path_key p in
     if fs_get (w_files w) k \<noteq> None then (Inr EEXIST, w)
     else if fs_get (w_files w) (butlast k) = None then (Inr ENOENT, w)
     else if \<not> is_dir (w_files w) (butlast k) then (Inr ENOTDIR, w)
     else (Inr 0, w\<lparr>w_files := fs_put k (new_node (w_kernel w) kd m) (w_files w)\<rparr>))"

definition sys_mkdir :: "path \<Rightarrow> mode_t \<Rightarrow> int io" where
  "sys_mkdir p m = or_fault (create_node Directory p m)"

text \<open>\<^verbatim>\<open>open(path, O_WRONLY | O_CREAT | O_TRUNC, mode)\<close>. The descriptor it yields names the file by
  its key in the calls below.\<close>

definition sys_open_write :: "path \<Rightarrow> mode_t \<Rightarrow> int io" where
  "sys_open_write p m = or_fault (\<lambda>w.
     case fs_get (w_files w) (path_key p) of
       None \<Rightarrow> create_node Regular p m w
     | Some n \<Rightarrow>
         if n_kind n = Directory then (Inr EISDIR, w)
         else if n_kind n = Socket then (Inr ENXIO, w)
         else set_node (path_key p) (\<lambda>_ n. n\<lparr>n_data := []\<rparr>) w)"

definition append_data :: "key \<Rightarrow> string \<Rightarrow> unit io" where
  "append_data k s = bnd (set_node k (\<lambda>_ n. n\<lparr>n_data := n_data n @ s\<rparr>)) (\<lambda>_. ret ())"

text \<open>\<^verbatim>\<open>WriteAll\<close> of util.cc on an open file.\<close>

definition WriteAllFd :: "key \<Rightarrow> string \<Rightarrow> unit io" where
  "WriteAllFd k buf = (\<lambda>w.
     case write_loop (w_script w) [] buf of
       (err, out, sc) \<Rightarrow>
         bnd (append_data k out) (\<lambda>_. case err of None \<Rightarrow> ret () | Some e \<Rightarrow> ThrowErrno ''write'' e)
           (w\<lparr>w_script := sc, w_tick := Suc (w_tick w)\<rparr>))"

definition sys_fchmod :: "key \<Rightarrow> mode_t \<Rightarrow> int io" where
  "sys_fchmod k m = chmod_at k m"

definition sys_close :: "int io" where
  "sys_close = or_fault (ret 0)"

definition sys_unlink :: "path \<Rightarrow> int io" where
  "sys_unlink p = or_fault (\<lambda>w.
     case fs_get (w_files w) (path_key p) of
       None \<Rightarrow> (Inr ENOENT, w)
     | Some n \<Rightarrow> if n_kind n = Directory then (Inr EISDIR, w)
         else (Inr 0, w\<lparr>w_files := fs_drop (\<lambda>k. k = path_key p) (w_files w)\<rparr>))"

text \<open>\<^verbatim>\<open>fs::remove_all\<close>: on an error, entries whose whole subtree went first may already be gone.\<close>

definition partly_gone :: "world \<Rightarrow> key \<Rightarrow> key \<Rightarrow> bool" where
  "partly_gone w k k' \<longleftrightarrow> prefix k k' \<and>
     (\<forall>k2\<in>fst ` set (w_files w). prefix k' k2 \<longrightarrow> k_partial (w_kernel w) (w_tick w) k2)"

definition fs_remove_all :: "path \<Rightarrow> int io" where
  "fs_remove_all p = bnd fault (\<lambda>f w.
     case f of
       Some e \<Rightarrow> (Inr e, w\<lparr>w_files := fs_drop (partly_gone w (path_key p)) (w_files w)\<rparr>)
     | None \<Rightarrow> (Inr 0, w\<lparr>w_files := fs_drop (prefix (path_key p)) (w_files w)\<rparr>))"

text \<open>Reading a file through \<^verbatim>\<open>std::ifstream\<close>: files of the process table come from the kernel, a
  directory opens and yields nothing, a socket does not open.\<close>

definition read_stream :: "path \<Rightarrow> string option io" where
  "read_stream p = bnd fault (\<lambda>f. gets (\<lambda>w.
     if f \<noteq> None then None
     else if take 1 (path_key p) = [''proc''] then k_proc (w_kernel w) (w_tick w) (path_key p)
     else (case fs_get (w_files w) (path_key p) of
             None \<Rightarrow> None
           | Some n \<Rightarrow> (case n_kind n of Regular \<Rightarrow> Some (n_data n) | Directory \<Rightarrow> Some [] | Socket \<Rightarrow> None))))"

text \<open>\<^verbatim>\<open>fs::directory_iterator\<close> with its throwing constructor: entry names and whether the entry is a
  directory.\<close>

definition directory_entries :: "path \<Rightarrow> (string \<times> bool) list io" where
  "directory_entries p = bnd fault (\<lambda>f w.
     if f \<noteq> None \<or> \<not> is_dir (w_files w) (path_key p)
     then (Inl (FilesystemError (''directory iterator cannot open directory: '' @ p)), w)
     else (Inr (map (\<lambda>x. (x, is_dir (w_files w) (path_key p @ [x])))
                  (fs_children (w_files w) (path_key p))), w))"

definition sys_sleep :: "nat \<Rightarrow> unit io" where
  "sys_sleep ms = bnd sys (\<lambda>_. modify (\<lambda>w. w\<lparr>w_mono := w_mono w + ms + k_lag (w_kernel w) (w_tick w)\<rparr>))"

section \<open>Processes\<close>

definition call_or_throw :: "string \<Rightarrow> unit io" where
  "call_or_throw context = bnd fault (\<lambda>f. case f of None \<Rightarrow> ret () | Some e \<Rightarrow> ThrowErrno context e)"

text \<open>\<^verbatim>\<open>close\<close> between a failed call and the use of its \<^verbatim>\<open>errno\<close>: a failing \<^verbatim>\<open>close\<close> overwrites it.\<close>

definition close_keeping :: "int \<Rightarrow> int io" where
  "close_keeping e = bnd sys_close (\<lambda>c. ret (if c \<noteq> 0 then c else e))"

text \<open>The child of a \<^verbatim>\<open>fork\<close> runs in a copy of the world with a script of its own for its system
  calls. What is visible of it outside is what it did to other processes and what it reports.\<close>

definition fork_child :: "'a io \<Rightarrow> 'a io" where
  "fork_child m = (\<lambda>w. case m (w\<lparr>w_script := k_child (w_kernel w) (w_tick w)\<rparr>) of
     (r, c) \<Rightarrow> (r, w\<lparr>w_trace := w_trace c\<rparr>))"

text \<open>A child that shares the files with its parent: what it wrote stays.\<close>

definition fork_shared :: "'a io \<Rightarrow> 'a io" where
  "fork_shared m = (\<lambda>w. case m (w\<lparr>w_script := k_child (w_kernel w) (w_tick w)\<rparr>) of
     (r, c) \<Rightarrow> (r, w\<lparr>w_trace := w_trace c, w_files := w_files c\<rparr>))"

text \<open>What a program that was started does to the files from now on, until the next call.\<close>

definition run_program :: "string list \<Rightarrow> unit io" where
  "run_program argv = modify (\<lambda>w. w\<lparr>w_files := k_spawn (w_kernel w) (w_tick w) argv (w_files w)\<rparr>)"

definition sys_kill :: "int \<Rightarrow> int \<Rightarrow> unit io" where
  "sys_kill target sig = bnd sys (\<lambda>_. log_event (SignalEv target sig))"

definition steady_now :: "nat io" where
  "steady_now = gets w_mono"

section \<open>A sample machine\<close>

text \<open>An empty machine with umask 022 on which nothing fails, for worked instances.\<close>

definition sample_kernel :: kernel where
  "sample_kernel = \<lparr>k_umask = 0x12, k_euid = 0, k_egid = 0, k_strerror = (\<lambda>_. ''error''),
     k_proc = (\<lambda>_ _. None), k_link = (\<lambda>_ _. None), k_kill = (\<lambda>_ _. ESRCH), k_time = (\<lambda>t. 1000 + int t),
     k_lag = (\<lambda>_. 0), k_rand = (\<lambda>t. t), k_canon = (\<lambda>_ p. Some p), k_partial = (\<lambda>_ _. False),
     k_passwd = (\<lambda>_. None), k_fd = (\<lambda>_. 5), k_fork = (\<lambda>_. 100), k_wait = (\<lambda>_ _. Some (Exited 0)), k_exit = (\<lambda>_ _. Exited 0),
     k_reap = (\<lambda>_. NoChild), k_isatty = (\<lambda>_. False),
     k_child = (\<lambda>_. []), k_spawn = (\<lambda>_ _ t. t), k_signal = (\<lambda>_. 0)\<rparr>"

definition sample_world :: world where
  "sample_world = \<lparr>w_files = [], w_script = [], w_tick = 0, w_mono = 0, w_trace = [], w_kernel = sample_kernel\<rparr>"

section \<open>Normal results\<close>

lemma ThrowErrno_Inr [simp]: "ThrowErrno c e w \<noteq> (Inr x, w')"
  by (simp add: ThrowErrno_def)

lemma unless_throw_Inr [simp]:
  "(if b then ThrowErrno c e else m) w = (Inr x, w') \<longleftrightarrow> \<not> b \<and> m w = (Inr x, w')"
  "(if b then raise ex else m) w = (Inr x, w') \<longleftrightarrow> \<not> b \<and> m w = (Inr x, w')"
  by auto

section \<open>The interface of the file tree\<close>

text \<open>Looking up after storing and after removing is all the proofs about files use.\<close>

locale file_tree =
  fixes look :: "'t \<Rightarrow> 'k \<Rightarrow> 'n option"
    and put :: "'k \<Rightarrow> 'n \<Rightarrow> 't \<Rightarrow> 't"
    and prune :: "('k \<Rightarrow> bool) \<Rightarrow> 't \<Rightarrow> 't"
    and top :: 'k
  assumes look_put: "k \<noteq> top \<Longrightarrow> look (put k n t) k' = (if k' = k then Some n else look t k')"
    and look_prune: "k \<noteq> top \<Longrightarrow> look (prune P t) k = (if P k then None else look t k)"
    and look_top: "\<exists>n. look t top = Some n"
begin

lemma put_put: "k \<noteq> top \<Longrightarrow> look (put k n (put k m t)) k' = look (put k n t) k'"
  by (simp add: look_put)

lemma put_swap:
  "k \<noteq> top \<Longrightarrow> l \<noteq> top \<Longrightarrow> k \<noteq> l \<Longrightarrow> look (put k n (put l m t)) j = look (put l m (put k n t)) j"
  by (simp add: look_put)

lemma put_elsewhere: "k \<noteq> top \<Longrightarrow> k' \<noteq> k \<Longrightarrow> look (put k n t) k' = look t k'"
  by (simp add: look_put)

lemma prune_None: "k \<noteq> top \<Longrightarrow> look t k = None \<Longrightarrow> look (prune P t) k = None"
  by (simp add: look_prune)

lemma prune_put: "k \<noteq> top \<Longrightarrow> P k \<Longrightarrow> j \<noteq> top \<Longrightarrow> look (prune P (put k n t)) j = look (prune P t) j"
  by (simp add: look_put look_prune)

end

interpretation ft: file_tree fs_get fs_put fs_drop "[]"
proof unfold_locales
  fix k k' :: key and n :: node and t :: tree
  assume "k \<noteq> []"
  then show "fs_get (fs_put k n t) k' = (if k' = k then Some n else fs_get t k')"
    by (simp add: fs_get_def fs_put_def map_of_filter_key [of "\<lambda>x. x \<noteq> k"])
next
  fix k :: key and P and t :: tree
  assume "k \<noteq> []"
  then show "fs_get (fs_drop P t) k = (if P k then None else fs_get t k)"
    by (simp add: fs_get_def fs_drop_def map_of_filter_key [of "\<lambda>x. \<not> P x"])
qed (simp add: fs_get_def)

lemmas tree_simps [simp] = ft.look_put ft.look_prune

lemma fs_get_root [simp]: "fs_get t [] = Some root_node"
  by (simp add: fs_get_def)

lemma is_dir_root [simp]: "is_dir t []"
  by (simp add: is_dir_def root_node_def)

text \<open>Every entry has its parent directory entry, as in a real tree.\<close>

definition wf_tree :: "tree \<Rightarrow> bool" where
  "wf_tree t \<longleftrightarrow> (\<forall>k\<in>fst ` set t. k \<noteq> [] \<longrightarrow> fs_get t (butlast k) \<noteq> None)"

lemma wf_tree_parent: "wf_tree t \<Longrightarrow> fs_get t (k @ [x]) \<noteq> None \<Longrightarrow> fs_get t k \<noteq> None"
  unfolding wf_tree_def
  by (metis (no_types, lifting) butlast_snoc fs_get_def map_of_eq_None_iff snoc_eq_iff_butlast)

lemma wf_tree_below:
  assumes "wf_tree t" and "fs_get t k = None" and "prefix k j"
  shows "fs_get t j = None"
proof -
  obtain r where j: "j = k @ r" using assms(3) by (auto simp: prefix_def)
  have "fs_get t (k @ r) = None"
  proof (induction r rule: rev_induct)
    case (snoc x r)
    then show ?case
      using wf_tree_parent [OF assms(1), of "k @ r" x] by (cases "fs_get t (k @ r @ [x])") auto
  qed (use assms(2) in simp)
  then show ?thesis using j by simp
qed

section \<open>Frames\<close>

text \<open>
  \<open>outside K\<close>: files whose key is not in \<open>K\<close> are the same before and after, the kernel is the
  same, the script only got shorter, the clocks did not run backwards and nothing was done to other
  processes.
\<close>

definition outside :: "(key \<Rightarrow> bool) \<Rightarrow> world \<Rightarrow> world \<Rightarrow> bool" where
  "outside K s t \<longleftrightarrow> (\<forall>k. \<not> K k \<longrightarrow> fs_get (w_files t) k = fs_get (w_files s) k)
     \<and> w_kernel t = w_kernel s \<and> suffix (w_script t) (w_script s)
     \<and> w_tick s \<le> w_tick t \<and> w_mono s \<le> w_mono t \<and> w_trace t = w_trace s"

interpretation out: effect_frame "outside K" for K
proof unfold_locales
  fix s t u
  show "outside K s s" by (simp add: outside_def)
  assume st: "outside K s t" and tu: "outside K t u"
  then have "suffix (w_script u) (w_script s)"
    unfolding outside_def by (metis suffix_order.order_trans)
  then show "outside K s u" using st tu by (simp add: outside_def)
qed

lemmas out_keeps [frame_intros] = out.combinators_keep

lemma outside_files: "outside K s t \<Longrightarrow> \<not> K k \<Longrightarrow> fs_get (w_files t) k = fs_get (w_files s) k"
  by (simp add: outside_def)

lemma outside_kernel: "outside K s t \<Longrightarrow> w_kernel t = w_kernel s"
  by (simp add: outside_def)

lemma outside_script: "outside K s t \<Longrightarrow> suffix (w_script t) (w_script s)"
  by (simp add: outside_def)

lemma outside_trace: "outside K s t \<Longrightarrow> w_trace t = w_trace s"
  by (simp add: outside_def)

lemma outside_mono: "outside K s t \<Longrightarrow> (\<And>k. K k \<Longrightarrow> L k) \<Longrightarrow> outside L s t"
  by (auto simp: outside_def)

lemma keeps_outside_mono: "keeps (outside K) m \<Longrightarrow> (\<And>k. K k \<Longrightarrow> L k) \<Longrightarrow> keeps (outside L) m"
  by (simp add: keeps_def) (blast intro: outside_mono)

lemma option_keeps [frame_intros]:
  "(f = None \<Longrightarrow> keeps R a) \<Longrightarrow> (\<And>e. f = Some e \<Longrightarrow> keeps R (b e)) \<Longrightarrow> keeps R (case f of None \<Rightarrow> a | Some e \<Rightarrow> b e)"
  by (cases f) auto

lemma prod_keeps [frame_intros]:
  "(\<And>a b. p = (a, b) \<Longrightarrow> keeps R (f a b)) \<Longrightarrow> keeps R (case p of (a, b) \<Rightarrow> f a b)"
  by (cases p) auto

lemma sys_keeps [frame_intros]: "keeps (outside K) sys"
  by (rule keepsI) (auto simp: sys_def outside_def suffix_ConsI split: list.split)

lemma fault_keeps [frame_intros]: "keeps (outside K) fault"
  unfolding fault_def by (intro frame_intros)

lemma answer_keeps [frame_intros]: "keeps (outside K) (answer f)"
  unfolding answer_def by (intro frame_intros)

lemma ThrowErrno_keeps [frame_intros]: "keeps (outside K) (ThrowErrno c e)"
  by (rule keepsI) (simp add: ThrowErrno_def outside_def)

lemma ErrnoMessage_keeps [frame_intros]: "keeps (outside K) (ErrnoMessage c e)"
  unfolding ErrnoMessage_def by (intro frame_intros)

lemma fs_exists_keeps [frame_intros]: "keeps (outside K) (fs_exists p)"
  unfolding fs_exists_def by (intro frame_intros)

lemma fs_is_directory_keeps [frame_intros]: "keeps (outside K) (fs_is_directory p)"
  unfolding fs_is_directory_def by (intro frame_intros)

lemma set_node_keeps [frame_intros]: "K k \<Longrightarrow> keeps (outside K) (set_node k f)"
  by (rule keepsI) (auto simp: set_node_def outside_def split: option.split)

lemma create_node_keeps [frame_intros]: "K (path_key p) \<Longrightarrow> keeps (outside K) (create_node kd p m)"
  by (rule keepsI) (auto simp: create_node_def outside_def Let_def fs_get_def fs_put_def
      map_of_filter_key [of "\<lambda>x. x \<noteq> path_key p"])

lemma or_fault_keeps [frame_intros]: "keeps (outside K) m \<Longrightarrow> keeps (outside K) (or_fault m)"
  unfolding or_fault_def by (intro frame_intros)

lemma chmod_at_keeps [frame_intros]: "K k \<Longrightarrow> keeps (outside K) (chmod_at k m)"
  unfolding chmod_at_def by (intro frame_intros)

lemma chown_at_keeps [frame_intros]: "K k \<Longrightarrow> keeps (outside K) (chown_at k u g)"
  unfolding chown_at_def by (intro frame_intros)

lemma sys_chmod_keeps [frame_intros]: "K (path_key p) \<Longrightarrow> keeps (outside K) (sys_chmod p m)"
  unfolding sys_chmod_def by (intro frame_intros)

lemma sys_mkdir_keeps [frame_intros]: "K (path_key p) \<Longrightarrow> keeps (outside K) (sys_mkdir p m)"
  unfolding sys_mkdir_def by (intro frame_intros)

lemma sys_open_write_keeps [frame_intros]: "K (path_key p) \<Longrightarrow> keeps (outside K) (sys_open_write p m)"
  unfolding sys_open_write_def
  by (intro or_fault_keeps keepsI)
    (auto simp: out.frame_refl keepsD [OF create_node_keeps] keepsD [OF set_node_keeps] split: option.split)

lemma append_data_keeps [frame_intros]: "K k \<Longrightarrow> keeps (outside K) (append_data k d)"
  unfolding append_data_def by (intro frame_intros)

lemma write_loop_suffix: "write_loop sc out rem = (e, out', sc') \<Longrightarrow> suffix sc' sc"
proof (induction sc arbitrary: out rem)
  case (Cons r sc)
  then show ?case
    by (cases r; cases "rem = []") (auto split: if_splits dest!: Cons.IH simp: suffix_ConsI)
qed simp

lemma WriteAllFd_keeps [frame_intros]: "K k \<Longrightarrow> keeps (outside K) (WriteAllFd k buf)"
proof (rule keepsI)
  fix w :: world
  assume "K k"
  obtain e out sc where w: "write_loop (w_script w) [] buf = (e, out, sc)"
    by (cases "write_loop (w_script w) [] buf")
  let ?w = "w\<lparr>w_script := sc, w_tick := Suc (w_tick w)\<rparr>"
  have "keeps (outside K) (bnd (append_data k out)
      (\<lambda>_. case e of None \<Rightarrow> ret () | Some e \<Rightarrow> ThrowErrno ''write'' e))"
    using \<open>K k\<close> by (intro frame_intros)
  moreover have "outside K w ?w"
    using write_loop_suffix [OF w] by (simp add: outside_def)
  ultimately show "outside K w (snd (WriteAllFd k buf w))"
    using w by (auto simp: WriteAllFd_def intro: out.frame_trans keepsD)
qed

lemma sys_fchmod_keeps [frame_intros]: "K k \<Longrightarrow> keeps (outside K) (sys_fchmod k m)"
  unfolding sys_fchmod_def by (intro frame_intros)

lemma sys_close_keeps [frame_intros]: "keeps (outside K) sys_close"
  unfolding sys_close_def by (intro frame_intros)

lemma fs_get_drop: "fs_get (fs_drop P t) k = (if P k \<and> k \<noteq> [] then None else fs_get t k)"
  by (cases "k = []") auto

lemma sys_unlink_keeps [frame_intros]: "K (path_key p) \<Longrightarrow> keeps (outside K) (sys_unlink p)"
  unfolding sys_unlink_def
  by (intro or_fault_keeps keepsI) (auto simp: outside_def fs_get_drop split: option.split)

lemma fs_remove_all_keeps [frame_intros]:
  assumes "\<And>k. prefix (path_key p) k \<Longrightarrow> K k"
  shows "keeps (outside K) (fs_remove_all p)"
  unfolding fs_remove_all_def
proof (intro out.bnd_keeps fault_keeps keepsI)
  fix f w
  show "outside K w (snd (case f of
       Some e \<Rightarrow> (Inr e, w\<lparr>w_files := fs_drop (partly_gone w (path_key p)) (w_files w)\<rparr>)
     | None \<Rightarrow> (Inr 0, w\<lparr>w_files := fs_drop (prefix (path_key p)) (w_files w)\<rparr>)))"
    using assms by (auto simp: outside_def fs_get_drop partly_gone_def split: option.split)
qed

lemma read_stream_keeps [frame_intros]: "keeps (outside K) (read_stream p)"
  unfolding read_stream_def by (intro frame_intros)

lemma directory_entries_keeps [frame_intros]: "keeps (outside K) (directory_entries p)"
  unfolding directory_entries_def
  by (intro out.bnd_keeps fault_keeps keepsI) (simp add: out.frame_refl)

lemma sys_sleep_keeps [frame_intros]: "keeps (outside K) (sys_sleep ms)"
  unfolding sys_sleep_def
  by (intro out.bnd_keeps sys_keeps keepsI) (simp add: outside_def)

text \<open>
  \<open>affects P K E\<close>: the wider frame of operations that deal with other processes. The kernel stays the
  same, and if its answers satisfy \<open>P\<close>, then files outside \<open>K\<close> are unchanged and all events that were
  added satisfy \<open>E\<close>.
\<close>

definition affects :: "(kernel \<Rightarrow> bool) \<Rightarrow> (key \<Rightarrow> bool) \<Rightarrow> (event \<Rightarrow> bool) \<Rightarrow> world \<Rightarrow> world \<Rightarrow> bool" where
  "affects P K E s t \<longleftrightarrow> w_kernel t = w_kernel s \<and>
     (P (w_kernel s) \<longrightarrow> (\<forall>k. \<not> K k \<longrightarrow> fs_get (w_files t) k = fs_get (w_files s) k)
       \<and> (\<exists>evs. w_trace t = w_trace s @ evs \<and> (\<forall>e\<in>set evs. E e)))"

interpretation aff: effect_frame "affects P K E" for P K E
proof unfold_locales
  fix s t u
  show "affects P K E s s" by (simp add: affects_def)
  assume st: "affects P K E s t" and tu: "affects P K E t u"
  show "affects P K E s u"
    unfolding affects_def
  proof (intro conjI impI)
    show "w_kernel u = w_kernel s" using st tu by (simp add: affects_def)
    assume "P (w_kernel s)"
    then show "\<forall>k. \<not> K k \<longrightarrow> fs_get (w_files u) k = fs_get (w_files s) k"
      and "\<exists>evs. w_trace u = w_trace s @ evs \<and> (\<forall>e\<in>set evs. E e)"
      using st tu unfolding affects_def by (simp, metis (no_types, lifting) Un_iff append.assoc set_append)
  qed
qed

lemmas aff_keeps [frame_intros] = aff.combinators_keep

lemma outside_affects: "outside K s t \<Longrightarrow> affects P K E s t"
  by (simp add: outside_def affects_def)

lemma keeps_affects: "keeps (outside K) m \<Longrightarrow> keeps (affects P K E) m"
  by (simp add: keeps_def outside_affects)

lemma log_event_affects [frame_intros]: "E e \<Longrightarrow> keeps (affects P K E) (log_event e)"
  by (rule keepsI) (simp add: log_event_def affects_def)

lemma call_or_throw_keeps [frame_intros]: "keeps (outside K) (call_or_throw c)"
  unfolding call_or_throw_def by (intro frame_intros)

lemma close_keeping_keeps [frame_intros]: "keeps (outside K) (close_keeping e)"
  unfolding close_keeping_def by (intro frame_intros)

lemma steady_now_keeps [frame_intros]: "keeps (outside K) steady_now"
  unfolding steady_now_def by (intro frame_intros)

lemma sys_kill_affects: "E (SignalEv t s) \<Longrightarrow> keeps (affects P K E) (sys_kill t s)"
  unfolding sys_kill_def by (intro aff.bnd_keeps log_event_affects keeps_affects sys_keeps)

lemma affects_files:
  "affects P K E s t \<Longrightarrow> P (w_kernel s) \<Longrightarrow> \<not> K k \<Longrightarrow> fs_get (w_files t) k = fs_get (w_files s) k"
  by (simp add: affects_def)

lemma affects_trace:
  "affects P K E s t \<Longrightarrow> P (w_kernel s) \<Longrightarrow> \<exists>evs. w_trace t = w_trace s @ evs \<and> (\<forall>e\<in>set evs. E e)"
  by (simp add: affects_def)

lemma affects_weaken:
  "keeps (affects P K E) m \<Longrightarrow> (\<And>k. K k \<Longrightarrow> L k) \<Longrightarrow> (\<And>e. E e \<Longrightarrow> F e) \<Longrightarrow> keeps (affects P L F) m"
  unfolding keeps_def affects_def by blast

text \<open>A third frame: time goes on, the script is used up, the kernel stays the same.\<close>

definition later :: "world \<Rightarrow> world \<Rightarrow> bool" where
  "later s t \<longleftrightarrow> w_kernel t = w_kernel s \<and> w_tick s \<le> w_tick t
     \<and> length (w_script t) \<le> length (w_script s) \<and> w_mono s \<le> w_mono t"

interpretation lat: effect_frame later
  by unfold_locales (auto simp: later_def)

lemma outside_later: "outside K s t \<Longrightarrow> later s t"
  by (simp add: outside_def later_def suffix_length_le)

lemma keeps_later: "keeps (outside K) m \<Longrightarrow> keeps later m"
  by (simp add: keeps_def) (blast intro: outside_later)

lemma log_event_later: "keeps later (log_event e)"
  by (rule keepsI) (simp add: log_event_def later_def)

lemma run_program_later: "keeps later (run_program argv)"
  by (rule keepsI) (simp add: run_program_def later_def)

lemma fork_child_later: "keeps later (fork_child m)"
  by (rule keepsI) (simp add: fork_child_def later_def split: prod.split)

lemma fork_shared_later: "keeps later (fork_shared m)"
  by (rule keepsI) (simp add: fork_shared_def later_def split: prod.split)

lemma sys_kill_later: "keeps later (sys_kill t s)"
  unfolding sys_kill_def by (intro lat.bnd_keeps log_event_later keeps_later [OF sys_keeps])

lemmas later_calls = lat.combinators_keep sys_kill_later run_program_later fork_child_later fork_shared_later
  keeps_later [OF fault_keeps] keeps_later [OF sys_sleep_keeps] keeps_later [OF steady_now_keeps]
  keeps_later [OF answer_keeps] keeps_later [OF sys_close_keeps] keeps_later [OF call_or_throw_keeps]

lemma fault_tick: "fault w = (Inr f, w1) \<Longrightarrow> w_tick w1 = Suc (w_tick w) \<and> (f \<noteq> None \<longrightarrow> length (w_script w1) < length (w_script w))"
  by (auto simp: fault_def sys_def bnd_apply split: list.splits)

lemma sleep_ends: "\<exists>w'. sys_sleep n w = (Inr (), w') \<and> later w w'"
  using keepsD [OF keeps_later [OF sys_sleep_keeps], of w n]
  by (auto simp: sys_sleep_def bnd_apply sys_def split: list.splits)

lemma kill_ends: "\<exists>w'. sys_kill t s w = (Inr (), w') \<and> later w w'"
  using keepsD [OF sys_kill_later, of w t s]
  by (auto simp: sys_kill_def log_event_def bnd_apply sys_def split: list.splits)

text \<open>A normal result of \<open>m\<close> leads to a world that is later; then the claim has to hold there.\<close>

lemma later_post:
  assumes "keeps later m" and "later w s" and "\<And>e s1. Q (Inl e, s1)"
    and "\<And>x s1. later w s1 \<Longrightarrow> Q (f x s1)"
  shows "Q (bnd m f s)"
proof (rule bnd_post)
  fix x s1 assume "m s = (Inr x, s1)"
  then have "later s s1" by (rule keeps_result [OF assms(1)])
  then show "Q (f x s1)" by (intro assms(4) lat.frame_trans [OF assms(2)])
qed (rule assms(3))

text \<open>A fourth frame: operations that do not wait. Only \<^verbatim>\<open>sleep_for\<close> and \<^verbatim>\<open>poll\<close> let time pass on the
  steady clock of the model, by what they were asked for and the lag the kernel adds.\<close>

definition instant :: "world \<Rightarrow> world \<Rightarrow> bool" where
  "instant s t \<longleftrightarrow> w_mono t = w_mono s \<and> w_kernel t = w_kernel s"

interpretation ins: effect_frame instant
  by unfold_locales (auto simp: instant_def)

named_theorems instant_intros \<open>operations that do not wait\<close>

lemmas ins_keeps [instant_intros] = ins.combinators_keep

lemma sys_instant [instant_intros]: "keeps instant sys"
  by (rule keepsI) (auto simp: sys_def instant_def split: list.split)

lemma log_event_instant [instant_intros]: "keeps instant (log_event e)"
  by (rule keepsI) (simp add: log_event_def instant_def)

lemma run_program_instant [instant_intros]: "keeps instant (run_program argv)"
  by (rule keepsI) (simp add: run_program_def instant_def)

lemma ThrowErrno_instant [instant_intros]: "keeps instant (ThrowErrno c e)"
  by (rule keepsI) (simp add: ThrowErrno_def instant_def)

lemma fault_instant [instant_intros]: "keeps instant fault"
  unfolding fault_def by (intro instant_intros)

lemma answer_instant [instant_intros]: "keeps instant (answer f)"
  unfolding answer_def by (intro instant_intros)

lemma steady_now_instant [instant_intros]: "keeps instant steady_now"
  unfolding steady_now_def by (intro instant_intros)

lemma sys_kill_instant [instant_intros]: "keeps instant (sys_kill t s)"
  unfolding sys_kill_def by (intro instant_intros)

lemma call_or_throw_instant [instant_intros]: "keeps instant (call_or_throw c)"
  unfolding call_or_throw_def by (intro instant_intros option_keeps)

lemma read_stream_instant [instant_intros]: "keeps instant (read_stream p)"
  unfolding read_stream_def by (intro instant_intros)

lemma sys_sleep_time:
  assumes "sys_sleep n w = (r, w')"
  shows "r = Inr () \<and> w_mono w + n \<le> w_mono w' \<and> w_kernel w' = w_kernel w
    \<and> ((\<forall>t. k_lag (w_kernel w) t \<le> L) \<longrightarrow> w_mono w' \<le> w_mono w + n + L)"
  using assms by (auto simp: sys_sleep_def bnd_apply sys_def split: list.splits)

section \<open>Evaluation\<close>

text \<open>Code equations that wait for the state an action runs on, so that an evaluation follows the run.\<close>

lemmas world_code [code] =
  fun_cong [OF sys_def] fun_cong [OF fault_def] fun_cong [OF answer_def] fun_cong [OF log_event_def]
  fun_cong [OF ThrowErrno_def] fun_cong [OF ErrnoMessage_def] fun_cong [OF fs_exists_def]
  fun_cong [OF fs_is_directory_def] fun_cong [OF set_node_def] fun_cong [OF or_fault_def] fun_cong [OF chmod_at_def]
  fun_cong [OF chown_at_def] fun_cong [OF sys_chmod_def] fun_cong [OF create_node_def] fun_cong [OF sys_mkdir_def]
  fun_cong [OF sys_open_write_def] fun_cong [OF append_data_def] fun_cong [OF WriteAllFd_def]
  fun_cong [OF sys_fchmod_def] fun_cong [OF sys_close_def] fun_cong [OF sys_unlink_def] fun_cong [OF fs_remove_all_def]
  fun_cong [OF read_stream_def] fun_cong [OF directory_entries_def] fun_cong [OF sys_sleep_def]
  fun_cong [OF call_or_throw_def] fun_cong [OF close_keeping_def] fun_cong [OF fork_child_def]
  fun_cong [OF fork_shared_def] fun_cong [OF run_program_def] fun_cong [OF sys_kill_def] fun_cong [OF steady_now_def]

end
