(* ===== verification/Util.thy ===== *)
theory Util
  imports World
begin

text \<open>
  The text helpers of \<^verbatim>\<open>util.cc\<close>: identifiers, key/value metadata, command lines, decimal names
  of users and processes. The results: identifiers that pass \<^verbatim>\<open>IsSafeId\<close> are single path
  components (so the store's paths stay where they should), generated identifiers pass it, and
  metadata text that was serialized parses back to the same map.
\<close>

section \<open>Identifiers\<close>

definition IsSafeId :: "string \<Rightarrow> bool" where
  "IsSafeId v \<longleftrightarrow> v \<noteq> [] \<and> length v \<le> 80 \<and> isalnum (hd v) \<and>
     list_all (\<lambda>c. isalnum c \<or> c = CHR ''-'') v"

definition RequireSafeId :: "string \<Rightarrow> string \<Rightarrow> exn + unit" where
  "RequireSafeId v field_name =
     (if IsSafeId v then Inr () else Inl (RuntimeError (''unsafe '' @ field_name @ '': '' @ v)))"

text \<open>\<^verbatim>\<open>std::hex << std::setw(2) << std::setfill('0')\<close> of a byte.\<close>

definition hex_byte :: "nat \<Rightarrow> string" where
  "hex_byte v = [digit_char (v div 16 mod 16), digit_char (v mod 16)]"

definition random_byte :: "nat io" where
  "random_byte = bnd sys (\<lambda>_. bnd (answer k_rand) (\<lambda>v. ret (v mod 256)))"

definition GenerateId :: "string \<Rightarrow> string io" where
  "GenerateId pre =
     bnd (lift_sum (RequireSafeId pre ''prefix'')) (\<lambda>_.
     bnd (collect (\<lambda>_. random_byte) [0..<8]) (\<lambda>bs.
     ret (pre @ ''-'' @ concat (map hex_byte bs))))"

definition IsAbsolutePath :: "string \<Rightarrow> bool" where
  "IsAbsolutePath p \<longleftrightarrow> p \<noteq> [] \<and> hd p = SLASH"

definition UidToString :: "uid_t \<Rightarrow> string" where
  "UidToString uid = show_nat (unat uid)"

definition GidToString :: "gid_t \<Rightarrow> string" where
  "GidToString gid = show_nat (unat gid)"

definition PidToString :: "pid_t \<Rightarrow> string" where
  "PidToString pid = show_int (sint pid)"

section \<open>Key/value metadata\<close>

text \<open>A \<^verbatim>\<open>std::map<std::string, std::string>\<close> is its sorted list of entries.\<close>

type_synonym kv_map = "(string \<times> string) list"

fun kv_set :: "string \<Rightarrow> string \<Rightarrow> kv_map \<Rightarrow> kv_map" where
  "kv_set k v [] = [(k, v)]"
| "kv_set k v ((k', v') # m) =
     (if k < k' then (k, v) # (k', v') # m
      else if k = k' then (k, v) # m
      else (k', v') # kv_set k v m)"

definition kv_of :: "(string \<times> string) list \<Rightarrow> kv_map" where
  "kv_of kvs = foldl (\<lambda>m (k, v). kv_set k v m) [] kvs"

definition kv_at :: "kv_map \<Rightarrow> string \<Rightarrow> exn + string" where
  "kv_at m k = (case map_of m k of Some v \<Rightarrow> Inr v | None \<Rightarrow> Inl (OutOfRange ''map::at''))"

definition kv_find :: "kv_map \<Rightarrow> string \<Rightarrow> string" where
  "kv_find m k = (case map_of m k of Some v \<Rightarrow> v | None \<Rightarrow> [])"

fun parse_lines :: "string list \<Rightarrow> kv_map \<Rightarrow> exn + kv_map" where
  "parse_lines [] m = Inr m"
| "parse_lines (line # ls) m =
     (if line = [] then parse_lines ls m
      else (case cut EQ line of
              None \<Rightarrow> Inl (RuntimeError (''invalid key-value line: '' @ line))
            | Some (k, v) \<Rightarrow> parse_lines ls (kv_set k v m)))"

definition ParseKeyValueText :: "string \<Rightarrow> exn + kv_map" where
  "ParseKeyValueText content = parse_lines (getlines NL content) []"

fun SerializeKeyValueMap :: "kv_map \<Rightarrow> exn + string" where
  "SerializeKeyValueMap [] = Inr []"
| "SerializeKeyValueMap ((k, v) # m) =
     (if EQ \<in> set k \<or> NL \<in> set k \<or> NL \<in> set v
      then Inl (RuntimeError ''invalid key/value content'')
      else try_bind (SerializeKeyValueMap m) (\<lambda>rest. Inr (k @ [EQ] @ v @ [NL] @ rest)))"

section \<open>Command lines\<close>

definition needs_quotes :: "string \<Rightarrow> bool" where
  "needs_quotes token \<longleftrightarrow>
     list_ex (\<lambda>c. c \<in> set [CHR '' '', CHR 0x09, CHR 0x0A, CHR 0x27, CHR 0x22, CHR 0x5C]) token"

definition quote_char :: "char \<Rightarrow> string" where
  "quote_char c = (if c = CHR 0x27 then [CHR 0x27, CHR 0x5C, CHR 0x27, CHR 0x27] else [c])"

definition quote_token :: "string \<Rightarrow> string" where
  "quote_token token =
     (if needs_quotes token then [CHR 0x27] @ concat (map quote_char token) @ [CHR 0x27] else token)"

fun JoinCommandLine :: "string list \<Rightarrow> string" where
  "JoinCommandLine [] = []"
| "JoinCommandLine [token] = quote_token token"
| "JoinCommandLine (token # ts) = quote_token token @ '' '' @ JoinCommandLine ts"

section \<open>Identifiers are path components\<close>

lemma isalnum_not_slash: "isalnum c \<Longrightarrow> c \<noteq> SLASH"
  by (auto simp: isalnum_def)

lemma safe_id_component: "IsSafeId v \<Longrightarrow> v \<noteq> [] \<and> SLASH \<notin> set v"
  by (auto simp: IsSafeId_def list_all_iff dest: isalnum_not_slash)

lemma safe_id_key [simp]: "IsSafeId v \<Longrightarrow> path_key v = [v]"
  using safe_id_component path_key_single by blast

lemma component_relative: "v \<noteq> [] \<Longrightarrow> SLASH \<notin> set v \<Longrightarrow> \<not> is_absolute v"
  by (cases v) (auto simp: is_absolute_def)

lemma literal_component [simp]: "v \<noteq> [] \<Longrightarrow> SLASH \<notin> set v \<Longrightarrow> path_key (path_append a v) = path_key a @ [v]"
  using component_relative path_key_single by simp

lemma safe_id_append [simp]: "IsSafeId v \<Longrightarrow> path_key (path_append a v) = path_key a @ [v]"
  using safe_id_component [of v] component_relative [of v] by simp

lemma RequireSafeId_Inr [simp]: "RequireSafeId v f = Inr x \<longleftrightarrow> IsSafeId v"
  by (simp add: RequireSafeId_def)

lemma RequireSafeId_safe [simp]: "IsSafeId v \<Longrightarrow> RequireSafeId v f = Inr ()"
  by (simp add: RequireSafeId_def)

lemma show_nat_component [simp]: "SLASH \<notin> set (show_nat n)"
  using show_nat_clean by auto

lemma uid_key [simp]: "path_key (path_append a (UidToString u)) = path_key a @ [UidToString u]"
  using component_relative [of "UidToString u"] path_key_single [of "UidToString u"]
  by (simp add: UidToString_def)

lemma UidToString_inj [simp]: "UidToString u = UidToString v \<longleftrightarrow> u = v"
  by (metis UidToString_def digits_val_show_nat unsigned_word_eqI)

lemma digit_char_alnum: "d < 16 \<Longrightarrow> isalnum (digit_char d)"
  by (auto simp: isalnum_def digit_char_def less_Suc_eq numeral_eq_Suc)

lemma hex_byte_alnum: "list_all isalnum (hex_byte v)"
  by (simp add: hex_byte_def digit_char_alnum)

lemma hex_byte_length [simp]: "length (hex_byte v) = 2"
  by (simp add: hex_byte_def)

lemma random_byte_Inr: "\<exists>v w'. random_byte w = (Inr v, w') \<and> v < 256"
  by (auto simp: random_byte_def bnd_apply sys_def answer_def split: list.split)

lemma collect_random: "\<exists>bs w'. collect (\<lambda>_. random_byte) xs w = (Inr bs, w') \<and> length bs = length xs"
proof (induction xs arbitrary: w)
  case (Cons x xs)
  obtain v w1 where "random_byte w = (Inr v, w1)" using random_byte_Inr by blast
  then show ?case using Cons.IH [of w1] by (auto simp: bnd_apply)
qed simp

lemma hex_bytes_length: "length (concat (map hex_byte bs)) = 2 * length bs"
  by (induction bs) auto

lemma hex_bytes_alnum: "list_all isalnum (concat (map hex_byte bs))"
  using hex_byte_alnum by (induction bs) auto

lemma GenerateId_ok:
  assumes "IsSafeId pre" and "length pre \<le> 63"
  shows "\<exists>i w'. GenerateId pre w = (Inr i, w') \<and> IsSafeId i \<and> length i = length pre + 17"
proof -
  obtain bs w' where bs: "collect (\<lambda>_. random_byte) [0..<8] w = (Inr bs, w')" "length bs = 8"
    using collect_random [of "[0..<8]" w] by auto
  let ?i = "pre @ ''-'' @ concat (map hex_byte bs)"
  have len: "length ?i = length pre + 17" using bs by (simp add: hex_bytes_length)
  moreover have "IsSafeId ?i"
    using assms len hex_bytes_alnum [of bs] by (auto simp: IsSafeId_def list_all_iff)
  ultimately show ?thesis
    using bs assms(1) by (simp add: GenerateId_def bnd_apply)
qed

lemma random_byte_keeps [frame_intros]: "keeps (outside K) random_byte"
  unfolding random_byte_def by (intro frame_intros)

lemma GenerateId_keeps [frame_intros]: "keeps (outside K) (GenerateId p)"
  unfolding GenerateId_def by (intro frame_intros)

lemma pid_roundtrip: "stol (PidToString p) = Inr (sint p)"
proof -
  have "- (2 ^ 31) \<le> sint p" "sint p < 2 ^ 31"
    using sint_ge [of p] sint_lt [of p] by simp_all
  then show ?thesis by (simp add: PidToString_def stol_def parse_signed_show_int)
qed

section \<open>The sorted map interface\<close>

text \<open>What the metadata code relies on: a stored value is found again, other keys are untouched,
  and the entries stay sorted.\<close>

definition kv_sorted :: "kv_map \<Rightarrow> bool" where
  "kv_sorted m \<longleftrightarrow> sorted_wrt (<) (map fst m)"

locale sorted_map =
  fixes look :: "'m \<Rightarrow> 'k::linorder \<Rightarrow> 'v option"
    and upd :: "'k \<Rightarrow> 'v \<Rightarrow> 'm \<Rightarrow> 'm"
    and nil :: 'm
    and ordered :: "'m \<Rightarrow> bool"
  assumes look_nil: "look nil k = None"
    and ordered_nil: "ordered nil"
    and look_upd: "ordered m \<Longrightarrow> look (upd k v m) k' = (if k' = k then Some v else look m k')"
    and ordered_upd: "ordered m \<Longrightarrow> ordered (upd k v m)"
begin

definition of_pairs :: "('k \<times> 'v) list \<Rightarrow> 'm \<Rightarrow> 'm" where
  "of_pairs kvs m = foldl (\<lambda>m (k, v). upd k v m) m kvs"

lemma of_pairs_ordered: "ordered m \<Longrightarrow> ordered (of_pairs kvs m)"
  by (induction kvs arbitrary: m) (auto simp: of_pairs_def ordered_upd)

lemma look_of_pairs_other: "ordered m \<Longrightarrow> k \<notin> fst ` set kvs \<Longrightarrow> look (of_pairs kvs m) k = look m k"
  by (induction kvs arbitrary: m) (auto simp: of_pairs_def ordered_upd look_upd)

lemma look_of_pairs:
  "ordered m \<Longrightarrow> distinct (map fst kvs) \<Longrightarrow> (k, v) \<in> set kvs \<Longrightarrow> look (of_pairs kvs m) k = Some v"
proof (induction kvs arbitrary: m)
  case (Cons kv kvs)
  obtain k' v' where kv: "kv = (k', v')" by (cases kv)
  have step: "of_pairs (kv # kvs) m = of_pairs kvs (upd k' v' m)" by (simp add: of_pairs_def kv)
  show ?case
  proof (cases "k = k'")
    case True
    then have "v = v'" "k \<notin> fst ` set kvs" using Cons.prems kv by (auto intro: rev_image_eqI)
    then show ?thesis using step Cons.prems(1) True kv by (simp add: look_of_pairs_other ordered_upd look_upd)
  next
    case False
    then show ?thesis using Cons kv step by (auto simp: ordered_upd)
  qed
qed simp

end

lemma kv_set_keys: "set (map fst (kv_set k v m)) = insert k (set (map fst m))"
  by (induction k v m rule: kv_set.induct) auto

lemma kv_set_sorted: "kv_sorted m \<Longrightarrow> kv_sorted (kv_set k v m)"
proof (induction k v m rule: kv_set.induct)
  case (2 k v k' v' m)
  then show ?case
    using kv_set_keys [of k v m] by (auto simp: kv_sorted_def)
qed (simp add: kv_sorted_def)

interpretation kv: sorted_map map_of kv_set "[]" kv_sorted
proof unfold_locales
  fix m :: kv_map and k v k'
  assume "kv_sorted m"
  then show "map_of (kv_set k v m) k' = (if k' = k then Some v else map_of m k')"
    by (induction k v m rule: kv_set.induct) (auto simp: kv_sorted_def)
next
  fix m :: kv_map and k v
  assume "kv_sorted m"
  then show "kv_sorted (kv_set k v m)" by (rule kv_set_sorted)
qed (simp_all add: kv_sorted_def)

lemma kv_of_pairs: "kv_of kvs = kv.of_pairs kvs []"
  by (simp add: kv_of_def kv.of_pairs_def)

lemma kv_of_sorted: "kv_sorted (kv_of kvs)"
  by (simp add: kv_of_pairs kv.of_pairs_ordered kv.ordered_nil)

lemma kv_of_look: "distinct (map fst kvs) \<Longrightarrow> (k, v) \<in> set kvs \<Longrightarrow> map_of (kv_of kvs) k = Some v"
  by (simp add: kv_of_pairs kv.look_of_pairs kv.ordered_nil)

lemma kv_of_map: "distinct (map fst kvs) \<Longrightarrow> map_of (kv_of kvs) k = map_of kvs k"
proof (cases "map_of kvs k")
  case None
  then show ?thesis
    using kv.look_of_pairs_other [OF kv.ordered_nil, of k kvs]
    by (metis kv_of_pairs kv.look_nil map_of_eq_None_iff)
next
  case (Some v)
  assume "distinct (map fst kvs)"
  then show ?thesis unfolding Some by (rule kv_of_look [OF _ map_of_SomeD [OF Some]])
qed

section \<open>Metadata text parses back\<close>

lemma kv_set_append: "\<forall>k'\<in>fst ` set m. k' < k \<Longrightarrow> kv_set k v m = m @ [(k, v)]"
  by (induction m) auto

lemma parse_serialized:
  assumes "SerializeKeyValueMap m = Inr content" and "sorted_wrt (<) (map fst (m0 @ m))"
  shows "parse_lines (getlines NL content) m0 = Inr (m0 @ m)"
  using assms
proof (induction m arbitrary: content m0 rule: SerializeKeyValueMap.induct)
  case (2 k v m)
  then obtain rest where rest: "SerializeKeyValueMap m = Inr rest"
    and content: "content = (k @ EQ # v) @ NL # rest"
    and clean: "EQ \<notin> set k" "NL \<notin> set k" "NL \<notin> set v"
    by (auto simp: try_bind_eq_Inr split: if_splits)
  have lines: "getlines NL content = (k @ EQ # v) # getlines NL rest"
    unfolding content using clean by (intro getlines_line) auto
  have "kv_set k v m0 = m0 @ [(k, v)]"
    using "2.prems"(2) by (intro kv_set_append) (auto simp: sorted_wrt_append)
  moreover have "parse_lines (getlines NL rest) (m0 @ [(k, v)]) = Inr ((m0 @ [(k, v)]) @ m)"
    using 2 rest clean by (intro "2.IH") auto
  ultimately show ?case using lines clean by simp
qed simp

lemma ParseKeyValueText_serialized:
  "SerializeKeyValueMap m = Inr content \<Longrightarrow> kv_sorted m \<Longrightarrow> ParseKeyValueText content = Inr m"
  using parse_serialized [of m content "[]"] by (simp add: ParseKeyValueText_def kv_sorted_def)

lemma parse_lines_sorted: "parse_lines ls m = Inr m' \<Longrightarrow> kv_sorted m \<Longrightarrow> kv_sorted m'"
  by (induction ls m rule: parse_lines.induct) (auto simp: kv_set_sorted split: if_splits option.splits)

text \<open>An empty argument leaves no trace in the joined line, and shell metacharacters are not quoted.\<close>

lemma joined_line_not_quoted: "JoinCommandLine [''a'', [], ''$(b);c''] = ''a  $(b);c''"
  by code_simp

section \<open>Evaluation\<close>

text \<open>Code equations that wait for the state an action runs on, so that an evaluation follows the run.\<close>

lemmas util_code [code] =
  fun_cong [OF random_byte_def] fun_cong [OF GenerateId_def]

end
