(* ===== verification/Files.thy ===== *)
theory Files
  imports Util
begin

text \<open>
  The file helpers of \<^verbatim>\<open>util.cc\<close>: directories made with explicit modes, text files, whole trees.
  The results: each helper changes nothing but the files it names and missing parent directories,
  whatever fails on the way; a directory that was ensured exists with exactly the requested mode;
  a file that was written reads back, with exactly the requested mode.
\<close>

section \<open>Directories and text files\<close>

lemma parent_path_le: "length (parent_path p) \<le> length p \<or> p = []"
proof -
  define d where "d = rev (dropWhile (\<lambda>c. c \<noteq> SLASH) (rev p))"
  define e where "e = rev (dropWhile (\<lambda>c. c = SLASH) (rev d))"
  have "length d \<le> length p" "length e \<le> length d"
    using length_dropWhile_le [of "\<lambda>c. c \<noteq> SLASH" "rev p"] length_dropWhile_le [of "\<lambda>c. c = SLASH" "rev d"]
    by (simp_all add: d_def e_def)
  moreover have "parent_path p = (if d = [] then [] else if e = [] then [SLASH] else e)"
    unfolding parent_path_def Let_def d_def e_def by (rule refl)
  ultimately show ?thesis by (cases p) auto
qed

definition chmod_dir :: "path \<Rightarrow> mode_t \<Rightarrow> unit io" where
  "chmod_dir p mode = bnd (sys_chmod p mode) (\<lambda>e.
     if e \<noteq> 0 \<and> e \<noteq> ENOENT then ThrowErrno (''chmod('' @ p @ '')'') e else ret ())"

text \<open>The branch for a path that exists, and the one after the parent has been made.\<close>

definition found_dir :: "path \<Rightarrow> mode_t \<Rightarrow> bool \<Rightarrow> unit io" where
  "found_dir p mode chmod_existing =
     bnd (fs_is_directory p) (\<lambda>isdir.
     if \<not> isdir then raise (RuntimeError (''path exists but is not a directory: '' @ p))
     else if chmod_existing then chmod_dir p mode else ret ())"

definition make_dir :: "path \<Rightarrow> mode_t \<Rightarrow> unit io" where
  "make_dir p mode =
     bnd (sys_mkdir p mode) (\<lambda>e.
     if e \<noteq> 0 then (if e \<noteq> EEXIST then ThrowErrno (''mkdir('' @ p @ '')'') e else ret ())
     else chmod_dir p mode)"

lemma fs_exists_False:
  assumes "fs_exists p w = (Inr False, w1)"
  shows "length (w_script w1) \<le> length (w_script w)"
    and "path_key p = [] \<Longrightarrow> length (w_script w1) < length (w_script w)"
  using assms
  by (auto simp: fs_exists_def fault_def sys_def bnd_apply split: list.splits sysres.splits if_splits)

text \<open>The recursion ends because a path gets shorter, and because the root directory is seen to exist
  as soon as no fault hides it.\<close>

function EnsureDirImpl :: "path \<Rightarrow> mode_t \<Rightarrow> bool \<Rightarrow> unit io" where
  "EnsureDirImpl p mode chmod_existing w =
     (if p = [] then (Inr (), w)
      else bnd (fs_exists p) (\<lambda>ex w1.
        if ex then found_dir p mode chmod_existing w1
        else bnd (\<lambda>w2. EnsureDirImpl (parent_path p) mode False w2) (\<lambda>_. make_dir p mode) w1) w)"
  by pat_completeness auto

termination
proof (relation "measure (\<lambda>(p, mode, c, w). length p + length (w_script w))", goal_cases)
  case (2 p mode c w x w1)
  then have ex: "fs_exists p w = (Inr False, w1)" by (cases x) auto
  have "length (parent_path p) \<le> length p" using parent_path_le [of p] 2(1) by simp
  then have "length (parent_path p) + length (w_script w1) < length p + length (w_script w)"
    using fs_exists_False [OF ex] parent_path_shorter [of p] by fastforce
  then show ?case by simp
qed simp

declare EnsureDirImpl.simps [simp del]

definition EnsureDir :: "path \<Rightarrow> mode_t \<Rightarrow> unit io" where
  "EnsureDir p mode = EnsureDirImpl p mode True"

definition ReadTextFile :: "path \<Rightarrow> string io" where
  "ReadTextFile p = bnd (read_stream p) (\<lambda>r. case r of
     None \<Rightarrow> raise (RuntimeError (''failed to open file for read: '' @ p)) | Some s \<Rightarrow> ret s)"

text \<open>The exception handler closes the descriptor and rethrows; the error of that \<^verbatim>\<open>close\<close> is not
  looked at.\<close>

definition WriteTextFile :: "path \<Rightarrow> string \<Rightarrow> mode_t \<Rightarrow> mode_t \<Rightarrow> unit io" where
  "WriteTextFile p content file_mode parent_mode =
     bnd (EnsureDirImpl (parent_path p) parent_mode False) (\<lambda>_.
     bnd (sys_open_write p file_mode) (\<lambda>e.
     if e \<noteq> 0 then ThrowErrno (''open('' @ p @ '')'') e
     else
       bnd (catch_exn
              (bnd (WriteAllFd (path_key p) content) (\<lambda>_.
               bnd (sys_fchmod (path_key p) file_mode) (\<lambda>e.
               if e \<noteq> 0 then ThrowErrno (''fchmod('' @ p @ '')'') e else ret ())))
              (\<lambda>x. bnd sys_close (\<lambda>_. raise x))) (\<lambda>_.
       bnd sys_close (\<lambda>e.
       if e \<noteq> 0 then ThrowErrno (''close('' @ p @ '')'') e else ret ()))))"

definition PathExists :: "path \<Rightarrow> bool io" where
  "PathExists p = fs_exists p"

definition RemoveTree :: "path \<Rightarrow> unit io" where
  "RemoveTree p = bnd (fs_remove_all p) (\<lambda>e.
     if e \<noteq> 0 then bnd (gets (\<lambda>w. k_strerror (w_kernel w) e)) (\<lambda>m.
       raise (RuntimeError (''failed to remove tree '' @ p @ '': '' @ m)))
     else ret ())"

definition IsPathBeneath :: "path \<Rightarrow> path \<Rightarrow> bool io" where
  "IsPathBeneath root candidate = gets (\<lambda>w.
     case (k_canon (w_kernel w) (w_files w) root, k_canon (w_kernel w) (w_files w) candidate) of
       (Some r, Some c) \<Rightarrow> prefix (path_elements r) (path_elements c)
     | _ \<Rightarrow> False)"

section \<open>Whole trees\<close>

text \<open>\<^verbatim>\<open>fs::copy\<close> of a tree to a place where nothing is: directories take the mode of their origin
  under the umask, files keep theirs; extended attributes are not copied. Where it fails, some
  entries may have been copied; a socket makes it fail.\<close>

definition copy_node :: "kernel \<Rightarrow> node \<Rightarrow> node" where
  "copy_node ker n = n\<lparr>n_mode := (if n_kind n = Directory then n_mode n AND NOT (k_umask ker) else n_mode n),
     n_uid := k_euid ker, n_gid := k_egid ker, n_cap := False\<rparr>"

definition copied :: "world \<Rightarrow> key \<Rightarrow> key \<Rightarrow> tree" where
  "copied w src dst = map (\<lambda>(k, n). (dst @ drop (length src) k, copy_node (w_kernel w) n))
     (filter (\<lambda>(k, n). prefix src k) (w_files w))"

definition has_socket :: "tree \<Rightarrow> key \<Rightarrow> bool" where
  "has_socket t k \<longleftrightarrow> (\<exists>(k', n)\<in>set t. prefix k k' \<and> n_kind n = Socket)"

definition fs_copy :: "path \<Rightarrow> path \<Rightarrow> int io" where
  "fs_copy src dst = bnd fault (\<lambda>f w.
     let new = copied w (path_key src) (path_key dst);
         bad = (case f of Some e \<Rightarrow> e
                | None \<Rightarrow> if has_socket (w_files w) (path_key src) then ENOTSUP else 0)
     in (Inr bad, w\<lparr>w_files :=
           filter (\<lambda>(k, n). bad = 0 \<or> k_partial (w_kernel w) (w_tick w) k) new @ w_files w\<rparr>))"

definition CopyTree :: "path \<Rightarrow> path \<Rightarrow> unit io" where
  "CopyTree source destination =
     bnd (RemoveTree destination) (\<lambda>_.
     bnd (PathExists source) (\<lambda>ex.
     if \<not> ex then ret ()
     else bnd (EnsureDir (parent_path destination) 0x1ED) (\<lambda>_.
       bnd (fs_copy source destination) (\<lambda>e.
       if e \<noteq> 0 then bnd (gets (\<lambda>w. k_strerror (w_kernel w) e)) (\<lambda>m.
         raise (RuntimeError (''failed to copy tree '' @ source @ '' -> '' @ destination @ '': '' @ m)))
       else ret ()))))"

text \<open>The entries a \<^verbatim>\<open>recursive_directory_iterator\<close> visits. The path of an entry is its key under the
  name of the root.\<close>

definition tree_entries :: "path \<Rightarrow> key list io" where
  "tree_entries root = bnd fault (\<lambda>f w.
     if f \<noteq> None \<or> \<not> is_dir (w_files w) (path_key root)
     then (Inl (FilesystemError (''recursive directory iterator cannot open directory: '' @ root)), w)
     else (Inr (fs_below (w_files w) (path_key root)), w))"

definition join_key :: "path \<Rightarrow> key \<Rightarrow> path" where
  "join_key root rel = foldl path_append root rel"

definition entry_path :: "path \<Rightarrow> key \<Rightarrow> path" where
  "entry_path root k = join_key root (drop (length (path_key root)) k)"

definition chown_one :: "uid_t \<Rightarrow> gid_t \<Rightarrow> path \<Rightarrow> key \<Rightarrow> unit io" where
  "chown_one uid gid p k = bnd (chown_at k uid gid) (\<lambda>e.
     if e \<noteq> 0 then ThrowErrno (''chown('' @ p @ '')'') e else ret ())"

definition ChownTree :: "path \<Rightarrow> uid_t \<Rightarrow> gid_t \<Rightarrow> unit io" where
  "ChownTree root uid gid =
     bnd (PathExists root) (\<lambda>ex.
     if \<not> ex then ret ()
     else bnd (chown_one uid gid root (path_key root)) (\<lambda>_.
       bnd (tree_entries root) (\<lambda>ks. for_each (\<lambda>k. chown_one uid gid (entry_path root k) k) ks)))"

definition chmod_one :: "path \<Rightarrow> key \<Rightarrow> mode_t \<Rightarrow> unit io" where
  "chmod_one p k mode = bnd (chmod_at k mode) (\<lambda>e.
     if e \<noteq> 0 then ThrowErrno (''chmod('' @ p @ '')'') e else ret ())"

definition SetTreePermissions :: "path \<Rightarrow> mode_t \<Rightarrow> mode_t \<Rightarrow> unit io" where
  "SetTreePermissions root directory_mode file_mode =
     bnd (PathExists root) (\<lambda>ex.
     if \<not> ex then ret ()
     else bnd (chmod_one root (path_key root) directory_mode) (\<lambda>_.
       bnd (tree_entries root) (\<lambda>ks. for_each (\<lambda>k.
         bnd (gets (\<lambda>w. is_dir (w_files w) k)) (\<lambda>isdir.
         chmod_one (entry_path root k) k (if isdir then directory_mode else file_mode))) ks)))"

definition regular_size :: "tree \<Rightarrow> key \<Rightarrow> 64 word" where
  "regular_size t k = (case fs_get t k of
     Some n \<Rightarrow> if n_kind n = Regular then of_nat (length (n_data n)) else 0 | None \<Rightarrow> 0)"

definition DirectoryTreeSizeBytes :: "path \<Rightarrow> 64 word io" where
  "DirectoryTreeSizeBytes root =
     bnd (PathExists root) (\<lambda>ex.
     if \<not> ex then ret 0
     else bnd fault (\<lambda>f w.
       case f of
         Some e \<Rightarrow> if e = EACCES then (Inr 0, w)
           else (Inl (RuntimeError (''failed to walk tree '' @ root @ '': '' @ k_strerror (w_kernel w) e)), w)
       | None \<Rightarrow>
         if \<not> is_dir (w_files w) (path_key root)
         then (Inl (RuntimeError (''failed to walk tree '' @ root @ '': ''
                  @ k_strerror (w_kernel w) ENOTDIR)), w)
         else (Inr (sum_list (map (regular_size (w_files w)) (fs_below (w_files w) (path_key root)))), w)))"

section \<open>Effects stay where they belong\<close>

lemma chmod_dir_keeps [frame_intros]: "K (path_key p) \<Longrightarrow> keeps (outside K) (chmod_dir p mode)"
  unfolding chmod_dir_def by (intro frame_intros)

lemma found_dir_keeps [frame_intros]:
  "(c \<Longrightarrow> K (path_key p)) \<Longrightarrow> keeps (outside K) (found_dir p mode c)"
  unfolding found_dir_def by (intro frame_intros)

lemma make_dir_keeps [frame_intros]: "K (path_key p) \<Longrightarrow> keeps (outside K) (make_dir p mode)"
  unfolding make_dir_def by (intro frame_intros)

lemma EnsureDirImpl_outside:
  assumes "\<And>k. prefix k (path_key p) \<Longrightarrow> K k"
  shows "outside K w (snd (EnsureDirImpl p mode c w))"
  using assms
proof (induction p mode c w rule: EnsureDirImpl.induct)
  case (1 p mode c w)
  have key: "K (path_key p)" using "1.prems" by simp
  have parent: "\<And>k. prefix k (path_key (parent_path p)) \<Longrightarrow> K k"
    using "1.prems" parent_key_prefix [of p] prefix_order.order_trans by blast
  have make: "keeps (outside K) (make_dir p mode)" and found: "keeps (outside K) (found_dir p mode c)"
    by (auto intro!: make_dir_keeps found_dir_keeps key)
  show ?case
  proof (cases "p = []")
    case False
    have branch: "outside K w1 (snd (if ex then found_dir p mode c w1
        else bnd (\<lambda>w2. EnsureDirImpl (parent_path p) mode False w2) (\<lambda>_. make_dir p mode) w1))"
      if ex: "fs_exists p w = (Inr ex, w1)" for ex w1
    proof (cases ex)
      case no: False
      have "outside K w1 (snd (EnsureDirImpl (parent_path p) mode False w1))"
        using "1.IH" [OF False ex no] parent by blast
      then show ?thesis
        using no by (auto intro!: out.bnd_step keepsD [OF make])
    qed (simp add: keepsD [OF found])
    show ?thesis
      unfolding EnsureDirImpl.simps [of p] using False
      by (simp only: if_False) (rule out.bnd_step [OF keepsD [OF fs_exists_keeps] branch])
  qed (simp add: EnsureDirImpl.simps out.frame_refl)
qed

lemma EnsureDirImpl_keeps [frame_intros]:
  "(\<And>k. prefix k (path_key p) \<Longrightarrow> K k) \<Longrightarrow> keeps (outside K) (EnsureDirImpl p mode c)"
  by (rule keepsI) (rule EnsureDirImpl_outside)

lemma EnsureDir_keeps [frame_intros]:
  "(\<And>k. prefix k (path_key p) \<Longrightarrow> K k) \<Longrightarrow> keeps (outside K) (EnsureDir p mode)"
  unfolding EnsureDir_def by (rule EnsureDirImpl_keeps)

lemma ReadTextFile_keeps [frame_intros]: "keeps (outside K) (ReadTextFile p)"
  unfolding ReadTextFile_def by (intro frame_intros)

lemma PathExists_keeps [frame_intros]: "keeps (outside K) (PathExists p)"
  unfolding PathExists_def by (intro frame_intros)

lemma IsPathBeneath_keeps [frame_intros]: "keeps (outside K) (IsPathBeneath r c)"
  unfolding IsPathBeneath_def by (intro frame_intros)

lemma WriteTextFile_keeps [frame_intros]:
  assumes "\<And>k. prefix k (path_key p) \<Longrightarrow> K k"
  shows "keeps (outside K) (WriteTextFile p content fm pm)"
proof -
  have "\<And>k. prefix k (path_key (parent_path p)) \<Longrightarrow> K k"
    using assms parent_key_prefix [of p] prefix_order.order_trans by blast
  then show ?thesis
    unfolding WriteTextFile_def using assms by (intro frame_intros) auto
qed

lemma RemoveTree_keeps [frame_intros]:
  "(\<And>k. prefix (path_key p) k \<Longrightarrow> K k) \<Longrightarrow> keeps (outside K) (RemoveTree p)"
  unfolding RemoveTree_def by (intro frame_intros) auto

lemma fs_get_append_other: "k \<notin> fst ` set xs \<Longrightarrow> fs_get (xs @ t) k = fs_get t k"
  by (simp add: fs_get_def map_add_def map_of_eq_None_iff [symmetric] split: option.split)

lemma copied_below: "(k, n) \<in> set (copied w src dst) \<Longrightarrow> prefix dst k"
  by (auto simp: copied_def)

lemma fs_copy_keeps [frame_intros]:
  assumes "\<And>k. prefix (path_key dst) k \<Longrightarrow> K k"
  shows "keeps (outside K) (fs_copy src dst)"
  unfolding fs_copy_def
proof (intro out.bnd_keeps fault_keeps keepsI)
  fix f :: "int option" and w :: world
  let ?bad = "case f of Some e \<Rightarrow> e | None \<Rightarrow> if has_socket (w_files w) (path_key src) then ENOTSUP else 0"
  let ?new = "filter (\<lambda>(k, n). ?bad = 0 \<or> k_partial (w_kernel w) (w_tick w) k)
    (copied w (path_key src) (path_key dst))"
  have "fs_get (?new @ w_files w) k = fs_get (w_files w) k" if "\<not> K k" for k
  proof (rule fs_get_append_other)
    show "k \<notin> fst ` set ?new"
      using that assms copied_below [of k _ w "path_key src" "path_key dst"] by force
  qed
  then show "outside K w (snd (let new = copied w (path_key src) (path_key dst);
         bad = ?bad in (Inr bad, w\<lparr>w_files :=
           filter (\<lambda>(k, n). bad = 0 \<or> k_partial (w_kernel w) (w_tick w) k) new @ w_files w\<rparr>)))"
    by (simp add: Let_def outside_def)
qed

text \<open>Keys at, above or below a place: what the tree helpers may touch.\<close>

definition near :: "key \<Rightarrow> key \<Rightarrow> bool" where
  "near k0 k \<longleftrightarrow> prefix k k0 \<or> prefix k0 k"

lemma CopyTree_keeps [frame_intros]:
  assumes "\<And>k. near (path_key destination) k \<Longrightarrow> K k"
  shows "keeps (outside K) (CopyTree source destination)"
proof -
  have "\<And>k. prefix k (path_key (parent_path destination)) \<Longrightarrow> K k"
    "\<And>k. prefix (path_key destination) k \<Longrightarrow> K k"
    using assms parent_key_prefix [of destination] prefix_order.order_trans
    unfolding near_def by blast+
  then show ?thesis unfolding CopyTree_def by (intro frame_intros)
qed

lemma tree_entries_below: "tree_entries root w = (Inr ks, w') \<Longrightarrow> k \<in> set ks \<Longrightarrow> prefix (path_key root) k"
  by (auto simp: tree_entries_def bnd_apply fs_below_def strict_prefix_def
      split: prod.splits sum.splits if_splits)

lemma tree_entries_keeps [frame_intros]: "keeps (outside K) (tree_entries root)"
  unfolding tree_entries_def
  by (intro out.bnd_keeps fault_keeps keepsI) (simp add: out.frame_refl)

lemma chown_one_keeps [frame_intros]: "K k \<Longrightarrow> keeps (outside K) (chown_one u g p k)"
  unfolding chown_one_def by (intro frame_intros)

lemma chmod_one_keeps [frame_intros]: "K k \<Longrightarrow> keeps (outside K) (chmod_one p k m)"
  unfolding chmod_one_def by (intro frame_intros)

lemma tree_walk_keeps:
  assumes "\<And>k. prefix (path_key root) k \<Longrightarrow> keeps (outside K) (f k)"
  shows "keeps (outside K) (bnd (tree_entries root) (\<lambda>ks. for_each f ks))"
  using assms by (intro out.bnd_keeps_result tree_entries_keeps out.for_each_keeps)
    (blast dest: tree_entries_below)

lemma ChownTree_keeps [frame_intros]:
  assumes "\<And>k. prefix (path_key root) k \<Longrightarrow> K k"
  shows "keeps (outside K) (ChownTree root u g)"
  unfolding ChownTree_def
  by (rule out.bnd_keeps out.if_keeps PathExists_keeps out.ret_keeps chown_one_keeps tree_walk_keeps
      assms prefix_order.refl | assumption)+

lemma SetTreePermissions_keeps [frame_intros]:
  assumes "\<And>k. prefix (path_key root) k \<Longrightarrow> K k"
  shows "keeps (outside K) (SetTreePermissions root dm fm)"
  unfolding SetTreePermissions_def
  by (rule tree_walk_keeps out.bnd_keeps out.if_keeps PathExists_keeps out.ret_keeps chmod_one_keeps
      out.gets_keeps assms prefix_order.refl | assumption)+

lemma DirectoryTreeSizeBytes_keeps [frame_intros]: "keeps (outside K) (DirectoryTreeSizeBytes root)"
  unfolding DirectoryTreeSizeBytes_def
  by (intro out.bnd_keeps out.if_keeps PathExists_keeps fault_keeps out.ret_keeps keepsI)
    (auto simp: out.frame_refl split: option.split)

section \<open>What a completed operation has done\<close>

text \<open>No call fails in a world without faults; partial transfers may still happen.\<close>

definition faultless :: "world \<Rightarrow> bool" where
  "faultless w \<longleftrightarrow> list_all (\<lambda>r. case r of Fail _ \<Rightarrow> False | _ \<Rightarrow> True) (w_script w)"

lemma outside_faultless: "outside K s t \<Longrightarrow> faultless s \<Longrightarrow> faultless t"
  using set_mono_suffix [of "w_script t" "w_script s"] by (auto simp: outside_def faultless_def list_all_iff)

lemma sys_files [simp]: "w_files (snd (sys w)) = w_files w"
  by (simp add: sys_def split: list.split)

lemma fault_cases:
  obtains (ok) w1 where "fault w = (Inr None, w1)" and "outside (\<lambda>_. False) w w1"
  | (fail) e w1 where "fault w = (Inr (Some e), w1)" and "outside (\<lambda>_. False) w w1" and "\<not> faultless w" and "e \<noteq> 0"
proof -
  have "\<exists>f w1. fault w = (Inr f, w1)"
    by (cases "w_script w") (simp_all add: fault_def sys_def bnd_apply)
  then obtain f w1 where f: "fault w = (Inr f, w1)" by blast
  moreover have "outside (\<lambda>_. False) w w1"
    using keeps_result [OF fault_keeps f] .
  moreover have "\<not> faultless w \<and> e \<noteq> 0" if "f = Some e" for e
    using f that by (auto simp: fault_def sys_def bnd_apply faultless_def
        split: list.splits sysres.splits if_splits)
  ultimately show ?thesis using ok fail by (cases f) auto
qed

text \<open>\<open>outside\<close> with no exception: every lookup is unchanged.\<close>

lemma outside_none: "outside (\<lambda>_. False) s t \<Longrightarrow> fs_get (w_files t) = fs_get (w_files s)"
  by (auto simp: outside_def)

lemma fault_ok: "faultless w \<Longrightarrow> \<exists>w1. fault w = (Inr None, w1) \<and> outside (\<lambda>_. False) w w1"
  using fault_cases [of w] by metis

lemma or_fault_zero:
  assumes "or_fault m w = (Inr 0, w')"
  shows "\<exists>w1. outside (\<lambda>_. False) w w1 \<and> m w1 = (Inr 0, w')"
  using assms
  by (rule_tac fault_cases [of w]) (auto simp: or_fault_def bnd_apply)

lemma set_node_done:
  assumes "set_node k f w = (Inr 0, w')" and "k \<noteq> []"
  shows "\<exists>n. fs_get (w_files w) k = Some n \<and> fs_get (w_files w') k = Some (f (w_kernel w) n)"
  using assms by (auto simp: set_node_def split: option.splits)

lemma chmod_at_done:
  assumes "chmod_at k m w = (Inr 0, w')" and "k \<noteq> []"
  shows "\<exists>n. fs_get (w_files w) k = Some n \<and> fs_get (w_files w') k = Some (n\<lparr>n_mode := m\<rparr>)"
  using or_fault_zero [of "set_node k (\<lambda>_ n. n\<lparr>n_mode := m\<rparr>)"] assms
  by (fastforce simp: chmod_at_def dest: set_node_done outside_none)

lemma create_node_done:
  assumes "create_node kd p m w = (Inr 0, w')" and "path_key p \<noteq> []"
  shows "fs_get (w_files w') (path_key p) = Some (new_node (w_kernel w) kd m)"
  using assms by (auto simp: create_node_def Let_def split: if_splits)

lemma sys_open_write_done:
  assumes "sys_open_write p m w = (Inr 0, w')" and "path_key p \<noteq> []"
  shows "\<exists>n. fs_get (w_files w') (path_key p) = Some n \<and> n_kind n = Regular \<and> n_data n = []"
proof -
  obtain w1 where w1: "(case fs_get (w_files w1) (path_key p) of
       None \<Rightarrow> create_node Regular p m w1
     | Some n \<Rightarrow>
         if n_kind n = Directory then (Inr EISDIR, w1)
         else if n_kind n = Socket then (Inr ENXIO, w1)
         else set_node (path_key p) (\<lambda>_ n. n\<lparr>n_data := []\<rparr>) w1) = (Inr 0, w')"
    using or_fault_zero [OF assms(1) [unfolded sys_open_write_def]] by blast
  show ?thesis
  proof (cases "fs_get (w_files w1) (path_key p)")
    case None
    then show ?thesis using w1 create_node_done [OF _ assms(2)] by (fastforce simp: new_node_def)
  next
    case (Some n)
    then have "n_kind n = Regular" and "set_node (path_key p) (\<lambda>_ n. n\<lparr>n_data := []\<rparr>) w1 = (Inr 0, w')"
      using w1 by (cases "n_kind n"; simp)+
    then show ?thesis using set_node_done [OF _ assms(2)] Some by fastforce
  qed
qed

lemma WriteAllFd_done:
  assumes "WriteAllFd k buf w = (Inr (), w')" and "k \<noteq> []" and "fs_get (w_files w) k = Some n"
  shows "fs_get (w_files w') k = Some (n\<lparr>n_data := n_data n @ buf\<rparr>)"
proof -
  obtain e out sc where l: "write_loop (w_script w) [] buf = (e, out, sc)"
    by (cases "write_loop (w_script w) [] buf")
  then have "e = None"
    using assms by (cases e) (auto simp: WriteAllFd_def bnd_apply append_data_def set_node_def ThrowErrno_def)
  then have "out = buf" using write_loop_complete l by fastforce
  then show ?thesis
    using assms l \<open>e = None\<close> by (auto simp: WriteAllFd_def bnd_apply append_data_def set_node_def)
qed

lemma sys_close_files: "sys_close w = (r, w') \<Longrightarrow> fs_get (w_files w') = fs_get (w_files w)"
  using keeps_result [OF sys_close_keeps [of "\<lambda>_. False"]] outside_none by metis

text \<open>A file that was written without an exception holds exactly the text, and exactly the
  requested mode, whatever the umask says.\<close>

lemma WriteTextFile_done:
  assumes "WriteTextFile p content fm pm w = (Inr (), w')" and key: "path_key p \<noteq> []"
  shows "\<exists>n. fs_get (w_files w') (path_key p) = Some n
    \<and> n_kind n = Regular \<and> n_data n = content \<and> n_mode n = fm"
proof -
  obtain w1 w2 w3 w4 where
    op: "sys_open_write p fm w1 = (Inr 0, w2)"
    and wr: "WriteAllFd (path_key p) content w2 = (Inr (), w3)"
    and ch: "sys_fchmod (path_key p) fm w3 = (Inr 0, w4)"
    and cl: "sys_close w4 = (Inr 0, w')"
    using assms(1)
    unfolding WriteTextFile_def by (auto simp: bnd_Inr_iff rethrow_Inr_iff)
  obtain n where n: "fs_get (w_files w2) (path_key p) = Some n" "n_kind n = Regular" "n_data n = []"
    using sys_open_write_done [OF op key] by blast
  have "fs_get (w_files w3) (path_key p) = Some (n\<lparr>n_data := content\<rparr>)"
    using WriteAllFd_done [OF wr key n(1)] n(3) by simp
  then have "fs_get (w_files w4) (path_key p) = Some (n\<lparr>n_data := content, n_mode := fm\<rparr>)"
    using chmod_at_done [OF ch [unfolded sys_fchmod_def] key] by auto
  then show ?thesis using sys_close_files [OF cl] n(2) by simp
qed

lemma RemoveTree_done:
  assumes "RemoveTree p w = (Inr (), w')" and "prefix (path_key p) k" and "k \<noteq> []"
  shows "fs_get (w_files w') k = None"
  using assms
  by (rule_tac fault_cases [of w]) (auto simp: RemoveTree_def fs_remove_all_def bnd_apply fs_get_drop
      split: if_splits)

lemma PathExists_ok:
  "faultless w \<Longrightarrow> \<exists>w1. PathExists p w = (Inr (fs_get (w_files w) (path_key p) \<noteq> None), w1)
     \<and> outside (\<lambda>_. False) w w1"
  using fault_ok [of w] outside_none by (fastforce simp: PathExists_def fs_exists_def bnd_apply)

lemma ReadTextFile_ok:
  assumes "faultless w" and "take 1 (path_key p) \<noteq> [''proc'']"
    and "fs_get (w_files w) (path_key p) = Some n" and "n_kind n = Regular"
  shows "\<exists>w1. ReadTextFile p w = (Inr (n_data n), w1) \<and> outside (\<lambda>_. False) w w1"
proof -
  obtain w1 where "fault w = (Inr None, w1)" and o: "outside (\<lambda>_. False) w w1"
    using fault_ok [OF assms(1)] by blast
  then show ?thesis
    using assms outside_none [OF o] by (simp add: ReadTextFile_def read_stream_def bnd_apply)
qed

section \<open>Directories that were ensured\<close>

lemma fs_exists_ok:
  "faultless w \<Longrightarrow> \<exists>w1. fs_exists p w = (Inr (fs_get (w_files w) (path_key p) \<noteq> None), w1)
     \<and> outside (\<lambda>_. False) w w1"
  using PathExists_ok [of w p] by (simp add: PathExists_def)

lemma fs_is_directory_ok:
  "faultless w \<Longrightarrow> \<exists>w1. fs_is_directory p w = (Inr (is_dir (w_files w) (path_key p)), w1)
     \<and> outside (\<lambda>_. False) w w1"
  using fault_ok [of w] outside_none by (fastforce simp: fs_is_directory_def bnd_apply is_dir_def)

lemma chmod_at_ok:
  assumes "faultless w" and "fs_get (w_files w) k = Some n"
  shows "\<exists>w1. chmod_at k m w = (Inr 0, w1)"
proof -
  obtain w1 where "fault w = (Inr None, w1)" and o: "outside (\<lambda>_. False) w w1"
    using fault_ok [OF assms(1)] by blast
  then show ?thesis
    using assms(2) outside_none [OF o] by (auto simp: chmod_at_def or_fault_def bnd_apply set_node_def)
qed

lemma chmod_present:
  assumes "faultless w" and "fs_get (w_files w) (path_key p) = Some n" and "path_key p \<noteq> []"
    and "chmod_dir p m w = (Inr (), w')"
  shows "fs_get (w_files w') (path_key p) = Some (n\<lparr>n_mode := m\<rparr>)"
proof -
  obtain w1 where w1: "chmod_at (path_key p) m w = (Inr 0, w1)"
    using chmod_at_ok [OF assms(1, 2)] by blast
  then have "w' = w1" using assms(4) by (simp add: chmod_dir_def sys_chmod_def bnd_apply)
  then show ?thesis using chmod_at_done [OF w1 assms(3)] assms(2) by auto
qed

lemma sys_mkdir_ok:
  assumes "faultless w" and "sys_mkdir p m w = (Inr e, w')" and "path_key p \<noteq> []"
  shows "e = 0 \<Longrightarrow> fs_get (w_files w') (path_key p) = Some (new_node (w_kernel w') Directory m)"
    and "e = EEXIST \<Longrightarrow> fs_get (w_files w) (path_key p) \<noteq> None \<and> fs_get (w_files w') = fs_get (w_files w)"
proof -
  obtain w1 where f: "fault w = (Inr None, w1)" and o: "outside (\<lambda>_. False) w w1"
    using fault_ok [OF assms(1)] by blast
  have c: "create_node Directory p m w1 = (Inr e, w')"
    using assms(2) f by (simp add: sys_mkdir_def or_fault_def bnd_apply)
  have ker: "w_kernel w' = w_kernel w1"
    using keeps_result [OF create_node_keeps [of "\<lambda>_. True"] c] by (simp add: outside_def)
  show "e = 0 \<Longrightarrow> fs_get (w_files w') (path_key p) = Some (new_node (w_kernel w') Directory m)"
    using create_node_done [OF _ assms(3)] c ker by simp
  show "e = EEXIST \<Longrightarrow> fs_get (w_files w) (path_key p) \<noteq> None \<and> fs_get (w_files w') = fs_get (w_files w)"
    using c outside_none [OF o] by (auto simp: create_node_def Let_def split: if_splits)
qed

text \<open>Nothing is asked of the tree: a missing parent makes the call fail. A path with a trailing
  separator has itself as parent, and is then made by the inner call.\<close>

lemma found_dir_done:
  assumes "found_dir p m c w = (Inr (), w')" and "faultless w" and "path_key p \<noteq> []"
    and "fs_get (w_files w) (path_key p) = Some n"
  shows "\<exists>n'. fs_get (w_files w') (path_key p) = Some n' \<and> n_kind n' = Directory \<and> (c \<longrightarrow> n_mode n' = m)"
proof -
  obtain w2 where id: "fs_is_directory p w = (Inr (is_dir (w_files w) (path_key p)), w2)" and o2: "outside (\<lambda>_. False) w w2"
    using fs_is_directory_ok [OF assms(2)] by blast
  have fl2: "faultless w2" and g2: "fs_get (w_files w2) = fs_get (w_files w)"
    using outside_faultless [OF o2 assms(2)] outside_none [OF o2] by auto
  have dir: "n_kind n = Directory" and res: "(if c then chmod_dir p m else ret ()) w2 = (Inr (), w')"
    using assms(1, 4) id by (auto simp: found_dir_def bnd_apply [of "fs_is_directory p"] is_dir_def split: if_splits)
  show ?thesis
  proof (cases c)
    case True
    then show ?thesis using chmod_present [OF fl2 _ assms(3)] res g2 assms(4) dir by fastforce
  qed (use res g2 assms(4) dir in auto)
qed

lemma make_dir_done:
  assumes "make_dir p m w = (Inr (), w')" and "faultless w" and "path_key p \<noteq> []"
  shows "(\<exists>n. fs_get (w_files w') (path_key p) = Some n \<and> n_kind n = Directory \<and> n_mode n = m)
    \<or> fs_get (w_files w) (path_key p) \<noteq> None \<and> fs_get (w_files w') = fs_get (w_files w)"
proof -
  obtain e w3 where mk: "sys_mkdir p m w = (Inr e, w3)"
    and res: "(if e \<noteq> 0 then if e \<noteq> EEXIST then ThrowErrno (''mkdir('' @ p @ '')'') e else ret ()
       else chmod_dir p m) w3 = (Inr (), w')"
    using assms(1) by (auto simp: make_dir_def bnd_Inr_iff)
  have fl3: "faultless w3"
    using outside_faultless [OF keeps_result [OF sys_mkdir_keeps [of "\<lambda>_. True"] mk] assms(2)] by simp
  show ?thesis
  proof (cases "e = 0")
    case True
    then have "fs_get (w_files w3) (path_key p) = Some (new_node (w_kernel w3) Directory m)"
      using sys_mkdir_ok(1) [OF assms(2) mk assms(3)] by simp
    then show ?thesis using chmod_present [OF fl3 _ assms(3)] res True by (fastforce simp: new_node_def)
  next
    case False
    then have "e = EEXIST" and "w' = w3" using res by (auto split: if_splits)
    then show ?thesis using sys_mkdir_ok(2) [OF assms(2) mk assms(3)] by auto
  qed
qed

lemma EnsureDirImpl_done:
  assumes "EnsureDirImpl p m c w = (Inr (), w')" and "faultless w" and "path_key p \<noteq> []"
  shows "\<exists>n. fs_get (w_files w') (path_key p) = Some n \<and> n_kind n = Directory
    \<and> (c \<or> fs_get (w_files w) (path_key p) = None \<longrightarrow> n_mode n = m)"
  using assms
proof (induction p m c w arbitrary: w' rule: EnsureDirImpl.induct)
  case (1 p m c w)
  have ne: "p \<noteq> []" using "1.prems"(3) by auto
  obtain w1 where ex: "fs_exists p w = (Inr (fs_get (w_files w) (path_key p) \<noteq> None), w1)"
    and o1: "outside (\<lambda>_. False) w w1"
    using fs_exists_ok [OF "1.prems"(2)] by blast
  have fl1: "faultless w1" and g1: "fs_get (w_files w1) = fs_get (w_files w)"
    using outside_faultless [OF o1 "1.prems"(2)] outside_none [OF o1] by auto
  show ?case
  proof (cases "fs_get (w_files w) (path_key p)")
    case (Some n)
    then have "found_dir p m c w1 = (Inr (), w')"
      using "1.prems"(1) ne ex by (simp add: EnsureDirImpl.simps [of p] bnd_apply)
    then show ?thesis using found_dir_done [OF _ fl1 "1.prems"(3)] Some g1 by auto
  next
    case None
    then obtain w2 where up: "EnsureDirImpl (parent_path p) m False w1 = (Inr (), w2)" and mk: "make_dir p m w2 = (Inr (), w')"
      using "1.prems"(1) ne ex by (auto simp: EnsureDirImpl.simps [of p] bnd_Inr_iff)
    have o2: "outside (\<lambda>k. prefix k (path_key (parent_path p))) w1 w2"
      using EnsureDirImpl_outside [of "parent_path p" "\<lambda>k. prefix k (path_key (parent_path p))"] up
      by (metis snd_conv)
    show ?thesis
    proof (cases "fs_get (w_files w2) (path_key p) = None")
      case True
      then show ?thesis using make_dir_done [OF mk outside_faultless [OF o2 fl1] "1.prems"(3)] by auto
    next
      case False
      then have "prefix (path_key p) (path_key (parent_path p))"
        using outside_files [OF o2, of "path_key p"] None g1 by metis
      then have same: "path_key (parent_path p) = path_key p"
        using parent_key_prefix [of p] prefix_order.antisym by blast
      have "\<exists>n. fs_get (w_files w2) (path_key (parent_path p)) = Some n \<and> n_kind n = Directory
          \<and> (False \<or> fs_get (w_files w1) (path_key (parent_path p)) = None \<longrightarrow> n_mode n = m)"
        using "1.IH" [of False w1 w2] ne ex None up fl1 same "1.prems"(3) by auto
      then show ?thesis
        using same make_dir_done [OF mk outside_faultless [OF o2 fl1] "1.prems"(3)] None g1 by auto
    qed
  qed
qed

lemma EnsureDir_done:
  assumes "EnsureDir p m w = (Inr (), w')" and "faultless w" and "path_key p \<noteq> []"
  shows "\<exists>n. fs_get (w_files w') (path_key p) = Some n \<and> n_kind n = Directory \<and> n_mode n = m"
  using EnsureDirImpl_done [of p m True w w'] assms by (auto simp: EnsureDir_def)

section \<open>Existing files persist\<close>

text \<open>
  A second frame condition: entries that exist keep their node, except those in \<open>K\<close>; new entries
  may appear. Making missing parent directories changes nothing that was there.
\<close>

definition persists :: "(key \<Rightarrow> bool) \<Rightarrow> world \<Rightarrow> world \<Rightarrow> bool" where
  "persists K s t \<longleftrightarrow> (\<forall>k n. \<not> K k \<longrightarrow> fs_get (w_files s) k = Some n \<longrightarrow> fs_get (w_files t) k = Some n)"

interpretation per: effect_frame "persists K" for K
  by unfold_locales (auto simp: persists_def)

lemma outside_persists: "outside K s t \<Longrightarrow> persists K s t"
  by (simp add: outside_def persists_def)

lemma keeps_persists: "keeps (outside K) m \<Longrightarrow> keeps (persists K) m"
  by (simp add: keeps_def outside_persists)

lemma persists_get: "persists K s t \<Longrightarrow> \<not> K k \<Longrightarrow> fs_get (w_files s) k = Some n \<Longrightarrow> fs_get (w_files t) k = Some n"
  by (simp add: persists_def)

lemma mkdir_fresh:
  assumes "sys_mkdir p m w = (Inr 0, w1)"
  shows "path_key p = [] \<or> fs_get (w_files w) (path_key p) = None"
  using or_fault_zero [OF assms [unfolded sys_mkdir_def]] outside_none
  by (fastforce simp: create_node_def Let_def split: if_splits)

lemma create_node_error: "create_node kd p m w = (Inr e, w1) \<Longrightarrow> e \<noteq> 0 \<Longrightarrow> w1 = w"
  by (auto simp: create_node_def Let_def split: if_splits)

lemma mkdir_error:
  assumes "sys_mkdir p m w = (Inr e, w1)" and "e \<noteq> 0"
  shows "fs_get (w_files w1) = fs_get (w_files w)"
  using assms outside_none
  by (rule_tac fault_cases [of w]) (fastforce simp: sys_mkdir_def or_fault_def bnd_apply dest: create_node_error)+

lemma mkdir_total: "\<exists>e w1. sys_mkdir p m w = (Inr e, w1)"
  by (rule fault_cases [of w]) (auto simp: sys_mkdir_def or_fault_def bnd_apply create_node_def Let_def)

lemma make_dir_persists: "keeps (persists (\<lambda>_. False)) (make_dir p m)"
proof (rule keepsI)
  fix w :: world
  obtain e w1 where mk: "sys_mkdir p m w = (Inr e, w1)" using mkdir_total by blast
  show "persists (\<lambda>_. False) w (snd (make_dir p m w))"
  proof (cases "e = 0")
    case True
    have "outside (\<lambda>k. k = path_key p) w (snd (make_dir p m w))"
      by (rule keepsD) (intro frame_intros; simp)
    moreover have "path_key p = [] \<or> fs_get (w_files w) (path_key p) = None"
      using mkdir_fresh [of p m w w1] mk True by simp
    ultimately show ?thesis
      unfolding outside_def persists_def by (metis fs_get_root option.distinct(1))
  next
    case False
    then show ?thesis
      using mkdir_error [OF mk] mk by (auto simp: make_dir_def bnd_apply persists_def ThrowErrno_def)
  qed
qed

lemma persists_weaken: "persists (\<lambda>_. False) s t \<Longrightarrow> persists K s t"
  by (simp add: persists_def)

lemma EnsureDirImpl_persists:
  "persists (\<lambda>k. c \<and> k = path_key p) w (snd (EnsureDirImpl p m c w))"
proof (induction p m c w rule: EnsureDirImpl.induct)
  case (1 p m c w)
  let ?R = "persists (\<lambda>k. c \<and> k = path_key p)"
  show ?case
  proof (cases "p = []")
    case False
    have branch: "?R w1 (snd (if ex then found_dir p m c w1
        else bnd (\<lambda>w2. EnsureDirImpl (parent_path p) m False w2) (\<lambda>_. make_dir p m) w1))"
      if ex: "fs_exists p w = (Inr ex, w1)" for ex w1
    proof (cases ex)
      case True
      have "keeps ?R (found_dir p m c)" by (rule keeps_persists) (intro frame_intros; simp)
      then show ?thesis using True by (simp add: keepsD)
    next
      case no: False
      have "?R w1 (snd (EnsureDirImpl (parent_path p) m False w1))"
        using "1.IH" [OF False ex no] by (simp add: persists_def)
      moreover have "keeps ?R (make_dir p m)"
        using make_dir_persists by (simp add: keeps_def persists_weaken)
      ultimately show ?thesis using no by (simp only: if_False) (rule per.bnd_step; simp add: keepsD)
    qed
    have "?R w (snd (fs_exists p w))" using keepsD [OF keeps_persists [OF fs_exists_keeps]] .
    then show ?thesis
      unfolding EnsureDirImpl.simps [of p] using False branch
      by (simp only: if_False) (rule per.bnd_step; simp)
  qed (simp add: EnsureDirImpl.simps persists_def)
qed

lemma EnsureDir_persists: "keeps (persists (\<lambda>k. k = path_key p)) (EnsureDir p m)"
  using EnsureDirImpl_persists [of True] by (simp add: keeps_def EnsureDir_def)

lemma WriteTextFile_persists: "keeps (persists (\<lambda>k. k = path_key p)) (WriteTextFile p s fm pm)"
proof -
  let ?R = "persists (\<lambda>k. k = path_key p)"
  have up: "keeps ?R (EnsureDirImpl (parent_path p) pm False)"
    using EnsureDirImpl_persists [of False] by (simp add: keeps_def persists_def)
  have rest: "keeps ?R (bnd (sys_open_write p fm) (\<lambda>e.
     if e \<noteq> 0 then ThrowErrno (''open('' @ p @ '')'') e
     else
       bnd (catch_exn
              (bnd (WriteAllFd (path_key p) s) (\<lambda>_.
               bnd (sys_fchmod (path_key p) fm) (\<lambda>e.
               if e \<noteq> 0 then ThrowErrno (''fchmod('' @ p @ '')'') e else ret ())))
              (\<lambda>x. bnd sys_close (\<lambda>_. raise x))) (\<lambda>_.
       bnd sys_close (\<lambda>e.
       if e \<noteq> 0 then ThrowErrno (''close('' @ p @ '')'') e else ret ()))))"
    by (rule keeps_persists) (intro frame_intros; simp)
  show ?thesis unfolding WriteTextFile_def by (rule per.bnd_keeps [OF up rest])
qed

section \<open>Evaluation\<close>

text \<open>Code equations that wait for the state an action runs on, so that an evaluation follows the run.\<close>

lemmas files_code [code] =
  fun_cong [OF chmod_dir_def] fun_cong [OF found_dir_def] fun_cong [OF make_dir_def] fun_cong [OF EnsureDir_def]
  fun_cong [OF ReadTextFile_def] fun_cong [OF WriteTextFile_def] fun_cong [OF PathExists_def]
  fun_cong [OF RemoveTree_def] fun_cong [OF IsPathBeneath_def] fun_cong [OF fs_copy_def] fun_cong [OF CopyTree_def]
  fun_cong [OF tree_entries_def] fun_cong [OF chown_one_def] fun_cong [OF ChownTree_def] fun_cong [OF chmod_one_def]
  fun_cong [OF SetTreePermissions_def] fun_cong [OF DirectoryTreeSizeBytes_def]

end
