(* ===== verification/Store.thy ===== *)
theory Store
  imports Files
begin

text \<open>
  The metadata store of \<^verbatim>\<open>store.h\<close> and \<^verbatim>\<open>store.cc\<close>: job and checkpoint records, the layout of the
  private and the exported tree, and the operations that save, load, list and remove records. A
  \<^verbatim>\<open>Store\<close> object is its state root.

  The results: a record that was saved loads back unchanged; the private directories have mode
  0700 and metadata files 0600; every operation stays within the tree of one user, so users cannot
  see or disturb each other's records; removing a checkpoint removes exactly its two directories.
\<close>

section \<open>Records\<close>

record JobRecord =
  job_id :: string
  owner_uid :: uid_t
  owner_gid :: gid_t
  job_pid :: pid_t
  start_time_ticks :: string
  executable :: string
  job_cwd :: string
  command_line :: string
  job_state :: string
  job_created_at :: string
  latest_checkpoint :: string

record CheckpointRecord =
  checkpoint_id :: string
  ck_job_id :: string
  ck_state :: string
  ck_created_at :: string
  last_restored_at :: string
  restore_count :: string
  size_bytes :: string
  dump_log :: string
  restore_log :: string
  restored_pid :: string

definition CurrentTimestamp :: "string io" where
  "CurrentTimestamp = bnd sys (\<lambda>_. bnd (answer k_time) (\<lambda>t. ret (show_int t)))"

definition ParseJobRecord :: "kv_map \<Rightarrow> exn + JobRecord" where
  "ParseJobRecord data =
     try_bind (kv_at data ''job_id'') (\<lambda>jid.
     try_bind (try_bind (kv_at data ''owner_uid'') stoul) (\<lambda>uid.
     try_bind (try_bind (kv_at data ''owner_gid'') stoul) (\<lambda>gid.
     try_bind (try_bind (kv_at data ''pid'') stol) (\<lambda>pid.
     try_bind (kv_at data ''executable'') (\<lambda>exe.
     try_bind (kv_at data ''cwd'') (\<lambda>cwd.
     try_bind (kv_at data ''command_line'') (\<lambda>cmd.
     try_bind (kv_at data ''state'') (\<lambda>st.
     try_bind (kv_at data ''created_at'') (\<lambda>created.
     Inr \<lparr>job_id = jid, owner_uid = ucast uid, owner_gid = ucast gid, job_pid = of_int pid,
       start_time_ticks = kv_find data ''start_time_ticks'', executable = exe, job_cwd = cwd,
       command_line = cmd, job_state = st, job_created_at = created,
       latest_checkpoint = kv_find data ''latest_checkpoint''\<rparr>)))))))))"

definition ParseCheckpointRecord :: "kv_map \<Rightarrow> exn + CheckpointRecord" where
  "ParseCheckpointRecord data =
     try_bind (kv_at data ''checkpoint_id'') (\<lambda>cid.
     try_bind (kv_at data ''job_id'') (\<lambda>jid.
     try_bind (kv_at data ''state'') (\<lambda>st.
     try_bind (kv_at data ''created_at'') (\<lambda>created.
     try_bind (kv_at data ''dump_log'') (\<lambda>dlog.
     try_bind (kv_at data ''restore_log'') (\<lambda>rlog.
     Inr \<lparr>checkpoint_id = cid, ck_job_id = jid, ck_state = st, ck_created_at = created,
       last_restored_at = kv_find data ''last_restored_at'',
       restore_count = kv_find data ''restore_count'', size_bytes = kv_find data ''size_bytes'',
       dump_log = dlog, restore_log = rlog, restored_pid = kv_find data ''restored_pid''\<rparr>))))))"

text \<open>The metadata maps of \<^verbatim>\<open>SaveJob\<close> and \<^verbatim>\<open>SaveCheckpoint\<close>.\<close>

definition job_data :: "JobRecord \<Rightarrow> (string \<times> string) list" where
  "job_data job =
     [(''job_id'', job_id job), (''owner_uid'', UidToString (owner_uid job)),
      (''owner_gid'', GidToString (owner_gid job)), (''pid'', PidToString (job_pid job)),
      (''start_time_ticks'', start_time_ticks job), (''executable'', executable job),
      (''cwd'', job_cwd job), (''command_line'', command_line job), (''state'', job_state job),
      (''created_at'', job_created_at job), (''latest_checkpoint'', latest_checkpoint job)]"

definition checkpoint_data :: "CheckpointRecord \<Rightarrow> (string \<times> string) list" where
  "checkpoint_data c =
     [(''checkpoint_id'', checkpoint_id c), (''job_id'', ck_job_id c), (''state'', ck_state c),
      (''created_at'', ck_created_at c), (''last_restored_at'', last_restored_at c),
      (''restore_count'', restore_count c), (''size_bytes'', size_bytes c),
      (''dump_log'', dump_log c), (''restore_log'', restore_log c), (''restored_pid'', restored_pid c)]"

section \<open>Layout\<close>

definition UserDir :: "path \<Rightarrow> uid_t \<Rightarrow> path" where
  "UserDir root uid = path_append root (UidToString uid)"

definition JobsDir :: "path \<Rightarrow> uid_t \<Rightarrow> path" where
  "JobsDir root uid = path_append (UserDir root uid) ''jobs''"

definition ExportsDir :: "path \<Rightarrow> uid_t \<Rightarrow> path" where
  "ExportsDir root uid = path_append (UserDir root uid) ''exports''"

definition JobDir :: "path \<Rightarrow> uid_t \<Rightarrow> string \<Rightarrow> exn + path" where
  "JobDir root uid jid =
     try_bind (RequireSafeId jid ''job_id'') (\<lambda>_. Inr (path_append (JobsDir root uid) jid))"

definition JobMetaPath :: "path \<Rightarrow> uid_t \<Rightarrow> string \<Rightarrow> exn + path" where
  "JobMetaPath root uid jid = try_bind (JobDir root uid jid) (\<lambda>d. Inr (path_append d ''job.meta''))"

definition CheckpointsDir :: "path \<Rightarrow> uid_t \<Rightarrow> string \<Rightarrow> exn + path" where
  "CheckpointsDir root uid jid = try_bind (JobDir root uid jid) (\<lambda>d. Inr (path_append d ''checkpoints''))"

definition CheckpointDir :: "path \<Rightarrow> uid_t \<Rightarrow> string \<Rightarrow> string \<Rightarrow> exn + path" where
  "CheckpointDir root uid jid cid =
     try_bind (RequireSafeId cid ''checkpoint_id'') (\<lambda>_.
     try_bind (CheckpointsDir root uid jid) (\<lambda>d. Inr (path_append d cid)))"

definition CheckpointMetaPath :: "path \<Rightarrow> uid_t \<Rightarrow> string \<Rightarrow> string \<Rightarrow> exn + path" where
  "CheckpointMetaPath root uid jid cid =
     try_bind (CheckpointDir root uid jid cid) (\<lambda>d. Inr (path_append d ''checkpoint.meta''))"

definition ExportCheckpointDir :: "path \<Rightarrow> uid_t \<Rightarrow> string \<Rightarrow> string \<Rightarrow> exn + path" where
  "ExportCheckpointDir root uid jid cid =
     try_bind (RequireSafeId jid ''job_id'') (\<lambda>_.
     try_bind (RequireSafeId cid ''checkpoint_id'') (\<lambda>_.
     Inr (path_append (path_append (ExportsDir root uid) jid) cid)))"

section \<open>Operations\<close>

definition Initialize :: "path \<Rightarrow> unit io" where
  "Initialize root = EnsureDir root 0x1ED"

definition CreateJob ::
  "uid_t \<Rightarrow> gid_t \<Rightarrow> pid_t \<Rightarrow> string \<Rightarrow> string \<Rightarrow> string \<Rightarrow> string \<Rightarrow> JobRecord io" where
  "CreateJob uid gid pid ticks exe cwd cmd =
     bnd (GenerateId ''job'') (\<lambda>jid.
     bnd CurrentTimestamp (\<lambda>now.
     ret \<lparr>job_id = jid, owner_uid = uid, owner_gid = gid, job_pid = pid, start_time_ticks = ticks,
       executable = exe, job_cwd = cwd, command_line = cmd, job_state = ''running'',
       job_created_at = now, latest_checkpoint = []\<rparr>))"

definition SaveJob :: "path \<Rightarrow> JobRecord \<Rightarrow> unit io" where
  "SaveJob root job =
     bnd (lift_sum (RequireSafeId (job_id job) ''job_id'')) (\<lambda>_.
     bnd (EnsureDir (UserDir root (owner_uid job)) 0x1ED) (\<lambda>_.
     bnd (EnsureDir (JobsDir root (owner_uid job)) 0x1C0) (\<lambda>_.
     bnd (lift_sum (JobDir root (owner_uid job) (job_id job))) (\<lambda>d.
     bnd (EnsureDir d 0x1C0) (\<lambda>_.
     bnd (lift_sum (JobMetaPath root (owner_uid job) (job_id job))) (\<lambda>p.
     bnd (lift_sum (SerializeKeyValueMap (kv_of (job_data job)))) (\<lambda>content.
     WriteTextFile p content 0x180 0x1C0)))))))"

definition load_meta :: "(kv_map \<Rightarrow> exn + 'r) \<Rightarrow> path \<Rightarrow> 'r io" where
  "load_meta parse p = bnd (ReadTextFile p) (\<lambda>content. lift_sum (try_bind (ParseKeyValueText content) parse))"

definition LoadJob :: "path \<Rightarrow> uid_t \<Rightarrow> string \<Rightarrow> JobRecord io" where
  "LoadJob root uid jid =
     bnd (lift_sum (JobMetaPath root uid jid)) (\<lambda>p.
     bnd (PathExists p) (\<lambda>ex.
     if \<not> ex then raise (RuntimeError (''job not found: '' @ jid))
     else load_meta ParseJobRecord p))"

definition ListUsers :: "path \<Rightarrow> uid_t list io" where
  "ListUsers root =
     bnd (PathExists root) (\<lambda>ex.
     if \<not> ex then ret []
     else bnd (directory_entries root) (\<lambda>es.
       ret (List.map_filter (\<lambda>(name, isdir).
         if \<not> isdir then None
         else (case stoul name of Inr u \<Rightarrow> Some (ucast u) | Inl _ \<Rightarrow> None)) es)))"

definition ListJobs :: "path \<Rightarrow> uid_t \<Rightarrow> JobRecord list io" where
  "ListJobs root uid =
     bnd (PathExists (JobsDir root uid)) (\<lambda>ex.
     if \<not> ex then ret []
     else bnd (directory_entries (JobsDir root uid)) (\<lambda>es.
       bnd (collect (\<lambda>(name, isdir).
         if \<not> isdir then ret None
         else bnd (lift_sum (JobMetaPath root uid name)) (\<lambda>p.
           bnd (PathExists p) (\<lambda>ex.
           if \<not> ex then ret None
           else bnd (load_meta ParseJobRecord p) (\<lambda>j. ret (Some j))))) es) (\<lambda>rs.
       ret (List.map_filter id rs))))"

definition CreateCheckpoint :: "path \<Rightarrow> JobRecord \<Rightarrow> CheckpointRecord io" where
  "CreateCheckpoint root job =
     bnd (GenerateId ''ckpt'') (\<lambda>cid.
     bnd CurrentTimestamp (\<lambda>now.
     bnd (EnsureDir (UserDir root (owner_uid job)) 0x1ED) (\<lambda>_.
     bnd (EnsureDir (JobsDir root (owner_uid job)) 0x1C0) (\<lambda>_.
     bnd (lift_sum (JobDir root (owner_uid job) (job_id job))) (\<lambda>jd.
     bnd (EnsureDir jd 0x1C0) (\<lambda>_.
     bnd (lift_sum (CheckpointsDir root (owner_uid job) (job_id job))) (\<lambda>csd.
     bnd (EnsureDir csd 0x1C0) (\<lambda>_.
     bnd (lift_sum (CheckpointDir root (owner_uid job) (job_id job) cid)) (\<lambda>cd.
     bnd (EnsureDir (path_append cd ''images'') 0x1C0) (\<lambda>_.
     bnd (EnsureDir (path_append cd ''work'') 0x1C0) (\<lambda>_.
     bnd (EnsureDir (path_append cd ''logs'') 0x1C0) (\<lambda>_.
     ret \<lparr>checkpoint_id = cid, ck_job_id = job_id job, ck_state = ''created'', ck_created_at = now,
       last_restored_at = [], restore_count = ''0'', size_bytes = ''0'',
       dump_log = path_append (path_append cd ''logs'') ''dump.log'',
       restore_log = path_append (path_append cd ''logs'') ''restore.log'', restored_pid = []\<rparr>))))))))))))"

definition SaveCheckpoint :: "path \<Rightarrow> JobRecord \<Rightarrow> CheckpointRecord \<Rightarrow> unit io" where
  "SaveCheckpoint root job c =
     bnd (lift_sum (RequireSafeId (checkpoint_id c) ''checkpoint_id'')) (\<lambda>_.
     bnd (lift_sum (CheckpointDir root (owner_uid job) (job_id job) (checkpoint_id c))) (\<lambda>cd.
     bnd (EnsureDir cd 0x1C0) (\<lambda>_.
     bnd (lift_sum (CheckpointMetaPath root (owner_uid job) (job_id job) (checkpoint_id c))) (\<lambda>p.
     bnd (lift_sum (SerializeKeyValueMap (kv_of (checkpoint_data c)))) (\<lambda>content.
     WriteTextFile p content 0x180 0x1C0)))))"

definition LoadCheckpoint :: "path \<Rightarrow> JobRecord \<Rightarrow> string \<Rightarrow> CheckpointRecord io" where
  "LoadCheckpoint root job cid =
     bnd (lift_sum (CheckpointMetaPath root (owner_uid job) (job_id job) cid)) (\<lambda>p.
     bnd (PathExists p) (\<lambda>ex.
     if \<not> ex then raise (RuntimeError (''checkpoint not found: '' @ cid))
     else load_meta ParseCheckpointRecord p))"

definition ListCheckpoints :: "path \<Rightarrow> JobRecord \<Rightarrow> CheckpointRecord list io" where
  "ListCheckpoints root job =
     bnd (lift_sum (CheckpointsDir root (owner_uid job) (job_id job))) (\<lambda>d.
     bnd (PathExists d) (\<lambda>ex.
     if \<not> ex then ret []
     else bnd (directory_entries d) (\<lambda>es.
       bnd (collect (\<lambda>(name, isdir).
         if \<not> isdir then ret None
         else bnd (lift_sum (CheckpointMetaPath root (owner_uid job) (job_id job) name)) (\<lambda>p.
           bnd (PathExists p) (\<lambda>ex.
           if \<not> ex then ret None
           else bnd (load_meta ParseCheckpointRecord p) (\<lambda>c. ret (Some c))))) es) (\<lambda>rs.
       ret (List.map_filter id rs)))))"

definition RemoveCheckpoint :: "path \<Rightarrow> JobRecord \<Rightarrow> CheckpointRecord \<Rightarrow> unit io" where
  "RemoveCheckpoint root job c =
     bnd (lift_sum (CheckpointDir root (owner_uid job) (job_id job) (checkpoint_id c))) (\<lambda>cd.
     bnd (RemoveTree cd) (\<lambda>_.
     bnd (lift_sum (ExportCheckpointDir root (owner_uid job) (job_id job) (checkpoint_id c))) (\<lambda>ed.
     bnd (PathExists ed) (\<lambda>ex. if ex then RemoveTree ed else ret ()))))"

definition ResolveCheckpointId :: "JobRecord \<Rightarrow> string \<Rightarrow> exn + string" where
  "ResolveCheckpointId job requested =
     (if requested \<noteq> [] then
        try_bind (RequireSafeId requested ''checkpoint_id'') (\<lambda>_. Inr requested)
      else if latest_checkpoint job = [] then Inl (RuntimeError ''job has no checkpoint'')
      else try_bind (RequireSafeId (latest_checkpoint job) ''checkpoint_id'') (\<lambda>_.
        Inr (latest_checkpoint job)))"

definition AuthorizeJobAccess :: "JobRecord \<Rightarrow> uid_t \<Rightarrow> exn + unit" where
  "AuthorizeJobAccess job peer =
     (if owner_uid job \<noteq> peer then Inl (RuntimeError ''job belongs to another uid'') else Inr ())"

section \<open>Sample records\<close>

definition sample_job :: JobRecord where
  "sample_job = \<lparr>job_id = ''job-1'', owner_uid = 7, owner_gid = 7, job_pid = 42, start_time_ticks = ''99'',
     executable = ''/bin/sh'', job_cwd = ''/'', command_line = ''sh'', job_state = ''running'',
     job_created_at = ''5'', latest_checkpoint = ''ckpt-1''\<rparr>"

definition sample_checkpoint :: CheckpointRecord where
  "sample_checkpoint = \<lparr>checkpoint_id = ''ckpt-1'', ck_job_id = ''job-1'', ck_state = ''ready'',
     ck_created_at = ''6'', last_restored_at = [], restore_count = ''0'', size_bytes = ''12'',
     dump_log = ''/s/d.log'', restore_log = ''/s/r.log'', restored_pid = []\<rparr>"

section \<open>Keys of the layout\<close>

definition user_key :: "path \<Rightarrow> uid_t \<Rightarrow> key" where
  "user_key root uid = path_key root @ [UidToString uid]"

definition job_key :: "path \<Rightarrow> uid_t \<Rightarrow> string \<Rightarrow> key" where
  "job_key root uid jid = user_key root uid @ [''jobs'', jid]"

definition checkpoint_key :: "path \<Rightarrow> uid_t \<Rightarrow> string \<Rightarrow> string \<Rightarrow> key" where
  "checkpoint_key root uid jid cid = job_key root uid jid @ [''checkpoints'', cid]"

definition export_key :: "path \<Rightarrow> uid_t \<Rightarrow> string \<Rightarrow> string \<Rightarrow> key" where
  "export_key root uid jid cid = user_key root uid @ [''exports'', jid, cid]"

lemmas layout_keys = user_key_def job_key_def checkpoint_key_def export_key_def

lemma UserDir_key [simp]: "path_key (UserDir root uid) = user_key root uid"
  by (simp add: UserDir_def user_key_def)

lemma JobsDir_key [simp]: "path_key (JobsDir root uid) = user_key root uid @ [''jobs'']"
  by (simp add: JobsDir_def)

lemma ExportsDir_key [simp]: "path_key (ExportsDir root uid) = user_key root uid @ [''exports'']"
  by (simp add: ExportsDir_def)

lemma JobDir_Inr: "JobDir root uid jid = Inr d \<longleftrightarrow> IsSafeId jid \<and> d = path_append (JobsDir root uid) jid"
  by (auto simp: JobDir_def try_bind_eq_Inr)

lemma JobDir_key: "JobDir root uid jid = Inr d \<Longrightarrow> path_key d = job_key root uid jid"
  by (auto simp: JobDir_Inr job_key_def)

lemma JobMetaPath_key: "JobMetaPath root uid jid = Inr p \<Longrightarrow> path_key p = job_key root uid jid @ [''job.meta'']"
  by (auto simp: JobMetaPath_def try_bind_eq_Inr dest: JobDir_key)

lemma CheckpointsDir_key:
  "CheckpointsDir root uid jid = Inr d \<Longrightarrow> path_key d = job_key root uid jid @ [''checkpoints'']"
  by (auto simp: CheckpointsDir_def try_bind_eq_Inr dest: JobDir_key)

lemma CheckpointDir_key:
  "CheckpointDir root uid jid cid = Inr d \<Longrightarrow> path_key d = checkpoint_key root uid jid cid"
  by (auto simp: CheckpointDir_def try_bind_eq_Inr checkpoint_key_def dest: CheckpointsDir_key)

lemma CheckpointMetaPath_key:
  "CheckpointMetaPath root uid jid cid = Inr p \<Longrightarrow>
     path_key p = checkpoint_key root uid jid cid @ [''checkpoint.meta'']"
  by (auto simp: CheckpointMetaPath_def try_bind_eq_Inr dest: CheckpointDir_key)

lemma ExportCheckpointDir_key:
  "ExportCheckpointDir root uid jid cid = Inr d \<Longrightarrow> path_key d = export_key root uid jid cid"
  by (auto simp: ExportCheckpointDir_def try_bind_eq_Inr export_key_def)

section \<open>Metadata codecs\<close>

text \<open>
  What both kinds of records promise: their metadata map has distinct keys and parses back. Then
  metadata text that could be serialized loads as the same record.
\<close>

locale meta_codec =
  fixes data :: "'r \<Rightarrow> (string \<times> string) list"
    and parse :: "kv_map \<Rightarrow> exn + 'r"
  assumes keys: "distinct (map fst (data r))"
    and parse_data: "\<forall>k. map_of m k = map_of (data r) k \<Longrightarrow> parse m = Inr r"
begin

lemma reparse: "SerializeKeyValueMap (kv_of (data r)) = Inr s \<Longrightarrow> try_bind (ParseKeyValueText s) parse = Inr r"
  using ParseKeyValueText_serialized [OF _ kv_of_sorted] parse_data [of "kv_of (data r)" r]
  by (simp add: kv_of_map keys)

lemma load_written:
  assumes w: "WriteTextFile p s fm pm w = (Inr (), w1)"
    and s: "SerializeKeyValueMap (kv_of (data r)) = Inr s"
    and key: "path_key p \<noteq> []" "take 1 (path_key p) \<noteq> [''proc'']"
    and v: "faultless v" "fs_get (w_files v) (path_key p) = fs_get (w_files w1) (path_key p)"
  shows "\<exists>w2. load_meta parse p v = (Inr r, w2) \<and> outside (\<lambda>_. False) v w2"
proof -
  obtain n where n: "fs_get (w_files v) (path_key p) = Some n" "n_kind n = Regular" "n_data n = s"
    using WriteTextFile_done [OF w key(1)] v(2) by auto
  then show ?thesis
    using ReadTextFile_ok [OF v(1) key(2)] reparse [OF s] by (auto simp: load_meta_def bnd_apply)
qed

end

lemma uid_reparse: "stoul (UidToString u) = Inr (ucast u)"
  by (simp add: stoul_def UidToString_def parse_unsigned_show_32)

lemma gid_reparse: "stoul (GidToString g) = Inr (ucast g)"
  using uid_reparse by (simp add: UidToString_def GidToString_def)

lemma ucast_ucast_id: "ucast (ucast (u :: 32 word) :: 64 word) = u"
  by (simp add: ucast_up_ucast_id is_up)

interpretation job_meta: meta_codec job_data ParseJobRecord
proof unfold_locales
  fix m :: kv_map and r :: JobRecord
  assume m: "\<forall>k. map_of m k = map_of (job_data r) k"
  show "ParseJobRecord m = Inr r"
    using m by (simp add: ParseJobRecord_def kv_at_def kv_find_def job_data_def uid_reparse gid_reparse
        pid_roundtrip ucast_ucast_id)
qed (simp add: job_data_def)

interpretation checkpoint_meta: meta_codec checkpoint_data ParseCheckpointRecord
proof unfold_locales
  fix m :: kv_map and r :: CheckpointRecord
  assume m: "\<forall>k. map_of m k = map_of (checkpoint_data r) k"
  show "ParseCheckpointRecord m = Inr r"
    using m by (simp add: ParseCheckpointRecord_def kv_at_def kv_find_def checkpoint_data_def)
qed (simp add: checkpoint_data_def)

section \<open>Where the operations write\<close>

lemma CurrentTimestamp_keeps [frame_intros]: "keeps (outside K) CurrentTimestamp"
  unfolding CurrentTimestamp_def by (intro frame_intros)

lemma CreateJob_keeps [frame_intros]: "keeps (outside K) (CreateJob u g p t e c l)"
  unfolding CreateJob_def by (intro frame_intros)

lemma load_meta_keeps [frame_intros]: "keeps (outside K) (load_meta parse p)"
  unfolding load_meta_def by (intro frame_intros)

lemma LoadJob_keeps [frame_intros]: "keeps (outside K) (LoadJob root uid jid)"
  unfolding LoadJob_def by (intro frame_intros)

lemma LoadCheckpoint_keeps [frame_intros]: "keeps (outside K) (LoadCheckpoint root job cid)"
  unfolding LoadCheckpoint_def by (intro frame_intros)

lemma ListUsers_keeps [frame_intros]: "keeps (outside K) (ListUsers root)"
  unfolding ListUsers_def by (intro frame_intros)

lemma ListJobs_keeps [frame_intros]: "keeps (outside K) (ListJobs root uid)"
  unfolding ListJobs_def by (intro frame_intros)

lemma ListCheckpoints_keeps [frame_intros]: "keeps (outside K) (ListCheckpoints root job)"
  unfolding ListCheckpoints_def by (intro frame_intros)

lemma prefix_appendI: "prefix k a \<Longrightarrow> prefix k (a @ b)"
  by (auto simp: prefix_def)

text \<open>The path rules below ask only for the place of the named file.\<close>

lemma writes_above:
  assumes "\<forall>k. prefix k a \<longrightarrow> K k"
  shows "prefix (path_key p) a \<Longrightarrow> keeps (outside K) (EnsureDir p m)"
    and "prefix (path_key p) a \<Longrightarrow> keeps (outside K) (WriteTextFile p s fm pm)"
  using assms prefix_order.order_trans by (blast intro: EnsureDir_keeps WriteTextFile_keeps)+

lemma SaveJob_keeps:
  assumes K: "\<forall>k. prefix k (job_key root (owner_uid job) (job_id job) @ [''job.meta'']) \<longrightarrow> K k"
  shows "keeps (outside K) (SaveJob root job)"
  unfolding SaveJob_def
  by (intro out.lift_bnd_keeps writes_above [OF K] frame_intros)
    (auto simp: job_key_def dest!: JobDir_key JobMetaPath_key)

lemma SaveCheckpoint_keeps:
  assumes K: "\<forall>k. prefix k (checkpoint_key root (owner_uid job) (job_id job) (checkpoint_id c)
    @ [''checkpoint.meta'']) \<longrightarrow> K k"
  shows "keeps (outside K) (SaveCheckpoint root job c)"
  unfolding SaveCheckpoint_def
  by (intro out.lift_bnd_keeps writes_above [OF K] frame_intros)
    (auto dest!: CheckpointDir_key CheckpointMetaPath_key)

text \<open>A user's zone: the user's directory, what is below it, and the directories above it.\<close>

definition user_zone :: "path \<Rightarrow> uid_t \<Rightarrow> key \<Rightarrow> bool" where
  "user_zone root uid k = near (user_key root uid) k"

lemma user_zone_below: "prefix k (user_key root uid @ r) \<Longrightarrow> user_zone root uid k"
  by (auto simp: user_zone_def near_def prefix_append)

lemma CreateCheckpoint_keeps: "keeps (outside (user_zone root (owner_uid job))) (CreateCheckpoint root job)"
  unfolding CreateCheckpoint_def
  by (intro out.lift_bnd_keeps frame_intros)
    (auto simp: layout_keys dest!: JobDir_key CheckpointsDir_key CheckpointDir_key
      intro: user_zone_below [of _ root _ "[]"] user_zone_below simp flip: user_key_def)

lemma RemoveCheckpoint_keeps:
  assumes "\<forall>k. prefix (checkpoint_key root (owner_uid job) (job_id job) (checkpoint_id c)) k
    \<or> prefix (export_key root (owner_uid job) (job_id job) (checkpoint_id c)) k \<longrightarrow> K k"
  shows "keeps (outside K) (RemoveCheckpoint root job c)"
  unfolding RemoveCheckpoint_def
  by (intro out.lift_bnd_keeps frame_intros)
    (use assms in \<open>auto dest!: CheckpointDir_key ExportCheckpointDir_key\<close>)

lemma user_zones_apart:
  assumes "user_zone root u k" and "prefix (user_key root v) k" and "u \<noteq> v"
  shows False
  using assms
  by (auto simp: user_zone_def near_def user_key_def prefix_def append_eq_append_conv2 Cons_eq_append_conv)

section \<open>Reading back\<close>

lemma uid_not_proc: "UidToString u \<noteq> ''proc''"
proof
  assume "UidToString u = ''proc''"
  then have "CHR ''p'' \<in> set (show_nat (unat u))" by (simp add: UidToString_def)
  then have "isdigit (CHR ''p'')" using show_nat_digits by blast
  then show False by (simp add: isdigit_def)
qed

lemma user_key_not_proc: "take 1 (path_key root) \<noteq> [''proc''] \<Longrightarrow> take 1 (user_key root u @ r) \<noteq> [''proc'']"
  using uid_not_proc [of u] by (cases "path_key root") (auto simp: user_key_def)

lemma SaveJob_InrE:
  assumes "SaveJob root job w = (Inr (), w1)"
  obtains p s wa wb wc where "JobMetaPath root (owner_uid job) (job_id job) = Inr p"
    and "path_key p = job_key root (owner_uid job) (job_id job) @ [''job.meta'']"
    and "SerializeKeyValueMap (kv_of (job_data job)) = Inr s"
    and "EnsureDir (UserDir root (owner_uid job)) 0x1ED w = (Inr (), wa)"
    and "EnsureDir (JobsDir root (owner_uid job)) 0x1C0 wa = (Inr (), wb)"
    and "EnsureDir (path_append (JobsDir root (owner_uid job)) (job_id job)) 0x1C0 wb = (Inr (), wc)"
    and "WriteTextFile p s 0x180 0x1C0 wc = (Inr (), w1)"
  using assms unfolding SaveJob_def
  by (auto simp: bnd_Inr_iff JobDir_Inr JobMetaPath_key)

lemma SaveCheckpoint_InrE:
  assumes "SaveCheckpoint root job c w = (Inr (), w1)"
  obtains p s w0 where "CheckpointMetaPath root (owner_uid job) (job_id job) (checkpoint_id c) = Inr p"
    and "path_key p = checkpoint_key root (owner_uid job) (job_id job) (checkpoint_id c) @ [''checkpoint.meta'']"
    and "SerializeKeyValueMap (kv_of (checkpoint_data c)) = Inr s"
    and "WriteTextFile p s 0x180 0x1C0 w0 = (Inr (), w1)"
  using assms unfolding SaveCheckpoint_def
  by (auto simp: bnd_Inr_iff CheckpointMetaPath_key)

lemma PathExists_present:
  "faultless v \<Longrightarrow> fs_get (w_files v) (path_key p) \<noteq> None \<Longrightarrow>
     \<exists>v1. PathExists p v = (Inr True, v1) \<and> faultless v1 \<and> fs_get (w_files v1) = fs_get (w_files v)"
  using PathExists_ok [of v p] outside_faultless outside_none by metis

lemma load_saved_job:
  assumes saved: "SaveJob root job w = (Inr (), w1)"
    and kept: "fs_get (w_files v) (job_key root (owner_uid job) (job_id job) @ [''job.meta''])
      = fs_get (w_files w1) (job_key root (owner_uid job) (job_id job) @ [''job.meta''])"
    and calm: "faultless v" and root: "take 1 (path_key root) \<noteq> [''proc'']"
  shows "\<exists>v1. LoadJob root (owner_uid job) (job_id job) v = (Inr job, v1)"
proof -
  obtain p s w0 where p: "JobMetaPath root (owner_uid job) (job_id job) = Inr p"
    and key: "path_key p = job_key root (owner_uid job) (job_id job) @ [''job.meta'']"
    and s: "SerializeKeyValueMap (kv_of (job_data job)) = Inr s"
    and w: "WriteTextFile p s 0x180 0x1C0 w0 = (Inr (), w1)"
    by (rule SaveJob_InrE [OF saved]) (rule that)
  have ne: "path_key p \<noteq> []" "take 1 (path_key p) \<noteq> [''proc'']"
    using key user_key_not_proc [OF root] by (auto simp: job_key_def)
  have "fs_get (w_files v) (path_key p) \<noteq> None"
    using WriteTextFile_done [OF w ne(1)] kept key by auto
  then obtain v1 where v1: "PathExists p v = (Inr True, v1)" "faultless v1"
    "fs_get (w_files v1) = fs_get (w_files v)"
    using PathExists_present [OF calm] by blast
  have "\<exists>w2. load_meta ParseJobRecord p v1 = (Inr job, w2) \<and> outside (\<lambda>_. False) v1 w2"
    by (rule job_meta.load_written [OF w s ne v1(2)]) (use v1 kept key in simp)
  then show ?thesis using p v1 by (auto simp: LoadJob_def bnd_apply)
qed

text \<open>C15: Saving a job and loading it back gives the same record: if \<^verbatim>\<open>SaveJob\<close> returned normally,
  whatever faults happened on the way, then \<^verbatim>\<open>LoadJob\<close> for its owner returns exactly that record
  (all ids at their 32-bit width, the signed pid included) in every later world in which the
  metadata file is still the one that was written and reads do not fail.\<close>

theorem save_load_job:
  assumes saved: "SaveJob root job w = (Inr (), w1)"
    and kept: "fs_get (w_files v) (job_key root (owner_uid job) (job_id job) @ [''job.meta''])
      = fs_get (w_files w1) (job_key root (owner_uid job) (job_id job) @ [''job.meta''])"
    and calm: "faultless v" and root: "take 1 (path_key root) \<noteq> [''proc'']"
  shows "\<exists>v1. LoadJob root (owner_uid job) (job_id job) v = (Inr job, v1)"
  by (rule load_saved_job [OF assms])

theorem save_load_job_witness:
  "\<exists>v1. LoadJob ''/s'' 7 ''job-1'' (snd (SaveJob ''/s'' sample_job (sample_world\<lparr>w_script := [Fail EINTR, Ok]\<rparr>)))
     = (Inr sample_job, v1)"
proof -
  let ?w = "sample_world\<lparr>w_script := [Fail EINTR, Ok]\<rparr>"
  have 1: "SaveJob ''/s'' sample_job ?w = (Inr (), snd (SaveJob ''/s'' sample_job ?w))"
    by (rule prod_eqI) (code_simp, simp)
  have 2: "faultless (snd (SaveJob ''/s'' sample_job ?w))" by code_simp
  have 3: "take 1 (path_key ''/s'') \<noteq> [''proc'']" by code_simp
  show ?thesis using save_load_job [OF 1 refl 2 3] by (simp add: sample_job_def)
qed

lemma load_saved_checkpoint:
  assumes saved: "SaveCheckpoint root job c w = (Inr (), w1)"
    and kept: "fs_get (w_files v) (checkpoint_key root (owner_uid job) (job_id job) (checkpoint_id c)
        @ [''checkpoint.meta''])
      = fs_get (w_files w1) (checkpoint_key root (owner_uid job) (job_id job) (checkpoint_id c)
        @ [''checkpoint.meta''])"
    and calm: "faultless v" and root: "take 1 (path_key root) \<noteq> [''proc'']"
  shows "\<exists>v1. LoadCheckpoint root job (checkpoint_id c) v = (Inr c, v1)"
proof -
  obtain p s w0 where p: "CheckpointMetaPath root (owner_uid job) (job_id job) (checkpoint_id c) = Inr p"
    and key: "path_key p = checkpoint_key root (owner_uid job) (job_id job) (checkpoint_id c)
      @ [''checkpoint.meta'']"
    and s: "SerializeKeyValueMap (kv_of (checkpoint_data c)) = Inr s"
    and w: "WriteTextFile p s 0x180 0x1C0 w0 = (Inr (), w1)"
    by (rule SaveCheckpoint_InrE [OF saved]) (rule that)
  have ne: "path_key p \<noteq> []" "take 1 (path_key p) \<noteq> [''proc'']"
    using key user_key_not_proc [OF root] by (auto simp: job_key_def checkpoint_key_def)
  have "fs_get (w_files v) (path_key p) \<noteq> None"
    using WriteTextFile_done [OF w ne(1)] kept key by auto
  then obtain v1 where v1: "PathExists p v = (Inr True, v1)" "faultless v1"
    "fs_get (w_files v1) = fs_get (w_files v)"
    using PathExists_present [OF calm] by blast
  have "\<exists>w2. load_meta ParseCheckpointRecord p v1 = (Inr c, w2) \<and> outside (\<lambda>_. False) v1 w2"
    by (rule checkpoint_meta.load_written [OF w s ne v1(2)]) (use v1 kept key in simp)
  then show ?thesis using p v1 by (auto simp: LoadCheckpoint_def bnd_apply)
qed

text \<open>C16: Likewise for checkpoints: a checkpoint record that was saved for a job is what
  \<^verbatim>\<open>LoadCheckpoint\<close> returns for that job and id.\<close>

theorem save_load_checkpoint:
  assumes saved: "SaveCheckpoint root job c w = (Inr (), w1)"
    and kept: "fs_get (w_files v) (checkpoint_key root (owner_uid job) (job_id job) (checkpoint_id c)
        @ [''checkpoint.meta''])
      = fs_get (w_files w1) (checkpoint_key root (owner_uid job) (job_id job) (checkpoint_id c)
        @ [''checkpoint.meta''])"
    and calm: "faultless v" and root: "take 1 (path_key root) \<noteq> [''proc'']"
  shows "\<exists>v1. LoadCheckpoint root job (checkpoint_id c) v = (Inr c, v1)"
  by (rule load_saved_checkpoint [OF assms])

theorem save_load_checkpoint_witness:
  "\<exists>v1. LoadCheckpoint ''/s'' sample_job ''ckpt-1''
       (snd (SaveCheckpoint ''/s'' sample_job sample_checkpoint sample_world)) = (Inr sample_checkpoint, v1)"
proof -
  let ?r = "SaveCheckpoint ''/s'' sample_job sample_checkpoint sample_world"
  have 1: "?r = (Inr (), snd ?r)" by (rule prod_eqI) (code_simp, simp)
  have 2: "faultless (snd ?r)" by code_simp
  have 3: "take 1 (path_key ''/s'') \<noteq> [''proc'']" by code_simp
  show ?thesis using save_load_checkpoint [OF 1 refl 2 3] by (simp add: sample_checkpoint_def)
qed

text \<open>C35: Saving a job leaves the private tree private: the user's directory is 0755, the directory
  of all jobs and the job's own directory are 0700, and the metadata file is a regular file of
  mode 0600, whatever modes these had before and whatever the umask is.\<close>

theorem save_job_private:
  assumes saved: "SaveJob root job w = (Inr (), w1)" and calm: "faultless w"
  shows "\<exists>u js j m. fs_get (w_files w1) (user_key root (owner_uid job)) = Some u
    \<and> n_kind u = Directory \<and> n_mode u = 0x1ED
    \<and> fs_get (w_files w1) (user_key root (owner_uid job) @ [''jobs'']) = Some js
    \<and> n_kind js = Directory \<and> n_mode js = 0x1C0
    \<and> fs_get (w_files w1) (job_key root (owner_uid job) (job_id job)) = Some j
    \<and> n_kind j = Directory \<and> n_mode j = 0x1C0
    \<and> fs_get (w_files w1) (job_key root (owner_uid job) (job_id job) @ [''job.meta'']) = Some m
    \<and> n_kind m = Regular \<and> n_mode m = 0x180"
proof -
  let ?u = "user_key root (owner_uid job)" and ?j = "job_key root (owner_uid job) (job_id job)"
  let ?jd = "path_append (JobsDir root (owner_uid job)) (job_id job)"
  obtain p s wa wb wc where p: "JobMetaPath root (owner_uid job) (job_id job) = Inr p"
    and key: "path_key p = ?j @ [''job.meta'']"
    and a: "EnsureDir (UserDir root (owner_uid job)) 0x1ED w = (Inr (), wa)"
    and b: "EnsureDir (JobsDir root (owner_uid job)) 0x1C0 wa = (Inr (), wb)"
    and c: "EnsureDir ?jd 0x1C0 wb = (Inr (), wc)"
    and d: "WriteTextFile p s 0x180 0x1C0 wc = (Inr (), w1)"
    by (rule SaveJob_InrE [OF saved]) (rule that)
  have jd: "path_key ?jd = ?j"
    using p by (auto simp: JobMetaPath_def JobDir_def try_bind_eq_Inr job_key_def)
  have fa: "faultless wa" and fb: "faultless wb"
    using outside_faultless keeps_result [OF EnsureDir_keeps [of _ "\<lambda>_. True"]] a b calm by metis+
  have pb: "persists (\<lambda>k. k = ?u @ [''jobs'']) wa wb" and pc: "persists (\<lambda>k. k = ?j) wb wc"
    and pd: "persists (\<lambda>k. k = ?j @ [''job.meta'']) wc w1"
    using keeps_result [OF EnsureDir_persists b] keeps_result [OF EnsureDir_persists c]
      keeps_result [OF WriteTextFile_persists d] jd key by simp_all
  have ne: "?u \<noteq> []" "?u @ [''jobs''] \<noteq> []" "?j \<noteq> []" "?j @ [''job.meta''] \<noteq> []"
    by (simp_all add: user_key_def job_key_def)
  obtain u where u: "fs_get (w_files wa) ?u = Some u" "n_kind u = Directory" "n_mode u = 0x1ED"
    using EnsureDir_done [OF a calm] ne by auto
  obtain js where js: "fs_get (w_files wb) (?u @ [''jobs'']) = Some js" "n_kind js = Directory" "n_mode js = 0x1C0"
    using EnsureDir_done [OF b fa] by auto
  obtain j where j: "fs_get (w_files wc) ?j = Some j" "n_kind j = Directory" "n_mode j = 0x1C0"
    using EnsureDir_done [OF c fb] jd ne by auto
  obtain m where m: "fs_get (w_files w1) (?j @ [''job.meta'']) = Some m" "n_kind m = Regular" "n_mode m = 0x180"
    using WriteTextFile_done [OF d] key by auto
  have "fs_get (w_files wb) ?u = Some u" by (rule persists_get [OF pb _ u(1)]) simp
  then have "fs_get (w_files wc) ?u = Some u" by (rule persists_get [OF pc, rotated]) (simp add: job_key_def)
  then have u1: "fs_get (w_files w1) ?u = Some u" by (rule persists_get [OF pd, rotated]) (simp add: job_key_def)
  have "fs_get (w_files wc) (?u @ [''jobs'']) = Some js"
    by (rule persists_get [OF pc _ js(1)]) (simp add: job_key_def)
  then have js1: "fs_get (w_files w1) (?u @ [''jobs'']) = Some js"
    by (rule persists_get [OF pd, rotated]) (simp add: job_key_def)
  have "fs_get (w_files w1) ?j = Some j" by (rule persists_get [OF pd _ j(1)]) simp
  then show ?thesis using u1 js1 u(2, 3) js(2, 3) j(2, 3) m by simp
qed

theorem save_job_private_witness:
  "\<exists>js. fs_get (w_files (snd (SaveJob ''/s'' sample_job sample_world))) [''s'', ''7'', ''jobs''] = Some js
     \<and> n_mode js = 0x1C0"
proof -
  let ?r = "SaveJob ''/s'' sample_job sample_world"
  have 1: "?r = (Inr (), snd ?r)" by (rule prod_eqI) (code_simp, simp)
  have 2: "faultless sample_world" by code_simp
  have 3: "user_key ''/s'' (owner_uid sample_job) @ [''jobs''] = [''s'', ''7'', ''jobs'']" by code_simp
  show ?thesis using save_job_private [OF 1 2] unfolding 3 by blast
qed

section \<open>Users are isolated\<close>

lemma keeps_user_zone:
  "keeps (outside (user_zone root (owner_uid job))) (SaveJob root job)"
  "keeps (outside (user_zone root (owner_uid job))) (SaveCheckpoint root job c)"
  "keeps (outside (user_zone root (owner_uid job))) (RemoveCheckpoint root job c)"
proof -
  show "keeps (outside (user_zone root (owner_uid job))) (SaveJob root job)"
    by (rule SaveJob_keeps) (auto simp: job_key_def intro: user_zone_below)
  show "keeps (outside (user_zone root (owner_uid job))) (SaveCheckpoint root job c)"
    by (rule SaveCheckpoint_keeps) (auto simp: job_key_def checkpoint_key_def intro: user_zone_below)
  show "keeps (outside (user_zone root (owner_uid job))) (RemoveCheckpoint root job c)"
    by (rule RemoveCheckpoint_keeps)
      (auto simp: job_key_def checkpoint_key_def export_key_def user_zone_def near_def dest: append_prefixD)
qed

text \<open>C17: No store operation for one user's job touches anything in another user's tree, not even
  when it fails half way: every file at or below the other user's directory is the same before and
  after \<^verbatim>\<open>SaveJob\<close>, \<^verbatim>\<open>CreateCheckpoint\<close>, \<^verbatim>\<open>SaveCheckpoint\<close> and \<^verbatim>\<open>RemoveCheckpoint\<close>.\<close>

theorem store_isolates_users:
  assumes "owner_uid job \<noteq> v" and "prefix (user_key root v) k"
    and "w' \<in> {snd (SaveJob root job w), snd (CreateCheckpoint root job w),
      snd (SaveCheckpoint root job c w), snd (RemoveCheckpoint root job c w)}"
  shows "fs_get (w_files w') k = fs_get (w_files w) k"
proof -
  have "outside (user_zone root (owner_uid job)) w w'"
    using assms(3) by (auto intro: keepsD [OF keeps_user_zone(1)] keepsD [OF keeps_user_zone(2)]
        keepsD [OF keeps_user_zone(3)] keepsD [OF CreateCheckpoint_keeps])
  then show ?thesis
    using outside_files user_zones_apart assms(1, 2) by metis
qed

theorem store_isolates_users_witness:
  "fs_get (w_files (snd (RemoveCheckpoint ''/s'' sample_job sample_checkpoint sample_world))) [''s'', ''8'', ''jobs'']
     = fs_get (w_files sample_world) [''s'', ''8'', ''jobs'']"
  by (rule store_isolates_users [of sample_job 8 "''/s''" _ _ _ sample_checkpoint]) (simp add: sample_job_def, code_simp, simp)

section \<open>Removing a checkpoint\<close>

lemma RemoveCheckpoint_InrE:
  assumes "RemoveCheckpoint root job c w = (Inr (), w')" and "faultless w"
  obtains cd ed w1 w2 where
    "path_key cd = checkpoint_key root (owner_uid job) (job_id job) (checkpoint_id c)"
    and "path_key ed = export_key root (owner_uid job) (job_id job) (checkpoint_id c)"
    and "RemoveTree cd w = (Inr (), w1)" and "fs_get (w_files w2) = fs_get (w_files w1)"
    and "(if fs_get (w_files w1) (path_key ed) \<noteq> None then RemoveTree ed else ret ()) w2 = (Inr (), w')"
proof -
  obtain cd ed w1 ex w2 where cd: "CheckpointDir root (owner_uid job) (job_id job) (checkpoint_id c) = Inr cd"
    and ed: "ExportCheckpointDir root (owner_uid job) (job_id job) (checkpoint_id c) = Inr ed"
    and w1: "RemoveTree cd w = (Inr (), w1)" and ex: "PathExists ed w1 = (Inr ex, w2)"
    and rest: "(if ex then RemoveTree ed else ret ()) w2 = (Inr (), w')"
    using assms(1) by (auto simp: RemoveCheckpoint_def bnd_Inr_iff)
  have "faultless w1"
    using outside_faultless [OF keeps_result [OF RemoveTree_keeps [of _ "\<lambda>_. True"] w1] assms(2)] by simp
  then have "ex \<longleftrightarrow> fs_get (w_files w1) (path_key ed) \<noteq> None" "fs_get (w_files w2) = fs_get (w_files w1)"
    using PathExists_ok [of w1 ed] ex outside_none by auto
  then show ?thesis
    using that [OF CheckpointDir_key [OF cd] ExportCheckpointDir_key [OF ed] w1] rest by simp
qed

text \<open>C36: A checkpoint that was removed is gone with everything in it, from the private tree and
  from the exports, and nothing else is gone or changed: afterwards a file exists, with the same
  node as before, exactly if it existed and lies in neither directory.\<close>

theorem remove_checkpoint_exact:
  assumes gone: "RemoveCheckpoint root job c w = (Inr (), w')" and calm: "faultless w"
    and wf: "wf_tree (w_files w)"
  shows "fs_get (w_files w') k =
    (if prefix (checkpoint_key root (owner_uid job) (job_id job) (checkpoint_id c)) k
        \<or> prefix (export_key root (owner_uid job) (job_id job) (checkpoint_id c)) k
     then None else fs_get (w_files w) k)"
proof -
  let ?c = "checkpoint_key root (owner_uid job) (job_id job) (checkpoint_id c)"
  let ?e = "export_key root (owner_uid job) (job_id job) (checkpoint_id c)"
  obtain cd ed w1 w2 where keys: "path_key cd = ?c" "path_key ed = ?e"
    and r1: "RemoveTree cd w = (Inr (), w1)" and same: "fs_get (w_files w2) = fs_get (w_files w1)"
    and r2: "(if fs_get (w_files w1) (path_key ed) \<noteq> None then RemoveTree ed else ret ()) w2 = (Inr (), w')"
    using RemoveCheckpoint_InrE [OF gone calm] .
  have ne: "k \<noteq> []" if "prefix ?c k \<or> prefix ?e k"
    using that by (auto simp: layout_keys)
  have other: "fs_get (w_files w') k = fs_get (w_files w) k" if "\<not> (prefix ?c k \<or> prefix ?e k)"
    using outside_files [OF keeps_result [OF RemoveCheckpoint_keeps [of root job c
        "\<lambda>k. prefix ?c k \<or> prefix ?e k"] gone]] that by simp
  have g1: "fs_get (w_files w1) j = (if prefix ?c j then None else fs_get (w_files w) j)" if "j \<noteq> []" for j
    using RemoveTree_done [OF r1 _ that] keys
      outside_files [OF keeps_result [OF RemoveTree_keeps [of cd "prefix ?c"] r1]] by auto
  have priv: "fs_get (w_files w') k = None" if "prefix ?c k"
  proof (cases "prefix ?e k")
    case False
    have "keeps (outside (prefix ?e))
        (if fs_get (w_files w1) (path_key ed) \<noteq> None then RemoveTree ed else ret ())"
      by (intro frame_intros) (simp add: keys)
    then have "outside (prefix ?e) w2 w'" by (rule keeps_result) (rule r2)
    then show ?thesis using False outside_files same g1 ne that by metis
  qed (use that in \<open>auto simp: layout_keys prefix_def append_eq_append_conv2 Cons_eq_append_conv\<close>)
  have ext: "fs_get (w_files w') k = None" if e: "prefix ?e k"
  proof (cases "fs_get (w_files w1) ?e = None")
    case True
    have "?e \<noteq> []" "\<not> prefix ?c ?e" by (auto simp: layout_keys)
    then have "fs_get (w_files w) ?e = None" using g1 True by simp
    then have "fs_get (w_files w) k = None" using wf_tree_below [OF wf] e by blast
    then have "fs_get (w_files w1) k = None" using g1 [of k] ne e by auto
    then show ?thesis using True keys r2 same by auto
  next
    case False
    then show ?thesis using r2 keys RemoveTree_done [of ed w2 w' k] e ne by auto
  qed
  show ?thesis using other priv ext by auto
qed

theorem remove_checkpoint_exact_witness:
  "fs_get (w_files (snd (RemoveCheckpoint ''/s'' sample_job sample_checkpoint
       (snd (SaveCheckpoint ''/s'' sample_job sample_checkpoint sample_world)))))
     [''s'', ''7'', ''jobs'', ''job-1'', ''checkpoints'', ''ckpt-1'', ''checkpoint.meta''] = None"
proof -
  let ?w = "snd (SaveCheckpoint ''/s'' sample_job sample_checkpoint sample_world)"
  let ?r = "RemoveCheckpoint ''/s'' sample_job sample_checkpoint ?w"
  have 1: "?r = (Inr (), snd ?r)" by (rule prod_eqI) (code_simp, simp)
  have 2: "faultless ?w" and 3: "wf_tree (w_files ?w)" by code_simp+
  have 4: "prefix (checkpoint_key ''/s'' (owner_uid sample_job) (job_id sample_job) (checkpoint_id sample_checkpoint))
      [''s'', ''7'', ''jobs'', ''job-1'', ''checkpoints'', ''ckpt-1'', ''checkpoint.meta'']" by code_simp
  show ?thesis using remove_checkpoint_exact [OF 1 2 3] 4 by simp
qed

section \<open>Evaluation\<close>

text \<open>Code equations that wait for the state an action runs on, so that an evaluation follows the run.\<close>

lemmas store_code [code] =
  fun_cong [OF CurrentTimestamp_def] fun_cong [OF Initialize_def] fun_cong [OF CreateJob_def] fun_cong [OF SaveJob_def]
  fun_cong [OF load_meta_def] fun_cong [OF LoadJob_def] fun_cong [OF ListUsers_def] fun_cong [OF ListJobs_def]
  fun_cong [OF CreateCheckpoint_def] fun_cong [OF SaveCheckpoint_def] fun_cong [OF LoadCheckpoint_def]
  fun_cong [OF ListCheckpoints_def] fun_cong [OF RemoveCheckpoint_def]

end
