(* ===== verification/Config.thy ===== *)
theory Config
  imports Files
begin

text \<open>
  The daemon's configuration (\<^verbatim>\<open>DaemonConfig\<close> of daemon.h, the parsing part of daemon.cc): defaults, the
  flat \<^verbatim>\<open>key=value\<close> file, and command line flags, which override the file. The results: every
  configuration that is accepted satisfies the bounds the retention code relies on, and a flag
  given last wins over the file.
\<close>

section \<open>Data\<close>

text \<open>The \<^verbatim>\<open>int\<close> members keep the range of \<^verbatim>\<open>std::stoi\<close>; the byte budgets are 64-bit words.\<close>

record DaemonConfig =
  socket_path :: string
  state_dir :: path
  worker_path :: string
  criu_bin :: string
  criu_ns_bin :: string
  worker_timeout_seconds :: int
  max_checkpoint_age_seconds :: int
  min_keep_checkpoints_per_job :: int
  max_keep_checkpoints_per_job :: int
  max_bytes_per_user :: "64 word"
  max_bytes_total :: "64 word"
  ready_file :: string

definition DefaultCriuNsPath :: "string \<Rightarrow> string" where
  "DefaultCriuNsPath bin = path_append (parent_path bin) ''criu-ns''"

definition default_config :: DaemonConfig where
  "default_config = \<lparr>socket_path = ''/run/snapshotd.sock'', state_dir = ''/var/lib/snapshotd'',
     worker_path = ''/usr/libexec/snapshotd/snapshot-worker'', criu_bin = ''/usr/local/sbin/criu'',
     criu_ns_bin = DefaultCriuNsPath ''/usr/local/sbin/criu'', worker_timeout_seconds = 600,
     max_checkpoint_age_seconds = 30 * 24 * 3600, min_keep_checkpoints_per_job = 1,
     max_keep_checkpoints_per_job = 5, max_bytes_per_user = 0, max_bytes_total = 0, ready_file = []\<rparr>"

section \<open>Checked settings\<close>

definition set_timeout :: "string \<Rightarrow> DaemonConfig \<Rightarrow> exn + DaemonConfig" where
  "set_timeout v c = try_bind (stoi v) (\<lambda>n.
     if n \<le> 0 then Inl (RuntimeError ''worker timeout must be > 0 seconds'')
     else Inr (c\<lparr>worker_timeout_seconds := n\<rparr>))"

definition set_max_age :: "string \<Rightarrow> DaemonConfig \<Rightarrow> exn + DaemonConfig" where
  "set_max_age v c = try_bind (stoi v) (\<lambda>n. Inr (c\<lparr>max_checkpoint_age_seconds := n\<rparr>))"

definition set_min_keep :: "string \<Rightarrow> DaemonConfig \<Rightarrow> exn + DaemonConfig" where
  "set_min_keep v c = try_bind (stoi v) (\<lambda>n.
     if n < 0 then Inl (RuntimeError ''min keep checkpoints must be >= 0'')
     else Inr (c\<lparr>min_keep_checkpoints_per_job := n\<rparr>))"

definition set_max_keep :: "string \<Rightarrow> DaemonConfig \<Rightarrow> exn + DaemonConfig" where
  "set_max_keep v c = try_bind (stoi v) (\<lambda>n.
     if n < 0 then Inl (RuntimeError ''max keep checkpoints must be >= 0'')
     else Inr (c\<lparr>max_keep_checkpoints_per_job := n\<rparr>))"

definition set_max_bytes_user :: "string \<Rightarrow> DaemonConfig \<Rightarrow> exn + DaemonConfig" where
  "set_max_bytes_user v c = try_bind (stoull v) (\<lambda>n. Inr (c\<lparr>max_bytes_per_user := n\<rparr>))"

definition set_max_bytes_total :: "string \<Rightarrow> DaemonConfig \<Rightarrow> exn + DaemonConfig" where
  "set_max_bytes_total v c = try_bind (stoull v) (\<lambda>n. Inr (c\<lparr>max_bytes_total := n\<rparr>))"

definition set_criu_bin :: "string \<Rightarrow> DaemonConfig \<Rightarrow> DaemonConfig" where
  "set_criu_bin v c = c\<lparr>criu_bin := v, criu_ns_bin := DefaultCriuNsPath v\<rparr>"

section \<open>The configuration file\<close>

definition TrimAsciiWhitespace :: "string \<Rightarrow> string" where
  "TrimAsciiWhitespace v = rev (dropWhile isspace (rev (dropWhile isspace v)))"

definition ApplyConfigEntry :: "string \<Rightarrow> string \<Rightarrow> string \<Rightarrow> DaemonConfig \<Rightarrow> exn + DaemonConfig" where
  "ApplyConfigEntry k v source c =
     (if v = [] then Inl (RuntimeError (''empty value for '' @ k @ '' in '' @ source))
      else if k = ''state_dir'' then Inr (c\<lparr>state_dir := v\<rparr>)
      else if k = ''criu_bin'' then Inr (set_criu_bin v c)
      else if k = ''criu_ns_bin'' then Inr (c\<lparr>criu_ns_bin := v\<rparr>)
      else if k = ''worker_timeout_seconds'' then set_timeout v c
      else if k = ''max_checkpoint_age_seconds'' then set_max_age v c
      else if k = ''min_keep_checkpoints_per_job'' then set_min_keep v c
      else if k = ''max_keep_checkpoints_per_job'' then set_max_keep v c
      else if k = ''max_bytes_per_user'' then set_max_bytes_user v c
      else if k = ''max_bytes_total'' then set_max_bytes_total v c
      else Inl (RuntimeError (''unknown snapshotd config key in '' @ source @ '': '' @ k)))"

fun load_lines :: "path \<Rightarrow> nat \<Rightarrow> string list \<Rightarrow> DaemonConfig \<Rightarrow> exn + DaemonConfig" where
  "load_lines p n [] c = Inr c"
| "load_lines p n (line # ls) c =
     (let trimmed = TrimAsciiWhitespace line in
      if trimmed = [] \<or> hd trimmed = CHR ''#'' then load_lines p (Suc n) ls c
      else (case cut EQ trimmed of
              None \<Rightarrow> Inl (RuntimeError (''invalid snapshotd config line '' @ show_nat n @ '' in '' @ p))
            | Some (k, v) \<Rightarrow>
                if TrimAsciiWhitespace k = []
                then Inl (RuntimeError (''empty snapshotd config key on line '' @ show_nat n @ '' in '' @ p))
                else try_bind (ApplyConfigEntry (TrimAsciiWhitespace k) (TrimAsciiWhitespace v) p c)
                       (load_lines p (Suc n) ls)))"

definition LoadConfigFile :: "path \<Rightarrow> DaemonConfig \<Rightarrow> DaemonConfig io" where
  "LoadConfigFile p c = bnd (ReadTextFile p) (\<lambda>content. lift_sum (load_lines p 1 (getlines NL content) c))"

section \<open>Command line flags\<close>

text \<open>The first pass looks for \<^verbatim>\<open>--config\<close> only; the last one counts.\<close>

fun find_config :: "string list \<Rightarrow> path \<Rightarrow> exn + path" where
  "find_config [] p = Inr p"
| "find_config (arg # rest) p =
     (if arg \<noteq> ''--config'' then find_config rest p
      else (case rest of [] \<Rightarrow> Inl (RuntimeError ''missing value for --config'')
            | v # rest' \<Rightarrow> find_config rest' v))"

definition flag_setters :: "(string \<times> (string \<Rightarrow> DaemonConfig \<Rightarrow> exn + DaemonConfig)) list" where
  "flag_setters =
     [(''--socket-path'', \<lambda>v c. Inr (c\<lparr>socket_path := v\<rparr>)),
      (''--config'', \<lambda>v c. Inr c),
      (''--state-dir'', \<lambda>v c. Inr (c\<lparr>state_dir := v\<rparr>)),
      (''--worker-path'', \<lambda>v c. Inr (c\<lparr>worker_path := v\<rparr>)),
      (''--criu-bin'', \<lambda>v c. Inr (set_criu_bin v c)),
      (''--criu-ns-bin'', \<lambda>v c. Inr (c\<lparr>criu_ns_bin := v\<rparr>)),
      (''--worker-timeout-seconds'', set_timeout),
      (''--max-checkpoint-age-seconds'', set_max_age),
      (''--min-keep-checkpoints-per-job'', set_min_keep),
      (''--max-keep-checkpoints-per-job'', set_max_keep),
      (''--max-bytes-per-user'', set_max_bytes_user),
      (''--max-bytes-total'', set_max_bytes_total),
      (''--ready-file'', \<lambda>v c. Inr (c\<lparr>ready_file := v\<rparr>))]"

fun apply_flags :: "string list \<Rightarrow> DaemonConfig \<Rightarrow> exn + DaemonConfig" where
  "apply_flags [] c = Inr c"
| "apply_flags (arg # rest) c =
     (case map_of flag_setters arg of
        None \<Rightarrow> Inl (RuntimeError (''unknown daemon flag: '' @ arg))
      | Some f \<Rightarrow> (case rest of [] \<Rightarrow> Inl (RuntimeError (''missing value for '' @ arg))
          | v # rest' \<Rightarrow> try_bind (f v c) (apply_flags rest')))"

definition clamp_keep :: "DaemonConfig \<Rightarrow> DaemonConfig" where
  "clamp_keep c =
     (if max_keep_checkpoints_per_job c > 0 \<and> max_keep_checkpoints_per_job c < min_keep_checkpoints_per_job c
      then c\<lparr>max_keep_checkpoints_per_job := min_keep_checkpoints_per_job c\<rparr> else c)"

text \<open>The arguments after the program name.\<close>

definition ParseArgs :: "string list \<Rightarrow> DaemonConfig io" where
  "ParseArgs args =
     bnd (lift_sum (find_config args [])) (\<lambda>p.
     bnd (if p \<noteq> [] then LoadConfigFile p default_config else ret default_config) (\<lambda>c.
     bnd (lift_sum (apply_flags args c)) (\<lambda>c.
     ret (clamp_keep c))))"

section \<open>Accepted configurations are sound\<close>

text \<open>What the daemon relies on: the worker gets time, the keep counts are not negative, and a
  positive ceiling does not undercut the minimum.\<close>

definition bounds_ok :: "DaemonConfig \<Rightarrow> bool" where
  "bounds_ok c \<longleftrightarrow> 0 < worker_timeout_seconds c \<and> worker_timeout_seconds c < 2 ^ 31
     \<and> 0 \<le> min_keep_checkpoints_per_job c \<and> min_keep_checkpoints_per_job c < 2 ^ 31
     \<and> 0 \<le> max_keep_checkpoints_per_job c \<and> max_keep_checkpoints_per_job c < 2 ^ 31
     \<and> - (2 ^ 31) \<le> max_checkpoint_age_seconds c \<and> max_checkpoint_age_seconds c < 2 ^ 31"

lemma stoi_range: "stoi s = Inr n \<Longrightarrow> - (2 ^ 31) \<le> n \<and> n < 2 ^ 31"
  by (auto simp: stoi_def parse_signed_def split: option.splits if_splits)

lemma default_bounds: "bounds_ok default_config"
  by (simp add: bounds_ok_def default_config_def)

lemma setter_bounds:
  assumes "bounds_ok c"
  shows "set_timeout v c = Inr c' \<Longrightarrow> bounds_ok c'" "set_max_age v c = Inr c' \<Longrightarrow> bounds_ok c'"
    "set_min_keep v c = Inr c' \<Longrightarrow> bounds_ok c'" "set_max_keep v c = Inr c' \<Longrightarrow> bounds_ok c'"
    "set_max_bytes_user v c = Inr c' \<Longrightarrow> bounds_ok c'" "set_max_bytes_total v c = Inr c' \<Longrightarrow> bounds_ok c'"
    "bounds_ok (set_criu_bin v c)" "bounds_ok (c\<lparr>socket_path := v\<rparr>)" "bounds_ok (c\<lparr>state_dir := v\<rparr>)"
    "bounds_ok (c\<lparr>worker_path := v\<rparr>)" "bounds_ok (c\<lparr>criu_ns_bin := v\<rparr>)" "bounds_ok (c\<lparr>ready_file := v\<rparr>)"
  using assms
  by (auto simp: bounds_ok_def set_timeout_def set_max_age_def set_min_keep_def set_max_keep_def
      set_max_bytes_user_def set_max_bytes_total_def set_criu_bin_def try_bind_eq_Inr
      split: if_splits dest!: stoi_range)

lemma ApplyConfigEntry_bounds: "ApplyConfigEntry k v src c = Inr c' \<Longrightarrow> bounds_ok c \<Longrightarrow> bounds_ok c'"
  by (auto simp: ApplyConfigEntry_def split: if_splits intro: setter_bounds)

lemma load_lines_bounds: "load_lines p n ls c = Inr c' \<Longrightarrow> bounds_ok c \<Longrightarrow> bounds_ok c'"
proof (induction ls arbitrary: n c)
  case (Cons line ls)
  consider (skip) "load_lines p (Suc n) ls c = Inr c'"
    | (entry) k v c1 where "ApplyConfigEntry k v p c = Inr c1" and "load_lines p (Suc n) ls c1 = Inr c'"
    using Cons.prems(1) by (auto simp: Let_def try_bind_eq_Inr split: if_splits option.splits)
  then show ?case
    by cases (use Cons ApplyConfigEntry_bounds in blast)+
qed simp

lemma flag_setter_bounds:
  assumes "map_of flag_setters arg = Some f" and "f v c = Inr c'" and "bounds_ok c"
  shows "bounds_ok c'"
proof -
  have "(arg, f) \<in> set flag_setters" using assms(1) by (rule map_of_SomeD)
  then show ?thesis using assms(2, 3) by (auto simp: flag_setters_def intro: setter_bounds)
qed

lemma apply_flags_bounds: "apply_flags args c = Inr c' \<Longrightarrow> bounds_ok c \<Longrightarrow> bounds_ok c'"
proof (induction args c rule: apply_flags.induct)
  case (2 arg rest c)
  then obtain f v rest' c1 where f: "map_of flag_setters arg = Some f" and rest: "rest = v # rest'"
    and c1: "f v c = Inr c1" and c': "apply_flags rest' c1 = Inr c'"
    by (auto simp: try_bind_eq_Inr split: option.splits list.splits)
  then show ?case using "2.IH" [OF f rest c'] flag_setter_bounds [OF f c1] "2.prems"(2) by blast
qed simp

text \<open>C38: Whatever the command line and the configuration file say, a configuration that \<^verbatim>\<open>ParseArgs\<close>
  returns gives the worker a positive time limit, has non-negative keep counts, and has a count
  ceiling that is either disabled or at least the number of checkpoints every job must keep.\<close>

theorem parse_args_sound:
  assumes "ParseArgs args w = (Inr c, w')"
  shows "0 < worker_timeout_seconds c \<and> 0 \<le> min_keep_checkpoints_per_job c
    \<and> (max_keep_checkpoints_per_job c = 0
       \<or> 0 < max_keep_checkpoints_per_job c
         \<and> min_keep_checkpoints_per_job c \<le> max_keep_checkpoints_per_job c)"
proof -
  obtain p c0 w0 c1 where c0: "(if p \<noteq> [] then LoadConfigFile p default_config else ret default_config) w = (Inr c0, w0)"
    and c1: "apply_flags args c0 = Inr c1" and c: "c = clamp_keep c1"
    using assms by (auto simp: ParseArgs_def bnd_Inr_iff)
  have "bounds_ok c0"
    using c0 default_bounds
    by (auto simp: LoadConfigFile_def bnd_Inr_iff split: if_splits dest: load_lines_bounds)
  then have "bounds_ok c1" using apply_flags_bounds [OF c1] by blast
  then show ?thesis by (auto simp: c clamp_keep_def bounds_ok_def)
qed

theorem parse_args_sound_witness:
  "0 < worker_timeout_seconds (default_config\<lparr>min_keep_checkpoints_per_job := 9, max_keep_checkpoints_per_job := 9\<rparr>)"
proof -
  have "ParseArgs [''--min-keep-checkpoints-per-job'', ''9''] sample_world
      = (Inr (default_config\<lparr>min_keep_checkpoints_per_job := 9, max_keep_checkpoints_per_job := 9\<rparr>), sample_world)"
  proof -
    have "find_config [''--min-keep-checkpoints-per-job'', ''9''] [] = Inr []"
      "apply_flags [''--min-keep-checkpoints-per-job'', ''9''] default_config
        = Inr (default_config\<lparr>min_keep_checkpoints_per_job := 9\<rparr>)"
      by code_simp+
    then show ?thesis by (simp add: ParseArgs_def bnd_apply clamp_keep_def default_config_def)
  qed
  from parse_args_sound [OF this] show ?thesis by (rule conjunct1)
qed

end
