(* ===== verification/Retention.thy ===== *)
theory Retention
  imports Store Config "HOL-Library.Multiset" "HOL-Library.Product_Lexorder"
begin

text \<open>
  Checkpoint retention (the second half of daemon.cc): sizes and use counts of checkpoints, the
  eviction order, and \<^verbatim>\<open>PruneCheckpoints\<close>, which marks checkpoints by age, by count and by byte
  budget and removes the marked ones.

  Pointers into the candidate vector are indices. \<^verbatim>\<open>std::sort\<close> is insertion sort, one of the orders
  it may produce; where the comparison is a total order it is the only one. The candidates a job
  contributes are the slice of the vector from \<^verbatim>\<open>job_start\<close> on; the marking passes work on that
  slice, the byte budgets on the whole vector. Totals are 64-bit words and wrap.

  The results: the eviction order is a strict order; a protected checkpoint is never removed; each
  job keeps its minimum; after pruning the count ceiling and the budgets hold unless only
  protected checkpoints are left; within a pass the coldest checkpoints go first.
\<close>

section \<open>Sorting\<close>

fun insert_by :: "('a \<Rightarrow> 'a \<Rightarrow> bool) \<Rightarrow> 'a \<Rightarrow> 'a list \<Rightarrow> 'a list" where
  "insert_by lt x [] = [x]"
| "insert_by lt x (y # ys) = (if lt x y then x # y # ys else y # insert_by lt x ys)"

definition sort_by :: "('a \<Rightarrow> 'a \<Rightarrow> bool) \<Rightarrow> 'a list \<Rightarrow> 'a list" where
  "sort_by lt xs = foldl (\<lambda>acc x. insert_by lt x acc) [] xs"

text \<open>What \<^verbatim>\<open>std::sort\<close> asks of a comparison, and what sorting then gives.\<close>

locale strict_order =
  fixes lt :: "'a \<Rightarrow> 'a \<Rightarrow> bool"
  assumes asym: "lt x y \<Longrightarrow> \<not> lt y x"
    and weak: "\<not> lt y x \<Longrightarrow> \<not> lt z y \<Longrightarrow> \<not> lt z x"
begin

lemma insert_by_mset: "mset (insert_by lt x ys) = add_mset x (mset ys)"
  by (induction ys) auto

lemma insert_by_sorted:
  "sorted_wrt (\<lambda>a b. \<not> lt b a) ys \<Longrightarrow> sorted_wrt (\<lambda>a b. \<not> lt b a) (insert_by lt x ys)"
proof (induction ys)
  case (Cons y ys)
  have "set (insert_by lt x ys) = insert x (set ys)"
    using insert_by_mset by (metis set_mset_add_mset_insert set_mset_mset)
  moreover have "\<not> lt z x" if "lt x y" "z \<in> set ys" for z
    using weak [of y x z] asym [OF that(1)] Cons.prems that(2) by simp
  ultimately show ?case using Cons by (cases "lt x y") (simp_all add: asym)
qed simp

lemma sort_acc:
  "sorted_wrt (\<lambda>a b. \<not> lt b a) acc \<Longrightarrow>
     mset (foldl (\<lambda>acc x. insert_by lt x acc) acc xs) = mset acc + mset xs
     \<and> sorted_wrt (\<lambda>a b. \<not> lt b a) (foldl (\<lambda>acc x. insert_by lt x acc) acc xs)"
  by (induction xs arbitrary: acc) (auto simp: insert_by_mset insert_by_sorted)

lemma sort_by_mset: "mset (sort_by lt xs) = mset xs"
  using sort_acc [of "[]" xs] by (simp add: sort_by_def)

lemma sort_by_sorted: "sorted_wrt (\<lambda>a b. \<not> lt b a) (sort_by lt xs)"
  using sort_acc [of "[]" xs] by (simp add: sort_by_def)

lemma sort_by_set: "set (sort_by lt xs) = set xs"
  using sort_by_mset by (metis set_mset_mset)

lemma sort_by_distinct: "distinct (sort_by lt xs) = distinct xs"
  using sort_by_mset by (metis mset_eq_imp_distinct_iff)

text \<open>Comparing through a pointer or an index is again a strict order.\<close>

lemma pullback: "strict_order (\<lambda>i j. lt (f i) (f j))"
  by unfold_locales (use asym weak in blast)+

end

section \<open>Candidates\<close>

definition ParseIntegerString :: "string \<Rightarrow> exn + int" where
  "ParseIntegerString v = (if v = [] then Inr 0 else stoll v)"

definition ParseUnsignedString :: "string \<Rightarrow> exn + 64 word" where
  "ParseUnsignedString v = (if v = [] then Inr 0 else stoull v)"

definition CurrentTimestampString :: "string io" where
  "CurrentTimestampString = CurrentTimestamp"

record RetentionCandidate =
  rc_job :: JobRecord
  rc_checkpoint :: CheckpointRecord
  created_at :: int
  rc_last_restored_at :: int
  rc_restore_count :: int
  rc_size_bytes :: "64 word"
  protected_checkpoint :: bool
  marked_for_removal :: bool

definition RefreshCheckpointSize :: "path \<Rightarrow> JobRecord \<Rightarrow> CheckpointRecord \<Rightarrow> CheckpointRecord io" where
  "RefreshCheckpointSize root job c =
     bnd (lift_sum (CheckpointDir root (owner_uid job) (job_id job) (checkpoint_id c))) (\<lambda>cd.
     bnd (DirectoryTreeSizeBytes cd) (\<lambda>a.
     bnd (lift_sum (ExportCheckpointDir root (owner_uid job) (job_id job) (checkpoint_id c))) (\<lambda>ed.
     bnd (DirectoryTreeSizeBytes ed) (\<lambda>b.
     ret (c\<lparr>size_bytes := show_nat (unat (a + b))\<rparr>)))))"

definition TouchCheckpointRestoreUsage :: "path \<Rightarrow> JobRecord \<Rightarrow> CheckpointRecord \<Rightarrow> CheckpointRecord io" where
  "TouchCheckpointRestoreUsage root job c =
     bnd (lift_sum (ParseIntegerString (restore_count c))) (\<lambda>previous.
     bnd CurrentTimestampString (\<lambda>now.
     RefreshCheckpointSize root job
       (c\<lparr>restore_count := show_int (max 0 previous + 1), last_restored_at := now\<rparr>)))"

definition CandidateEvictionTime :: "RetentionCandidate \<Rightarrow> int" where
  "CandidateEvictionTime c = (if rc_last_restored_at c > 0 then rc_last_restored_at c else 0)"

definition CandidateEvictionLess :: "RetentionCandidate \<Rightarrow> RetentionCandidate \<Rightarrow> bool" where
  "CandidateEvictionLess l r =
     (if CandidateEvictionTime l \<noteq> CandidateEvictionTime r
      then CandidateEvictionTime l < CandidateEvictionTime r
      else if rc_restore_count l \<noteq> rc_restore_count r then rc_restore_count l < rc_restore_count r
      else if rc_size_bytes l \<noteq> rc_size_bytes r then rc_size_bytes l > rc_size_bytes r
      else if created_at l \<noteq> created_at r then created_at l < created_at r
      else if job_id (rc_job l) \<noteq> job_id (rc_job r) then job_id (rc_job l) < job_id (rc_job r)
      else checkpoint_id (rc_checkpoint l) < checkpoint_id (rc_checkpoint r))"

section \<open>Gathering the candidates of one job\<close>

text \<open>\<^verbatim>\<open>protected_ids\<close> is a set; its list has no duplicates.\<close>

definition initial_protected :: "JobRecord \<Rightarrow> string \<Rightarrow> string \<Rightarrow> string list" where
  "initial_protected job preserve_job preserve_ckpt =
     (let a = (if latest_checkpoint job \<noteq> [] then [latest_checkpoint job] else []) in
      if preserve_job \<noteq> [] \<and> preserve_ckpt \<noteq> [] \<and> job_id job = preserve_job
      then List.insert preserve_ckpt a else a)"

text \<open>Newest first: by creation time, then by id.\<close>

definition newer :: "int \<times> CheckpointRecord \<Rightarrow> int \<times> CheckpointRecord \<Rightarrow> bool" where
  "newer l r = (if fst l \<noteq> fst r then fst l > fst r else checkpoint_id (snd l) > checkpoint_id (snd r))"

text \<open>The comparison parses creation times and raises on malformed ones; it is not called at all for a
  single checkpoint.\<close>

definition sort_newest :: "CheckpointRecord list \<Rightarrow> exn + CheckpointRecord list" where
  "sort_newest cs =
     (if length cs < 2 then Inr cs
      else try_bind (try_map (\<lambda>c. try_bind (ParseIntegerString (ck_created_at c)) (\<lambda>t. Inr (t, c))) cs)
        (\<lambda>tcs. Inr (map snd (sort_by newer tcs))))"

fun protect_newest :: "int \<Rightarrow> CheckpointRecord list \<Rightarrow> string list \<Rightarrow> string list" where
  "protect_newest min_keep [] ids = ids"
| "protect_newest min_keep (c # cs) ids =
     (if int (length ids) \<ge> min_keep then ids
      else protect_newest min_keep cs (List.insert (checkpoint_id c) ids))"

definition make_candidate :: "path \<Rightarrow> JobRecord \<Rightarrow> string list \<Rightarrow> CheckpointRecord \<Rightarrow> RetentionCandidate io" where
  "make_candidate root job ids c0 =
     bnd (RefreshCheckpointSize root job c0) (\<lambda>c.
     bnd (SaveCheckpoint root job c) (\<lambda>_.
     bnd (lift_sum (ParseIntegerString (ck_created_at c))) (\<lambda>created.
     bnd (lift_sum (ParseIntegerString (last_restored_at c))) (\<lambda>restored.
     bnd (lift_sum (ParseIntegerString (restore_count c))) (\<lambda>count.
     bnd (lift_sum (ParseUnsignedString (size_bytes c))) (\<lambda>sz.
     ret \<lparr>rc_job = job, rc_checkpoint = c, created_at = created, rc_last_restored_at = restored,
       rc_restore_count = count, rc_size_bytes = sz, protected_checkpoint = (checkpoint_id c \<in> set ids),
       marked_for_removal = False\<rparr>))))))"

section \<open>Marking\<close>

definition mark :: "nat \<Rightarrow> RetentionCandidate list \<Rightarrow> RetentionCandidate list" where
  "mark i cs = cs[i := (cs ! i)\<lparr>marked_for_removal := True\<rparr>]"

definition mark_aged :: "DaemonConfig \<Rightarrow> int \<Rightarrow> RetentionCandidate list \<Rightarrow> RetentionCandidate list" where
  "mark_aged cfg now cs =
     (if max_checkpoint_age_seconds cfg > 0 then
        map (\<lambda>c. if protected_checkpoint c then c
                  else if created_at c \<le> 0 then c
                  else if now - created_at c \<ge> max_checkpoint_age_seconds cfg
                  then c\<lparr>marked_for_removal := True\<rparr> else c) cs
      else cs)"

fun evict_count :: "nat list \<Rightarrow> int \<Rightarrow> RetentionCandidate list \<Rightarrow> RetentionCandidate list" where
  "evict_count [] over cs = cs"
| "evict_count (i # is) over cs =
     (if over \<le> 0 then cs
      else if marked_for_removal (cs ! i) then evict_count is over cs
      else evict_count is (over - 1) (mark i cs))"

definition index_less :: "RetentionCandidate list \<Rightarrow> nat \<Rightarrow> nat \<Rightarrow> bool" where
  "index_less cs i j = CandidateEvictionLess (cs ! i) (cs ! j)"

definition mark_over_count :: "DaemonConfig \<Rightarrow> RetentionCandidate list \<Rightarrow> RetentionCandidate list" where
  "mark_over_count cfg cs =
     (if max_keep_checkpoints_per_job cfg > 0 then
        let remaining = filter (\<lambda>i. \<not> marked_for_removal (cs ! i)) [0..<length cs] in
        if int (length remaining) > max_keep_checkpoints_per_job cfg then
          evict_count (sort_by (index_less cs) (filter (\<lambda>i. \<not> protected_checkpoint (cs ! i)) remaining))
            (int (length remaining) - max_keep_checkpoints_per_job cfg) cs
        else cs
      else cs)"

fun evict_bytes :: "nat list \<Rightarrow> 64 word \<Rightarrow> 64 word \<Rightarrow> RetentionCandidate list \<Rightarrow> RetentionCandidate list" where
  "evict_bytes [] tot budget cs = cs"
| "evict_bytes (i # is) tot budget cs =
     (if tot \<le> budget then cs
      else if marked_for_removal (cs ! i) then evict_bytes is tot budget cs
      else evict_bytes is (tot - rc_size_bytes (cs ! i)) budget (mark i cs))"

definition in_budget_scope :: "uid_t \<Rightarrow> RetentionCandidate \<Rightarrow> bool" where
  "in_budget_scope uid c \<longleftrightarrow> \<not> marked_for_removal c \<and> (uid = - 1 \<or> owner_uid (rc_job c) = uid)"

definition apply_byte_budget :: "64 word \<Rightarrow> uid_t \<Rightarrow> RetentionCandidate list \<Rightarrow> RetentionCandidate list" where
  "apply_byte_budget budget uid cs =
     (if budget = 0 then cs
      else let scope = filter (\<lambda>i. in_budget_scope uid (cs ! i)) [0..<length cs];
               tot = sum_list (map (\<lambda>i. rc_size_bytes (cs ! i)) scope) in
        if tot \<le> budget then cs
        else evict_bytes (sort_by (index_less cs) (filter (\<lambda>i. \<not> protected_checkpoint (cs ! i)) scope))
               tot budget cs)"

section \<open>Pruning\<close>

definition job_candidates ::
  "DaemonConfig \<Rightarrow> path \<Rightarrow> int \<Rightarrow> string \<Rightarrow> string \<Rightarrow> JobRecord \<Rightarrow> RetentionCandidate list io" where
  "job_candidates cfg root now preserve_job preserve_ckpt job =
     bnd (ListCheckpoints root job) (\<lambda>cs.
     if cs = [] then ret []
     else bnd (lift_sum (sort_newest cs)) (\<lambda>cs.
       let ids = protect_newest (min_keep_checkpoints_per_job cfg) cs
                   (initial_protected job preserve_job preserve_ckpt) in
       bnd (collect (make_candidate root job ids) cs) (\<lambda>slice.
       ret (mark_over_count cfg (mark_aged cfg now slice)))))"

definition user_candidates ::
  "DaemonConfig \<Rightarrow> path \<Rightarrow> int \<Rightarrow> string \<Rightarrow> string \<Rightarrow> uid_t \<Rightarrow> RetentionCandidate list io" where
  "user_candidates cfg root now preserve_job preserve_ckpt uid =
     bnd (ListJobs root uid) (\<lambda>jobs.
     bnd (collect (job_candidates cfg root now preserve_job preserve_ckpt) jobs) (\<lambda>css. ret (concat css)))"

definition all_candidates ::
  "DaemonConfig \<Rightarrow> path \<Rightarrow> int \<Rightarrow> string \<Rightarrow> string \<Rightarrow> RetentionCandidate list io" where
  "all_candidates cfg root now preserve_job preserve_ckpt =
     bnd (ListUsers root) (\<lambda>users.
     bnd (collect (user_candidates cfg root now preserve_job preserve_ckpt) users) (\<lambda>css. ret (concat css)))"

definition apply_user_budgets :: "DaemonConfig \<Rightarrow> uid_t list \<Rightarrow> RetentionCandidate list \<Rightarrow> RetentionCandidate list" where
  "apply_user_budgets cfg users cs = foldl (\<lambda>cs u. apply_byte_budget (max_bytes_per_user cfg) u cs) cs users"

definition remove_marked :: "path \<Rightarrow> RetentionCandidate list \<Rightarrow> unit io" where
  "remove_marked root cs =
     for_each (\<lambda>c. if marked_for_removal c then RemoveCheckpoint root (rc_job c) (rc_checkpoint c) else ret ()) cs"

definition planned_candidates ::
  "DaemonConfig \<Rightarrow> path \<Rightarrow> string \<Rightarrow> string \<Rightarrow> RetentionCandidate list io" where
  "planned_candidates cfg root preserve_job preserve_ckpt =
     bnd (bnd sys (\<lambda>_. answer k_time)) (\<lambda>now.
     bnd (all_candidates cfg root now preserve_job preserve_ckpt) (\<lambda>cs.
     bnd (if max_bytes_per_user cfg > 0 then bnd (ListUsers root) (\<lambda>users. ret (apply_user_budgets cfg users cs))
          else ret cs) (\<lambda>cs.
     ret (apply_byte_budget (max_bytes_total cfg) (- 1) cs))))"

definition PruneCheckpoints :: "DaemonConfig \<Rightarrow> path \<Rightarrow> string \<Rightarrow> string \<Rightarrow> nat io" where
  "PruneCheckpoints cfg root preserve_job preserve_ckpt =
     bnd (planned_candidates cfg root preserve_job preserve_ckpt) (\<lambda>cs.
     bnd (remove_marked root cs) (\<lambda>_.
     ret (length (filter marked_for_removal cs))))"

section \<open>A sample store\<close>

text \<open>One job of user 7 with two checkpoints; its latest is \<^verbatim>\<open>ckpt-1\<close>. At most one may stay.\<close>

definition second_checkpoint :: CheckpointRecord where
  "second_checkpoint = sample_checkpoint\<lparr>checkpoint_id := ''ckpt-2'', ck_created_at := ''8''\<rparr>"

definition sample_dir :: node where
  "sample_dir = \<lparr>n_kind = Directory, n_mode = 0x1C0, n_uid = 0, n_gid = 0, n_cap = False, n_data = []\<rparr>"

definition sample_file :: "(string \<times> string) list \<Rightarrow> node" where
  "sample_file kvs = \<lparr>n_kind = Regular, n_mode = 0x180, n_uid = 0, n_gid = 0, n_cap = False,
     n_data = (case SerializeKeyValueMap (kv_of kvs) of Inr s \<Rightarrow> s | Inl _ \<Rightarrow> [])\<rparr>"

definition sample_store :: world where
  "sample_store = sample_world\<lparr>w_files := (let j = [''s'', ''7'', ''jobs'', ''job-1''] in
     [([''s''], sample_dir), ([''s'', ''7''], sample_dir), ([''s'', ''7'', ''jobs''], sample_dir), (j, sample_dir),
      (j @ [''job.meta''], sample_file (job_data sample_job)), (j @ [''checkpoints''], sample_dir),
      (j @ [''checkpoints'', ''ckpt-1''], sample_dir),
      (j @ [''checkpoints'', ''ckpt-1'', ''checkpoint.meta''], sample_file (checkpoint_data sample_checkpoint)),
      (j @ [''checkpoints'', ''ckpt-2''], sample_dir),
      (j @ [''checkpoints'', ''ckpt-2'', ''checkpoint.meta''], sample_file (checkpoint_data second_checkpoint))])\<rparr>"

definition sample_config :: DaemonConfig where
  "sample_config = default_config\<lparr>state_dir := ''/s'', max_keep_checkpoints_per_job := 1\<rparr>"

definition sample_candidate :: "bool \<Rightarrow> 64 word \<Rightarrow> RetentionCandidate" where
  "sample_candidate prot sz = \<lparr>rc_job = sample_job, rc_checkpoint = sample_checkpoint, created_at = 6,
     rc_last_restored_at = 0, rc_restore_count = 0, rc_size_bytes = sz, protected_checkpoint = prot,
     marked_for_removal = False\<rparr>"

section \<open>The orders are strict\<close>

definition eviction_key :: "RetentionCandidate \<Rightarrow> int \<times> int \<times> int \<times> int \<times> string \<times> string" where
  "eviction_key c = (CandidateEvictionTime c, rc_restore_count c, - uint (rc_size_bytes c), created_at c,
     job_id (rc_job c), checkpoint_id (rc_checkpoint c))"

lemma CandidateEvictionLess_key: "CandidateEvictionLess l r \<longleftrightarrow> eviction_key l < eviction_key r"
  by (auto simp: CandidateEvictionLess_def eviction_key_def less_prod_def word_less_def word_uint_eq_iff)

interpretation ev: strict_order CandidateEvictionLess
  by unfold_locales (auto simp: CandidateEvictionLess_key)

interpretation evi: strict_order "index_less cs" for cs
  using ev.pullback [of "\<lambda>i. cs ! i"] by (simp add: index_less_def [abs_def])

interpretation nw: strict_order newer
proof unfold_locales
  fix x y z
  show "newer x y \<Longrightarrow> \<not> newer y x" by (auto simp: newer_def split: if_splits)
  show "\<not> newer y x \<Longrightarrow> \<not> newer z y \<Longrightarrow> \<not> newer z x"
    by (auto simp: newer_def split: if_splits)
qed

section \<open>What marking preserves\<close>

text \<open>The candidates before and after a pass differ only in marks, marks are only added, and only to
  candidates that are not protected.\<close>

definition only_marks :: "RetentionCandidate list \<Rightarrow> RetentionCandidate list \<Rightarrow> bool" where
  "only_marks cs cs' \<longleftrightarrow> list_all2 (\<lambda>c c'. c' = c
     \<or> \<not> protected_checkpoint c \<and> c' = c\<lparr>marked_for_removal := True\<rparr>) cs cs'"

lemma only_marks_refl [simp]: "only_marks cs cs"
  by (simp add: only_marks_def list_all2_refl)

lemma only_marks_trans: "only_marks a b \<Longrightarrow> only_marks b c \<Longrightarrow> only_marks a c"
  unfolding only_marks_def list_all2_conv_all_nth by force

lemma only_marks_length: "only_marks cs cs' \<Longrightarrow> length cs' = length cs"
  by (simp add: only_marks_def list_all2_lengthD)

lemma only_marks_nth:
  "only_marks cs cs' \<Longrightarrow> i < length cs \<Longrightarrow>
     cs' ! i = cs ! i \<or> \<not> protected_checkpoint (cs ! i) \<and> cs' ! i = (cs ! i)\<lparr>marked_for_removal := True\<rparr>"
  by (simp add: only_marks_def list_all2_conv_all_nth)

lemma only_marks_mark: "\<not> protected_checkpoint (cs ! i) \<Longrightarrow> only_marks cs (mark i cs)"
  by (cases "i < length cs") (auto simp: only_marks_def list_all2_conv_all_nth mark_def nth_list_update)

lemma mark_nth: "i < length cs \<Longrightarrow>
    mark i cs ! j = (if j = i then (cs ! i)\<lparr>marked_for_removal := True\<rparr> else cs ! j)"
  by (simp add: mark_def)

lemma length_mark [simp]: "length (mark i cs) = length cs"
  by (simp add: mark_def)

lemma mark_protected [simp]: "protected_checkpoint (mark i cs ! j) = protected_checkpoint (cs ! j)"
  by (cases "i < length cs") (auto simp: mark_def nth_list_update list_update_beyond)

lemma mark_size [simp]: "rc_size_bytes (mark i cs ! j) = rc_size_bytes (cs ! j)"
  by (cases "i < length cs") (auto simp: mark_def nth_list_update list_update_beyond)

lemma evict_count_only_marks:
  "\<forall>i\<in>set is. \<not> protected_checkpoint (cs ! i) \<Longrightarrow> only_marks cs (evict_count is n cs)"
proof (induction "is" n cs rule: evict_count.induct)
  case (2 i "is" n cs)
  then show ?case by (auto intro: only_marks_trans only_marks_mark)
qed simp

lemma evict_bytes_only_marks:
  "\<forall>i\<in>set is. \<not> protected_checkpoint (cs ! i) \<Longrightarrow> only_marks cs (evict_bytes is t b cs)"
proof (induction "is" t b cs rule: evict_bytes.induct)
  case (2 i "is" t b cs)
  then show ?case by (auto intro: only_marks_trans only_marks_mark)
qed simp

lemma mark_aged_only_marks: "only_marks cs (mark_aged cfg now cs)"
  by (auto simp: mark_aged_def only_marks_def list_all2_conv_all_nth)

lemma mark_over_count_only_marks: "only_marks cs (mark_over_count cfg cs)"
  by (auto simp: mark_over_count_def Let_def evi.sort_by_set intro!: evict_count_only_marks)

lemma apply_byte_budget_only_marks: "only_marks cs (apply_byte_budget b u cs)"
  by (auto simp: apply_byte_budget_def Let_def evi.sort_by_set intro!: evict_bytes_only_marks)

lemma apply_user_budgets_only_marks: "only_marks cs (apply_user_budgets cfg users cs)"
  unfolding apply_user_budgets_def
  by (induction users arbitrary: cs) (auto intro: only_marks_trans apply_byte_budget_only_marks)

section \<open>What the eviction passes achieve\<close>

text \<open>Both passes mark an initial part of the sorted pool.\<close>

definition mark_all :: "nat list \<Rightarrow> RetentionCandidate list \<Rightarrow> RetentionCandidate list" where
  "mark_all is cs = fold mark is cs"

lemma mark_all_simps [simp]: "mark_all [] cs = cs" "mark_all (i # is) cs = mark_all is (mark i cs)"
  by (simp_all add: mark_all_def)

lemma length_mark_all [simp]: "length (mark_all is cs) = length cs"
  by (induction "is" arbitrary: cs) auto

lemma mark_all_nth:
  "\<forall>i\<in>set is. i < length cs \<Longrightarrow> mark_all is cs ! j =
     (if j \<in> set is then (cs ! j)\<lparr>marked_for_removal := True\<rparr> else cs ! j)"
  by (induction "is" arbitrary: cs) (auto simp: mark_nth)

lemma evict_count_prefix:
  assumes "distinct is" and "\<forall>i\<in>set is. i < length cs \<and> \<not> marked_for_removal (cs ! i)"
  shows "evict_count is n cs = mark_all (take (nat n) is) cs"
  using assms
proof (induction "is" n cs rule: evict_count.induct)
  case (2 i "is" n cs)
  show ?case
  proof (cases "n \<le> 0")
    case False
    then have "nat n = Suc (nat (n - 1))" by simp
    moreover have "evict_count is (n - 1) (mark i cs) = mark_all (take (nat (n - 1)) is) (mark i cs)"
      using 2 False by (intro "2.IH"(2)) (auto simp: mark_nth)
    ultimately show ?thesis using 2 False by simp
  qed simp
qed simp

lemma evict_bytes_prefix:
  assumes "distinct is" and "\<forall>i\<in>set is. i < length cs \<and> \<not> marked_for_removal (cs ! i)"
  shows "\<exists>m \<le> length is. evict_bytes is t b cs = mark_all (take m is) cs
    \<and> (t - sum_list (map (\<lambda>i. rc_size_bytes (cs ! i)) (take m is)) \<le> b \<or> m = length is)"
  using assms
proof (induction "is" t b cs rule: evict_bytes.induct)
  case (2 i "is" t b cs)
  show ?case
  proof (cases "t \<le> b")
    case True
    then show ?thesis by (intro exI [of _ 0]) simp
  next
    case False
    have "\<exists>m \<le> length is. evict_bytes is (t - rc_size_bytes (cs ! i)) b (mark i cs) = mark_all (take m is) (mark i cs)
        \<and> (t - rc_size_bytes (cs ! i) - sum_list (map (\<lambda>j. rc_size_bytes (mark i cs ! j)) (take m is)) \<le> b
           \<or> m = length is)"
      using 2 False by (intro "2.IH"(2)) (auto simp: mark_nth)
    then obtain m where m: "m \<le> length is"
      "evict_bytes is (t - rc_size_bytes (cs ! i)) b (mark i cs) = mark_all (take m is) (mark i cs)"
      "t - rc_size_bytes (cs ! i) - sum_list (map (\<lambda>j. rc_size_bytes (cs ! j)) (take m is)) \<le> b \<or> m = length is"
      by auto
    then show ?thesis using 2 False by (intro exI [of _ "Suc m"]) (auto simp: algebra_simps)
  qed
qed simp

lemma sorted_take_drop:
  "sorted_wrt R xs \<Longrightarrow> x \<in> set (take m xs) \<Longrightarrow> y \<in> set xs \<Longrightarrow> y \<notin> set (take m xs) \<Longrightarrow> R x y"
proof -
  assume a: "sorted_wrt R xs" "x \<in> set (take m xs)" "y \<in> set xs" "y \<notin> set (take m xs)"
  then have "y \<in> set (drop m xs)" by (metis Un_iff append_take_drop_id set_append)
  then show "R x y" using a(1, 2) by (metis append_take_drop_id sorted_wrt_append)
qed

text \<open>The pool of a pass: what it may mark, sorted.\<close>

definition pool :: "(RetentionCandidate \<Rightarrow> bool) \<Rightarrow> RetentionCandidate list \<Rightarrow> nat list" where
  "pool P cs = sort_by (index_less cs) (filter (\<lambda>i. \<not> protected_checkpoint (cs ! i)) (filter (\<lambda>i. P (cs ! i)) [0..<length cs]))"

lemma pool_set: "set (pool P cs) = {i. i < length cs \<and> P (cs ! i) \<and> \<not> protected_checkpoint (cs ! i)}"
  by (auto simp: pool_def evi.sort_by_set)

lemma pool_distinct: "distinct (pool P cs)"
  by (simp add: pool_def evi.sort_by_distinct)

lemma pool_sorted: "sorted_wrt (\<lambda>i j. \<not> index_less cs j i) (pool P cs)"
  by (simp add: pool_def evi.sort_by_sorted)

lemma pool_cold_first:
  "i \<in> set (take m (pool P cs)) \<Longrightarrow> j \<in> set (pool P cs) \<Longrightarrow> j \<notin> set (take m (pool P cs)) \<Longrightarrow>
     \<not> CandidateEvictionLess (cs ! j) (cs ! i)"
  using sorted_take_drop [OF pool_sorted] by (simp add: index_less_def)

lemma mark_over_count_pool:
  assumes "max_keep_checkpoints_per_job cfg > 0"
    and n: "n = length (filter (\<lambda>i. \<not> marked_for_removal (cs ! i)) [0..<length cs])"
  shows "mark_over_count cfg cs =
    mark_all (take (nat (int n - max_keep_checkpoints_per_job cfg)) (pool (\<lambda>c. \<not> marked_for_removal c) cs)) cs"
proof (cases "int n > max_keep_checkpoints_per_job cfg")
  case True
  then have "mark_over_count cfg cs = evict_count (pool (\<lambda>c. \<not> marked_for_removal c) cs)
      (int n - max_keep_checkpoints_per_job cfg) cs"
    using assms by (simp add: mark_over_count_def Let_def pool_def)
  then show ?thesis by (simp add: evict_count_prefix pool_distinct pool_set)
qed (use assms in \<open>simp add: mark_over_count_def Let_def\<close>)

lemma apply_byte_budget_pool:
  fixes b :: "64 word"
  assumes "b \<noteq> 0" and t: "t = sum_list (map (\<lambda>i. rc_size_bytes (cs ! i)) (filter (\<lambda>i. in_budget_scope u (cs ! i)) [0..<length cs]))"
  shows "\<exists>m. apply_byte_budget b u cs = mark_all (take m (pool (in_budget_scope u) cs)) cs
    \<and> (t - sum_list (map (\<lambda>i. rc_size_bytes (cs ! i)) (take m (pool (in_budget_scope u) cs))) \<le> b
       \<or> length (pool (in_budget_scope u) cs) \<le> m)"
proof (cases "t \<le> b")
  case True
  then show ?thesis
    using assms by (intro exI [of _ 0]) (simp add: apply_byte_budget_def Let_def)
next
  case False
  then have "apply_byte_budget b u cs = evict_bytes (pool (in_budget_scope u) cs) t b cs"
    using assms by (simp add: apply_byte_budget_def Let_def pool_def)
  moreover have "\<forall>i\<in>set (pool (in_budget_scope u) cs). i < length cs \<and> \<not> marked_for_removal (cs ! i)"
    by (auto simp: pool_set in_budget_scope_def)
  ultimately show ?thesis
    using evict_bytes_prefix [OF pool_distinct] by (metis order_refl)
qed

text \<open>Counting and summing by index.\<close>

lemma filter_by_index: "map (\<lambda>i. cs ! i) (filter (\<lambda>i. P (cs ! i)) [0..<length cs]) = filter P cs"
  by (metis (no_types, lifting) filter_cong filter_map map_nth o_apply)

lemma length_by_index: "length (filter (\<lambda>i. P (cs ! i)) [0..<length cs]) = length (filter P cs)"
  by (metis filter_by_index length_map)

definition scope_total :: "uid_t \<Rightarrow> RetentionCandidate list \<Rightarrow> 64 word" where
  "scope_total u cs = sum_list (map rc_size_bytes (filter (in_budget_scope u) cs))"

lemma scope_total_index:
  "scope_total u cs = (\<Sum>i | i < length cs \<and> in_budget_scope u (cs ! i). rc_size_bytes (cs ! i))"
proof -
  have "scope_total u cs = sum_list (map (\<lambda>i. rc_size_bytes (cs ! i)) (filter (\<lambda>i. in_budget_scope u (cs ! i)) [0..<length cs]))"
    unfolding scope_total_def by (subst filter_by_index [symmetric]) (simp add: comp_def)
  also have "\<dots> = (\<Sum>i\<in>set (filter (\<lambda>i. in_budget_scope u (cs ! i)) [0..<length cs]). rc_size_bytes (cs ! i))"
    by (rule sum_list_distinct_conv_sum_set) simp
  also have "\<dots> = (\<Sum>i | i < length cs \<and> in_budget_scope u (cs ! i). rc_size_bytes (cs ! i))"
    by (rule sum.cong) auto
  finally show ?thesis .
qed

lemma marked_counts:
  assumes "T \<subseteq> {i. i < length cs \<and> \<not> marked_for_removal (cs ! i)}" and "length cs' = length cs"
    and "\<forall>i<length cs. cs' ! i = (if i \<in> T then (cs ! i)\<lparr>marked_for_removal := True\<rparr> else cs ! i)"
  shows "length (filter (\<lambda>c. \<not> marked_for_removal c) cs') = length (filter (\<lambda>c. \<not> marked_for_removal c) cs) - card T"
proof -
  have "{i. i < length cs' \<and> \<not> marked_for_removal (cs' ! i)}
      = {i. i < length cs \<and> \<not> marked_for_removal (cs ! i)} - T"
    using assms by (auto split: if_splits)
  moreover have "finite T" using assms(1) by (rule finite_subset) simp
  ultimately show ?thesis
    using assms(1) by (simp add: length_filter_conv_card card_Diff_subset)
qed

section \<open>Properties of retention\<close>

text \<open>C33: The count ceiling is met: after the count pass a job keeps at most
  \<^verbatim>\<open>max_keep_checkpoints_per_job\<close> checkpoints that are not marked, unless every one of them is
  protected.\<close>

theorem count_ceiling:
  assumes "0 < max_keep_checkpoints_per_job cfg"
  shows "int (length (filter (\<lambda>c. \<not> marked_for_removal c) (mark_over_count cfg cs))) \<le> max_keep_checkpoints_per_job cfg
    \<or> (\<forall>c\<in>set (mark_over_count cfg cs). \<not> marked_for_removal c \<longrightarrow> protected_checkpoint c)"
proof -
  let ?p = "pool (\<lambda>c. \<not> marked_for_removal c) cs" and ?cs = "mark_over_count cfg cs"
  let ?n = "length (filter (\<lambda>c. \<not> marked_for_removal c) cs)"
  let ?m = "nat (int ?n - max_keep_checkpoints_per_job cfg)"
  have res: "?cs = mark_all (take ?m ?p) cs"
    using mark_over_count_pool [OF assms, of "length (filter (\<lambda>i. \<not> marked_for_removal (cs ! i)) [0..<length cs])" cs]
    length_by_index [of "\<lambda>c. \<not> marked_for_removal c" cs] by simp
  have sub: "set (take ?m ?p) \<subseteq> {i. i < length cs \<and> \<not> marked_for_removal (cs ! i)}"
    using set_take_subset [of ?m ?p] by (auto simp: pool_set)
  then have "\<forall>i\<in>set (take ?m ?p). i < length cs" by auto
  then have nth: "\<forall>i<length cs. ?cs ! i
      = (if i \<in> set (take ?m ?p) then (cs ! i)\<lparr>marked_for_removal := True\<rparr> else cs ! i)"
    unfolding res by (simp add: mark_all_nth)
  show ?thesis
  proof (cases "length ?p \<le> ?m")
    case True
    have "protected_checkpoint (?cs ! i)" if "i < length cs" "\<not> marked_for_removal (?cs ! i)" for i
      using nth that True by (auto simp: pool_set split: if_splits)
    then show ?thesis by (auto simp: in_set_conv_nth res)
  next
    case False
    have "card (set (take ?m ?p)) = ?m"
      using False pool_distinct by (simp add: distinct_card)
    then have "length (filter (\<lambda>c. \<not> marked_for_removal c) ?cs) = ?n - ?m"
      using marked_counts [OF sub _ nth] by (simp add: res)
    moreover have "int (?n - ?m) \<le> max_keep_checkpoints_per_job cfg" using assms by linarith
    ultimately show ?thesis by simp
  qed
qed

theorem count_ceiling_witness:
  "int (length (filter (\<lambda>c. \<not> marked_for_removal c) (mark_over_count sample_config
       [sample_candidate True 5, sample_candidate False 3, sample_candidate False 4]))) \<le> 1
   \<or> (\<forall>c\<in>set (mark_over_count sample_config
       [sample_candidate True 5, sample_candidate False 3, sample_candidate False 4]). \<not> marked_for_removal c \<longrightarrow> protected_checkpoint c)"
proof -
  have "0 < max_keep_checkpoints_per_job sample_config" and one: "max_keep_checkpoints_per_job sample_config = 1"
    by (simp_all add: sample_config_def)
  from count_ceiling [OF this(1)] show ?thesis unfolding one .
qed

text \<open>C32: The byte budgets are met: after a budget pass for a user (or for all users, with
  uid \<open>-1\<close>) the sizes of the checkpoints in its scope that are not marked sum up, as a 64-bit
  word, to at most the budget, unless every one of them is protected.\<close>

theorem byte_budget_met:
  assumes "b \<noteq> 0"
  shows "scope_total u (apply_byte_budget b u cs) \<le> b
    \<or> (\<forall>c\<in>set (apply_byte_budget b u cs). in_budget_scope u c \<longrightarrow> protected_checkpoint c)"
proof -
  let ?p = "pool (in_budget_scope u) cs" and ?cs = "apply_byte_budget b u cs"
  let ?size = "\<lambda>i. rc_size_bytes (cs ! i)" and ?S = "{i. i < length cs \<and> in_budget_scope u (cs ! i)}"
  have tot: "scope_total u cs = sum_list (map ?size (filter (\<lambda>i. in_budget_scope u (cs ! i)) [0..<length cs]))"
    unfolding scope_total_def by (subst filter_by_index [symmetric]) (simp add: comp_def)
  obtain m where res: "?cs = mark_all (take m ?p) cs"
    and fin: "scope_total u cs - sum_list (map ?size (take m ?p)) \<le> b \<or> length ?p \<le> m"
    using apply_byte_budget_pool [OF assms tot] by blast
  have sub: "set (take m ?p) \<subseteq> ?S" using set_take_subset [of m ?p] by (auto simp: pool_set)
  then have "\<forall>i\<in>set (take m ?p). i < length cs" by auto
  then have nth: "?cs ! i = (if i \<in> set (take m ?p) then (cs ! i)\<lparr>marked_for_removal := True\<rparr> else cs ! i)" for i
    unfolding res by (rule mark_all_nth)
  have scope: "{i. i < length ?cs \<and> in_budget_scope u (?cs ! i)} = ?S - set (take m ?p)"
    using nth by (auto simp: res in_budget_scope_def split: if_splits)
  have "scope_total u ?cs = (\<Sum>i\<in>?S - set (take m ?p). rc_size_bytes (?cs ! i))"
    by (simp add: scope_total_index scope)
  also have "\<dots> = (\<Sum>i\<in>?S - set (take m ?p). ?size i)"
    by (rule sum.cong) (auto simp: nth)
  also have "\<dots> = sum ?size ?S - sum ?size (set (take m ?p))"
    using sub by (simp add: sum_diff)
  also have "sum ?size (set (take m ?p)) = sum_list (map ?size (take m ?p))"
    by (rule sum_list_distinct_conv_sum_set [symmetric]) (simp add: pool_distinct)
  finally have left: "scope_total u ?cs = scope_total u cs - sum_list (map ?size (take m ?p))"
    by (simp add: scope_total_index)
  show ?thesis
  proof (cases "length ?p \<le> m")
    case True
    have "protected_checkpoint (?cs ! i)" if "i < length cs" "in_budget_scope u (?cs ! i)" for i
      using nth [of i] that True by (auto simp: pool_set in_budget_scope_def split: if_splits)
    then show ?thesis by (auto simp: in_set_conv_nth res)
  qed (use fin left in simp)
qed

theorem byte_budget_met_witness:
  "scope_total 7 (apply_byte_budget 9 7 [sample_candidate True 5, sample_candidate False 3, sample_candidate False 4]) \<le> 9
   \<or> (\<forall>c\<in>set (apply_byte_budget 9 7 [sample_candidate True 5, sample_candidate False 3, sample_candidate False 4]).
       in_budget_scope 7 c \<longrightarrow> protected_checkpoint c)"
  by (rule byte_budget_met) simp

text \<open>C34: Within a pass the coldest checkpoints go first: a checkpoint that the count pass or a
  budget pass newly marks is never warmer than one in the same scope that it could have marked but
  left, in the order of last restore, restore count, size (larger first), age, job and id.\<close>

theorem coldest_first:
  assumes "i < length cs" and "\<not> marked_for_removal (cs ! i)" and "j < length cs"
    and "\<not> protected_checkpoint (cs ! j)" and "\<not> marked_for_removal (cs ! j)"
    and "cs' = mark_over_count cfg cs \<or> cs' = apply_byte_budget b u cs \<and> in_budget_scope u (cs ! j)"
    and "marked_for_removal (cs' ! i)" and "\<not> marked_for_removal (cs' ! j)"
  shows "\<not> CandidateEvictionLess (cs ! j) (cs ! i)"
proof -
  have "\<exists>P m. cs' = mark_all (take m (pool P cs)) cs \<and> (P (cs ! j) \<or> take m (pool P cs) = [])"
  proof (cases "cs' = mark_over_count cfg cs")
    case True
    show ?thesis
    proof (cases "max_keep_checkpoints_per_job cfg > 0")
      case keep: True
      then show ?thesis using mark_over_count_pool [OF keep refl] True assms(5) by blast
    next
      case False
      then have "cs' = mark_all (take 0 (pool (\<lambda>_. True) cs)) cs"
        using True by (simp add: mark_over_count_def)
      then show ?thesis by blast
    qed
  next
    case False
    then have b: "cs' = apply_byte_budget b u cs" "in_budget_scope u (cs ! j)" using assms(6) by auto
    show ?thesis
    proof (cases "b = 0")
      case True
      then have "cs' = mark_all (take 0 (pool (\<lambda>_. True) cs)) cs"
        using b by (simp add: apply_byte_budget_def)
      then show ?thesis by blast
    next
      case False
      then show ?thesis using apply_byte_budget_pool [OF False refl] b by blast
    qed
  qed
  then obtain P m where cs': "cs' = mark_all (take m (pool P cs)) cs"
    and P: "P (cs ! j) \<or> take m (pool P cs) = []" by blast
  have "\<forall>k\<in>set (take m (pool P cs)). k < length cs"
    using set_take_subset [of m "pool P cs"] by (auto simp: pool_set)
  note nth = mark_all_nth [OF this, folded cs']
  have i: "i \<in> set (take m (pool P cs))" and j: "j \<notin> set (take m (pool P cs))"
    using assms(2, 7, 8) nth [of i] nth [of j] by (auto split: if_splits)
  then have "P (cs ! j)" using P by auto
  then have "j \<in> set (pool P cs)" using assms(3, 4) by (simp add: pool_set)
  then show ?thesis using pool_cold_first i j by blast
qed

theorem coldest_first_witness:
  "\<not> CandidateEvictionLess (sample_candidate False 3) (sample_candidate False 4)"
proof -
  let ?cs = "[sample_candidate False 3, sample_candidate False 4]"
  have "\<not> CandidateEvictionLess (?cs ! 0) (?cs ! 1)"
    by (rule coldest_first [of 1 ?cs 0 "mark_over_count sample_config ?cs" sample_config 0 0])
      (simp, simp add: sample_candidate_def, simp, simp add: sample_candidate_def, simp add: sample_candidate_def,
        simp, code_simp, code_simp)
  then show ?thesis by simp
qed

section \<open>Protected checkpoints survive\<close>

text \<open>What holds of every candidate: it is unprotected if marked, and protected if it is the default
  restore target of its job or the checkpoint of the current request.\<close>

definition candidate_ok :: "string \<Rightarrow> string \<Rightarrow> RetentionCandidate \<Rightarrow> bool" where
  "candidate_ok pj pc c \<longleftrightarrow> (marked_for_removal c \<longrightarrow> \<not> protected_checkpoint c)
     \<and> (checkpoint_id (rc_checkpoint c) \<in> set (initial_protected (rc_job c) pj pc) \<longrightarrow> protected_checkpoint c)"

lemma only_marks_ok: "only_marks cs cs' \<Longrightarrow> \<forall>c\<in>set cs. candidate_ok pj pc c \<Longrightarrow> \<forall>c\<in>set cs'. candidate_ok pj pc c"
  unfolding only_marks_def list_all2_conv_all_nth candidate_ok_def by (fastforce simp: in_set_conv_nth)

lemma protect_newest_mono: "set ids \<subseteq> set (protect_newest k cs ids)"
  by (induction k cs ids rule: protect_newest.induct) auto

lemma make_candidate_Inr:
  assumes "make_candidate root job ids c0 w = (Inr c, w')"
  shows "rc_job c = job \<and> checkpoint_id (rc_checkpoint c) = checkpoint_id c0 \<and> \<not> marked_for_removal c
    \<and> protected_checkpoint c = (checkpoint_id c0 \<in> set ids)"
  using assms by (auto simp: make_candidate_def RefreshCheckpointSize_def bnd_Inr_iff)

lemma collect_Inr:
  "collect f xs w = (Inr ys, w') \<Longrightarrow> list_all2 (\<lambda>x y. \<exists>v v'. f x v = (Inr y, v')) xs ys"
  by (induction xs arbitrary: ys w) (auto simp: bnd_Inr_iff list_all2_Cons1)

lemma slice_ok:
  assumes "collect (make_candidate root job ids) cs w = (Inr part, w')"
    and "set (initial_protected job pj pc) \<subseteq> set ids"
  shows "\<forall>c\<in>set part. candidate_ok pj pc c"
proof -
  have "list_all2 (\<lambda>x c. rc_job c = job \<and> checkpoint_id (rc_checkpoint c) = checkpoint_id x
      \<and> \<not> marked_for_removal c \<and> protected_checkpoint c = (checkpoint_id x \<in> set ids)) cs part"
    by (rule list_all2_mono [OF collect_Inr [OF assms(1)]]) (blast dest: make_candidate_Inr)
  from list_all2_right [OF this] show ?thesis using assms(2) by (fastforce simp: candidate_ok_def)
qed

lemma job_candidates_ok:
  assumes "job_candidates cfg root now pj pc job w = (Inr part, w')"
  shows "\<forall>c\<in>set part. candidate_ok pj pc c"
proof -
  consider "part = []" | cs ids s v v' where "collect (make_candidate root job ids) cs v = (Inr s, v')"
    "set (initial_protected job pj pc) \<subseteq> set ids" "part = mark_over_count cfg (mark_aged cfg now s)"
    using assms protect_newest_mono
    by (fastforce simp: job_candidates_def bnd_Inr_iff Let_def split: if_splits)
  then show ?thesis
  proof cases
    case 2
    then show ?thesis
      using slice_ok [OF 2(1, 2)] only_marks_ok mark_aged_only_marks mark_over_count_only_marks by metis
  qed simp
qed

lemma concat_collect_ok:
  assumes "collect f xs w = (Inr css, w')" and "\<And>x v cs v'. f x v = (Inr cs, v') \<Longrightarrow> \<forall>c\<in>set cs. candidate_ok pj pc c"
  shows "\<forall>c\<in>set (concat css). candidate_ok pj pc c"
proof -
  have "list_all2 (\<lambda>x cs. \<forall>c\<in>set cs. candidate_ok pj pc c) xs css"
    by (rule list_all2_mono [OF collect_Inr [OF assms(1)]]) (use assms(2) in blast)
  from list_all2_right [OF this] show ?thesis by auto
qed

lemma all_candidates_ok:
  assumes "all_candidates cfg root now pj pc w = (Inr cs, w')"
  shows "\<forall>c\<in>set cs. candidate_ok pj pc c"
proof -
  have user: "\<forall>c\<in>set cs. candidate_ok pj pc c" if uc: "user_candidates cfg root now pj pc u v = (Inr cs, v')" for u v cs v'
  proof -
    obtain jobs css s where "collect (job_candidates cfg root now pj pc) jobs s = (Inr css, v')" and "cs = concat css"
      using uc by (auto simp: user_candidates_def bnd_Inr_iff)
    then show ?thesis using concat_collect_ok job_candidates_ok by metis
  qed
  obtain users css s where "collect (user_candidates cfg root now pj pc) users s = (Inr css, w')" and "cs = concat css"
    using assms by (auto simp: all_candidates_def bnd_Inr_iff)
  then show ?thesis using concat_collect_ok user by metis
qed

lemma planned_candidates_ok:
  assumes "planned_candidates cfg root pj pc w = (Inr cs, w')"
  shows "\<forall>c\<in>set cs. candidate_ok pj pc c"
proof -
  have "\<exists>now v cs0 v' cs1. all_candidates cfg root now pj pc v = (Inr cs0, v')
    \<and> (cs1 = cs0 \<or> (\<exists>users. cs1 = apply_user_budgets cfg users cs0))
    \<and> cs = apply_byte_budget (max_bytes_total cfg) (- 1) cs1"
    using assms by (cases "0 < max_bytes_per_user cfg") (auto simp: planned_candidates_def bnd_Inr_iff, blast+)
  then show ?thesis
    using all_candidates_ok only_marks_ok apply_user_budgets_only_marks apply_byte_budget_only_marks by metis
qed

section \<open>Where pruning writes\<close>

text \<open>Gathering rewrites checkpoint metadata (and makes directories above it where they are missing);
  removal touches the directories of marked candidates.\<close>

definition metadata_zone :: "path \<Rightarrow> key \<Rightarrow> bool" where
  "metadata_zone root k \<longleftrightarrow> (\<exists>u j c. prefix k (checkpoint_key root u j c @ [''checkpoint.meta'']))"

definition removal_zone :: "path \<Rightarrow> RetentionCandidate list \<Rightarrow> key \<Rightarrow> bool" where
  "removal_zone root cs k \<longleftrightarrow> (\<exists>c\<in>set cs. marked_for_removal c
     \<and> (prefix (checkpoint_key root (owner_uid (rc_job c)) (job_id (rc_job c)) (checkpoint_id (rc_checkpoint c))) k
      \<or> prefix (export_key root (owner_uid (rc_job c)) (job_id (rc_job c)) (checkpoint_id (rc_checkpoint c))) k))"

lemma RefreshCheckpointSize_keeps [frame_intros]: "keeps (outside K) (RefreshCheckpointSize root job c)"
  unfolding RefreshCheckpointSize_def by (intro frame_intros)

lemma make_candidate_keeps: "keeps (outside (metadata_zone root)) (make_candidate root job ids c)"
proof -
  have "keeps (outside (metadata_zone root)) (SaveCheckpoint root job c)" for c
    by (rule SaveCheckpoint_keeps) (auto simp: metadata_zone_def)
  then show ?thesis unfolding make_candidate_def by (intro frame_intros)
qed

lemma planned_candidates_keeps: "keeps (outside (metadata_zone root)) (planned_candidates cfg root pj pc)"
proof -
  have job: "keeps (outside (metadata_zone root)) (job_candidates cfg root now pj pc job)" for now job
    unfolding job_candidates_def Let_def by (intro make_candidate_keeps frame_intros)
  have user: "keeps (outside (metadata_zone root)) (user_candidates cfg root now pj pc u)" for now u
    unfolding user_candidates_def by (intro job frame_intros)
  have "keeps (outside (metadata_zone root)) (all_candidates cfg root now pj pc)" for now
    unfolding all_candidates_def by (intro user frame_intros)
  then show ?thesis unfolding planned_candidates_def by (intro frame_intros)
qed

lemma remove_marked_keeps: "keeps (outside (removal_zone root cs)) (remove_marked root cs)"
  unfolding remove_marked_def
  by (intro out.for_each_keeps out.if_keeps out.ret_keeps RemoveCheckpoint_keeps) (auto simp: removal_zone_def)

lemma PruneCheckpoints_effect:
  assumes "PruneCheckpoints cfg root pj pc w = (r, w')"
  shows "\<exists>cs. (\<forall>c\<in>set cs. candidate_ok pj pc c)
    \<and> outside (\<lambda>k. metadata_zone root k \<or> removal_zone root cs k) w w'"
proof -
  obtain p w1 where p: "planned_candidates cfg root pj pc w = (p, w1)"
    by (cases "planned_candidates cfg root pj pc w")
  have o1: "outside (metadata_zone root) w w1" by (rule keeps_result [OF planned_candidates_keeps p])
  show ?thesis
  proof (cases p)
    case (Inl e)
    then have "w' = w1" using assms p by (simp add: PruneCheckpoints_def bnd_apply)
    then show ?thesis using o1 by (intro exI [of _ "[]"]) (auto intro: outside_mono)
  next
    case (Inr cs)
    obtain q where q: "remove_marked root cs w1 = (q, w')"
      using assms p Inr by (cases "remove_marked root cs w1")
        (auto simp: PruneCheckpoints_def bnd_apply split: sum.splits)
    have "outside (removal_zone root cs) w1 w'" by (rule keeps_result [OF remove_marked_keeps q])
    then have "outside (\<lambda>k. metadata_zone root k \<or> removal_zone root cs k) w w'"
      using o1 by (blast intro: out.frame_trans outside_mono)
    then show ?thesis using planned_candidates_ok p Inr by blast
  qed
qed

lemma checkpoint_key_inj:
  "prefix (checkpoint_key root u j c) (checkpoint_key root u' j' c' @ r) \<Longrightarrow> j = j' \<and> c = c'"
  by (auto simp: layout_keys)

lemma export_key_inj:
  "prefix (export_key root u j c) (export_key root u' j' c' @ r) \<Longrightarrow> j = j' \<and> c = c'"
  by (auto simp: layout_keys)

lemma trees_apart:
  "\<not> prefix (checkpoint_key root u j c) (export_key root u' j' c' @ r)"
  "\<not> prefix (export_key root u j c) (checkpoint_key root u' j' c' @ r)"
  "\<not> metadata_zone root (export_key root u j c @ r)"
  "x \<noteq> ''checkpoint.meta'' \<Longrightarrow> \<not> metadata_zone root (checkpoint_key root u j c @ x # r)"
  by (auto simp: layout_keys metadata_zone_def)

lemma current_not_removed:
  assumes "\<forall>c\<in>set cs. candidate_ok pj pc c" and "pj \<noteq> []" and "pc \<noteq> []"
  shows "\<not> removal_zone root cs (checkpoint_key root u pj pc @ r)"
    and "\<not> removal_zone root cs (export_key root u pj pc @ r)"
proof -
  have "protected_checkpoint c" if "c \<in> set cs" "job_id (rc_job c) = pj" "checkpoint_id (rc_checkpoint c) = pc" for c
    using assms that by (auto simp: candidate_ok_def initial_protected_def Let_def)
  then have "\<not> (marked_for_removal c \<and> job_id (rc_job c) = pj \<and> checkpoint_id (rc_checkpoint c) = pc)"
    if "c \<in> set cs" for c
    using assms(1) that by (auto simp: candidate_ok_def)
  then show "\<not> removal_zone root cs (checkpoint_key root u pj pc @ r)"
    and "\<not> removal_zone root cs (export_key root u pj pc @ r)"
    unfolding removal_zone_def using checkpoint_key_inj export_key_inj trees_apart(1, 2) by metis+
qed

text \<open>C14: Pruning after a request never touches the checkpoint that the request just produced or
  restored: whatever the configuration, the budgets and the other checkpoints are, and even if
  pruning fails half way, every file of that checkpoint in the private tree except its metadata
  file, and every file of its export, is the same before and after.\<close>

theorem prune_keeps_current:
  assumes "PruneCheckpoints cfg root pj pc w = (r, w')" and "pj \<noteq> []" and "pc \<noteq> []"
    and "k = checkpoint_key root u pj pc @ x # xs \<and> x \<noteq> ''checkpoint.meta'' \<or> k = export_key root u pj pc @ ys"
  shows "fs_get (w_files w') k = fs_get (w_files w) k"
proof -
  obtain cs where cs: "\<forall>c\<in>set cs. candidate_ok pj pc c"
    and o: "outside (\<lambda>k. metadata_zone root k \<or> removal_zone root cs k) w w'"
    using PruneCheckpoints_effect [OF assms(1)] by blast
  have "\<not> (metadata_zone root k \<or> removal_zone root cs k)"
    using assms(4) current_not_removed [OF cs assms(2, 3)] trees_apart(3, 4) by metis
  then show ?thesis by (rule outside_files [OF o])
qed

theorem prune_keeps_current_witness:
  "fs_get (w_files (snd (PruneCheckpoints sample_config ''/s'' ''job-1'' ''ckpt-2'' sample_store)))
       [''s'', ''7'', ''jobs'', ''job-1'', ''checkpoints'', ''ckpt-2'', ''images'']
     = fs_get (w_files sample_store) [''s'', ''7'', ''jobs'', ''job-1'', ''checkpoints'', ''ckpt-2'', ''images'']"
proof -
  let ?r = "PruneCheckpoints sample_config ''/s'' ''job-1'' ''ckpt-2'' sample_store"
  have 1: "?r = (fst ?r, snd ?r)" by simp
  have 2: "[''s'', ''7'', ''jobs'', ''job-1'', ''checkpoints'', ''ckpt-2'', ''images'']
      = checkpoint_key ''/s'' 7 ''job-1'' ''ckpt-2'' @ ''images'' # []" by code_simp
  show ?thesis by (rule prune_keeps_current [OF 1, where u = 7 and x = "''images''" and xs = "[]" and ys = "[]"])
    (simp_all add: 2)
qed

text \<open>C8: Pruning plans only removals that retention allows: no checkpoint that \<^verbatim>\<open>PruneCheckpoints\<close>
  marks is protected, is the latest checkpoint of its job, or is the checkpoint of the current
  request.\<close>

theorem planned_removals_allowed:
  assumes "planned_candidates cfg root pj pc w = (Inr cs, w')" and "c \<in> set cs" and "marked_for_removal c"
  shows "\<not> protected_checkpoint c
    \<and> (latest_checkpoint (rc_job c) \<noteq> [] \<longrightarrow> checkpoint_id (rc_checkpoint c) \<noteq> latest_checkpoint (rc_job c))
    \<and> (pj \<noteq> [] \<and> pc \<noteq> [] \<and> job_id (rc_job c) = pj \<longrightarrow> checkpoint_id (rc_checkpoint c) \<noteq> pc)"
  using bspec [OF planned_candidates_ok [OF assms(1)] assms(2)] assms(3)
  by (auto simp: candidate_ok_def initial_protected_def Let_def split: if_splits)

lemma sample_plan:
  "map_sum id (map marked_for_removal) (fst (planned_candidates sample_config ''/s'' [] [] sample_store))
     = Inr [True, False]"
  by code_simp

lemma sample_planE:
  obtains a b w where "planned_candidates sample_config ''/s'' [] [] sample_store = (Inr [a, b], w)"
    and "marked_for_removal a" and "\<not> marked_for_removal b"
  using sample_plan by (cases "planned_candidates sample_config ''/s'' [] [] sample_store")
    (auto simp: map_sum_def Cons_eq_map_conv split: sum.splits)

theorem planned_removals_allowed_witness:
  "\<exists>a b w. planned_candidates sample_config ''/s'' [] [] sample_store = (Inr [a, b], w)
     \<and> marked_for_removal a \<and> \<not> protected_checkpoint a"
proof -
  obtain a b w where r: "planned_candidates sample_config ''/s'' [] [] sample_store = (Inr [a, b], w)"
    and m: "marked_for_removal a" by (rule sample_planE)
  have "\<not> protected_checkpoint a" using planned_removals_allowed [OF r _ m] by simp
  then show ?thesis using r m by blast
qed

section \<open>Every job keeps its minimum\<close>

lemma protect_newest_covers:
  "k \<le> int (length (protect_newest k cs ids)) \<or> checkpoint_id ` set cs \<subseteq> set (protect_newest k cs ids)"
proof (induction k cs ids rule: protect_newest.induct)
  case (2 k c cs ids)
  then show ?case using protect_newest_mono [of "List.insert (checkpoint_id c) ids" k cs] by auto
qed simp

lemma protect_newest_distinct: "distinct ids \<Longrightarrow> distinct (protect_newest k cs ids)"
  by (induction k cs ids rule: protect_newest.induct) (auto simp: distinct_insert)

lemma protect_newest_within: "set (protect_newest k cs ids) \<subseteq> set ids \<union> checkpoint_id ` set cs"
  by (induction k cs ids rule: protect_newest.induct) auto

lemma protected_count:
  assumes "distinct (map checkpoint_id cs)" and "distinct ids" and "set ids \<subseteq> checkpoint_id ` set cs"
  shows "min k (int (length cs)) \<le> int (length (filter (\<lambda>c. checkpoint_id c \<in> set (protect_newest k cs ids)) cs))"
proof -
  let ?r = "protect_newest k cs ids"
  have sub: "set ?r \<subseteq> checkpoint_id ` set cs" using protect_newest_within [of k cs ids] assms(3) by auto
  have "length (filter (\<lambda>c. checkpoint_id c \<in> set ?r) cs) = length (filter (\<lambda>x. x \<in> set ?r) (map checkpoint_id cs))"
    by (simp add: filter_map comp_def)
  also have "\<dots> = card (set (filter (\<lambda>x. x \<in> set ?r) (map checkpoint_id cs)))"
    using assms(1) by (simp add: distinct_card del: set_filter)
  also have "set (filter (\<lambda>x. x \<in> set ?r) (map checkpoint_id cs)) = set ?r" using sub by auto
  also have "card (set ?r) = length ?r" using protect_newest_distinct [OF assms(2)] by (simp add: distinct_card)
  finally have n: "length (filter (\<lambda>c. checkpoint_id c \<in> set ?r) cs) = length ?r" .
  show ?thesis
  proof (cases "k \<le> int (length ?r)")
    case False
    then have "set ?r = checkpoint_id ` set cs" using protect_newest_covers [of k cs ids] sub by auto
    then have "filter (\<lambda>c. checkpoint_id c \<in> set ?r) cs = cs" by (auto simp: filter_id_conv)
    then show ?thesis by simp
  qed (simp add: n)
qed

lemma list_all2_filter_length:
  "list_all2 P xs ys \<Longrightarrow> (\<And>x y. P x y \<Longrightarrow> Q x \<Longrightarrow> R y) \<Longrightarrow> length (filter Q xs) \<le> length (filter R ys)"
  by (induction rule: list_all2_induct) (auto simp: le_SucI)

lemma initial_protected_distinct: "distinct (initial_protected job pj pc)"
  by (simp add: initial_protected_def Let_def distinct_insert)

lemma try_map_pairs:
  "try_map (\<lambda>c. try_bind (f c) (\<lambda>t. Inr (t, c))) cs = Inr tcs \<Longrightarrow> map snd tcs = cs"
  by (induction cs arbitrary: tcs) (auto simp: try_bind_eq_Inr)

lemma sort_newest_mset: "sort_newest cs = Inr cs' \<Longrightarrow> mset cs' = mset cs"
  by (auto simp: sort_newest_def try_bind_eq_Inr mset_map nw.sort_by_mset dest: try_map_pairs split: if_splits)

lemma job_candidates_InrE:
  assumes "job_candidates cfg root now pj pc job w = (Inr part, w')"
    and "ListCheckpoints root job w = (Inr cs, w1)" and "cs \<noteq> []"
  obtains cs' s v where "mset cs' = mset cs"
    and "collect (make_candidate root job (protect_newest (min_keep_checkpoints_per_job cfg) cs'
      (initial_protected job pj pc))) cs' w1 = (Inr s, v)"
    and "part = mark_over_count cfg (mark_aged cfg now s)"
proof -
  obtain cs' s where "sort_newest cs = Inr cs'"
    and "collect (make_candidate root job (protect_newest (min_keep_checkpoints_per_job cfg) cs'
      (initial_protected job pj pc))) cs' w1 = (Inr s, w')"
    and "part = mark_over_count cfg (mark_aged cfg now s)"
    using assms by (auto simp: job_candidates_def bnd_Inr_iff Let_def)
  then show ?thesis using that sort_newest_mset by blast
qed



section \<open>Marked checkpoints are gone\<close>

text \<open>Removal never creates anything.\<close>

definition shrinks :: "world \<Rightarrow> world \<Rightarrow> bool" where
  "shrinks s t \<longleftrightarrow> (\<forall>k. fs_get (w_files s) k = None \<longrightarrow> fs_get (w_files t) k = None)"

interpretation shr: effect_frame shrinks
  by unfold_locales (auto simp: shrinks_def)

lemma untouched_shrinks: "keeps (outside (\<lambda>_. False)) m \<Longrightarrow> keeps shrinks m"
  by (auto simp: keeps_def outside_def shrinks_def)

lemma fs_remove_all_shrinks: "keeps shrinks (fs_remove_all p)"
  unfolding fs_remove_all_def
  by (intro shr.bnd_keeps untouched_shrinks fault_keeps keepsI)
    (auto simp: shrinks_def fs_get_drop split: option.split)

lemma RemoveTree_shrinks: "keeps shrinks (RemoveTree p)"
  unfolding RemoveTree_def
  by (intro shr.bnd_keeps shr.if_keeps fs_remove_all_shrinks shr.gets_keeps shr.raise_keeps shr.ret_keeps)

lemma RemoveCheckpoint_shrinks: "keeps shrinks (RemoveCheckpoint root job c)"
  unfolding RemoveCheckpoint_def
  by (intro shr.bnd_keeps shr.if_keeps shr.lift_sum_keeps RemoveTree_shrinks shr.ret_keeps
      untouched_shrinks [OF PathExists_keeps])

lemma RemoveCheckpoint_gone:
  assumes "RemoveCheckpoint root job c w = (Inr (), w')"
    and "prefix (checkpoint_key root (owner_uid job) (job_id job) (checkpoint_id c)) k"
  shows "fs_get (w_files w') k = None"
proof -
  obtain cd w1 where cd: "CheckpointDir root (owner_uid job) (job_id job) (checkpoint_id c) = Inr cd"
    and w1: "RemoveTree cd w = (Inr (), w1)"
    and rest: "bnd (lift_sum (ExportCheckpointDir root (owner_uid job) (job_id job) (checkpoint_id c))) (\<lambda>ed.
      bnd (PathExists ed) (\<lambda>ex. if ex then RemoveTree ed else ret ())) w1 = (Inr (), w')"
    using assms(1) by (auto simp: RemoveCheckpoint_def bnd_Inr_iff)
  have "k \<noteq> []" using assms(2) by (auto simp: layout_keys)
  then have "fs_get (w_files w1) k = None"
    using RemoveTree_done [OF w1] CheckpointDir_key [OF cd] assms(2) by simp
  moreover have "keeps shrinks (bnd (lift_sum (ExportCheckpointDir root (owner_uid job) (job_id job) (checkpoint_id c))) (\<lambda>ed.
      bnd (PathExists ed) (\<lambda>ex. if ex then RemoveTree ed else ret ())))"
    by (intro shr.bnd_keeps shr.if_keeps shr.lift_sum_keeps RemoveTree_shrinks shr.ret_keeps
        untouched_shrinks [OF PathExists_keeps])
  then have "shrinks w1 w'" using rest by (rule keeps_result)
  ultimately show ?thesis by (simp add: shrinks_def)
qed

lemma remove_marked_gone:
  assumes "remove_marked root cs w = (Inr (), w')" and "c \<in> set cs" and "marked_for_removal c"
    and "prefix (checkpoint_key root (owner_uid (rc_job c)) (job_id (rc_job c)) (checkpoint_id (rc_checkpoint c))) k"
  shows "fs_get (w_files w') k = None"
  using assms
proof (induction cs arbitrary: w)
  case (Cons d cs)
  obtain w1 where w1: "(if marked_for_removal d then RemoveCheckpoint root (rc_job d) (rc_checkpoint d) else ret ()) w
      = (Inr (), w1)" and rest: "remove_marked root cs w1 = (Inr (), w')"
    using Cons.prems(1) by (auto simp: remove_marked_def bnd_Inr_iff)
  show ?case
  proof (cases "c \<in> set cs")
    case False
    then have "fs_get (w_files w1) k = None"
      using w1 Cons.prems RemoveCheckpoint_gone by auto
    moreover have "keeps shrinks (remove_marked root cs)"
      unfolding remove_marked_def
      by (intro shr.for_each_keeps shr.if_keeps RemoveCheckpoint_shrinks shr.ret_keeps)
    then have "shrinks w1 w'" using rest by (rule keeps_result)
    ultimately show ?thesis by (simp add: shrinks_def)
  qed (use Cons rest in blast)
qed simp

text \<open>C31: A completed prune has removed exactly what it planned: the number it returns is the
  number of marked candidates, and of every marked candidate nothing is left in the private
  tree.\<close>

theorem prune_removes_planned:
  assumes "PruneCheckpoints cfg root pj pc w = (Inr n, w')"
  shows "\<exists>cs w1. planned_candidates cfg root pj pc w = (Inr cs, w1)
    \<and> n = length (filter marked_for_removal cs)
    \<and> (\<forall>c\<in>set cs. marked_for_removal c \<longrightarrow> (\<forall>k.
        prefix (checkpoint_key root (owner_uid (rc_job c)) (job_id (rc_job c)) (checkpoint_id (rc_checkpoint c))) k
        \<longrightarrow> fs_get (w_files w') k = None))"
proof -
  obtain cs w1 where cs: "planned_candidates cfg root pj pc w = (Inr cs, w1)"
    and rm: "remove_marked root cs w1 = (Inr (), w')" and n: "n = length (filter marked_for_removal cs)"
    using assms by (auto simp: PruneCheckpoints_def bnd_Inr_iff)
  show ?thesis
    by (rule exI [of _ cs], rule exI [of _ w1]) (use cs n remove_marked_gone [OF rm] in blast)
qed

theorem prune_removes_planned_witness:
  "\<exists>n w'. PruneCheckpoints sample_config ''/s'' [] [] sample_store = (Inr n, w') \<and> n = 1"
proof -
  let ?r = "PruneCheckpoints sample_config ''/s'' [] [] sample_store"
  have "\<not> isl (fst ?r)" by code_simp
  then obtain n w' where r: "?r = (Inr n, w')" by (cases ?r; cases "fst ?r") auto
  obtain a b w where p: "planned_candidates sample_config ''/s'' [] [] sample_store = (Inr [a, b], w)"
    and ab: "marked_for_removal a" "\<not> marked_for_removal b" by (rule sample_planE)
  from prune_removes_planned [OF r] p have "n = length (filter marked_for_removal [a, b])" by auto
  then show ?thesis using r ab by simp
qed

section \<open>Evaluation\<close>

text \<open>Code equations that wait for the state an action runs on, so that an evaluation follows the run.\<close>

lemmas retention_code [code] =
  fun_cong [OF CurrentTimestampString_def] fun_cong [OF RefreshCheckpointSize_def]
  fun_cong [OF TouchCheckpointRestoreUsage_def] fun_cong [OF make_candidate_def] fun_cong [OF job_candidates_def]
  fun_cong [OF user_candidates_def] fun_cong [OF all_candidates_def] fun_cong [OF remove_marked_def]
  fun_cong [OF planned_candidates_def] fun_cong [OF PruneCheckpoints_def]

end
