(* ===== verification/Worker.thy ===== *)
theory Worker
  imports Files
begin

text \<open>
  The privileged worker, worker.cc: its command line, the checks on its configuration, the CRIU
  commands it builds and the plain (host) dump and restore runs.

  CRIU is a program outside the sources: its exit status and what it does to the files are answers
  of the kernel. The child between \<^verbatim>\<open>fork\<close> and \<^verbatim>\<open>execve\<close> runs in its own copy of the world; a child
  that gives up exits with 127. The results: the configuration checks, the exact shape of the CRIU
  commands, what the worker may write, and how the wait for a host restore ends.
\<close>

section \<open>Configuration\<close>

record WorkerConfig =
  wc_operation :: string
  wc_state_dir :: path
  wc_job_dir :: path
  wc_checkpoint_dir :: path
  wc_criu_bin :: string
  wc_criu_ns_bin :: string
  wc_pid :: pid_t
  wc_namespace_dump :: bool
  wc_namespace_restore :: bool
  wc_extra_args :: "string list"
  wc_tty_fd :: int

definition empty_worker_config :: WorkerConfig where
  "empty_worker_config = \<lparr>wc_operation = [], wc_state_dir = [], wc_job_dir = [], wc_checkpoint_dir = [],
     wc_criu_bin = [], wc_criu_ns_bin = [], wc_pid = 0, wc_namespace_dump = False,
     wc_namespace_restore = False, wc_extra_args = [], wc_tty_fd = - 1\<rparr>"

text \<open>The flags that take a value, and how the value enters the configuration.\<close>

definition value_flags :: "(string \<times> (string \<Rightarrow> WorkerConfig \<Rightarrow> exn + WorkerConfig)) list" where
  "value_flags =
    [(''--operation'', \<lambda>v c. Inr (c\<lparr>wc_operation := v\<rparr>)),
     (''--state-dir'', \<lambda>v c. Inr (c\<lparr>wc_state_dir := v\<rparr>)),
     (''--job-dir'', \<lambda>v c. Inr (c\<lparr>wc_job_dir := v\<rparr>)),
     (''--checkpoint-dir'', \<lambda>v c. Inr (c\<lparr>wc_checkpoint_dir := v\<rparr>)),
     (''--criu-bin'', \<lambda>v c. Inr (c\<lparr>wc_criu_bin := v\<rparr>)),
     (''--criu-ns-bin'', \<lambda>v c. Inr (c\<lparr>wc_criu_ns_bin := v\<rparr>)),
     (''--pid'', \<lambda>v c. try_bind (stol v) (\<lambda>n. Inr (c\<lparr>wc_pid := of_int n\<rparr>))),
     (''--tty-fd'', \<lambda>v c. try_bind (stol v) (\<lambda>n. Inr (c\<lparr>wc_tty_fd := sint (of_int n :: 32 word)\<rparr>))),
     (''--extra-arg'', \<lambda>v c. Inr (c\<lparr>wc_extra_args := wc_extra_args c @ [v]\<rparr>))]"

fun worker_flags :: "string list \<Rightarrow> WorkerConfig \<Rightarrow> exn + WorkerConfig" where
  "worker_flags [] c = Inr c"
| "worker_flags (arg # rest) c =
     (if arg = ''--namespace-dump'' then worker_flags rest (c\<lparr>wc_namespace_dump := True\<rparr>)
      else if arg = ''--namespace-restore'' then worker_flags rest (c\<lparr>wc_namespace_restore := True\<rparr>)
      else (case map_of value_flags arg of
        None \<Rightarrow> Inl (RuntimeError (''unknown worker flag: '' @ arg))
      | Some put \<Rightarrow> (case rest of
          [] \<Rightarrow> Inl (RuntimeError (''missing value for '' @ arg))
        | v # rest' \<Rightarrow> try_bind (put v c) (worker_flags rest'))))"

definition ParseArgs :: "string list \<Rightarrow> exn + WorkerConfig" where
  "ParseArgs argv = worker_flags (drop 1 argv) empty_worker_config"

definition ValidateWorkerConfig :: "WorkerConfig \<Rightarrow> unit io" where
  "ValidateWorkerConfig c =
     (if wc_operation c \<noteq> ''dump'' \<and> wc_operation c \<noteq> ''restore''
      then raise (RuntimeError (''unsupported worker operation: '' @ wc_operation c))
      else if \<not> IsAbsolutePath (wc_criu_bin c) then raise (RuntimeError ''criu path must be absolute'')
      else if (wc_namespace_dump c \<or> wc_namespace_restore c) \<and> \<not> IsAbsolutePath (wc_criu_ns_bin c)
      then raise (RuntimeError ''criu-ns path must be absolute when namespace mode is enabled'')
      else if \<not> is_absolute (wc_state_dir c) \<or> \<not> is_absolute (wc_job_dir c) \<or> \<not> is_absolute (wc_checkpoint_dir c)
      then raise (RuntimeError ''worker paths must be absolute'')
      else
        bnd (EnsureDir (wc_state_dir c) 0x1ED) (\<lambda>_.
        bnd (EnsureDir (wc_job_dir c) 0x1C0) (\<lambda>_.
        bnd (EnsureDir (wc_checkpoint_dir c) 0x1C0) (\<lambda>_.
        bnd (IsPathBeneath (wc_state_dir c) (wc_job_dir c)) (\<lambda>b1.
        if \<not> b1 then raise (RuntimeError ''job dir is outside state dir'')
        else bnd (IsPathBeneath (wc_job_dir c) (wc_checkpoint_dir c)) (\<lambda>b2.
          if \<not> b2 then raise (RuntimeError ''checkpoint dir is outside job dir'')
          else if wc_operation c = ''dump'' \<and> sint (wc_pid c) \<le> 1
          then raise (RuntimeError ''dump requires a valid positive pid'')
          else ret ()))))))"

text \<open>\<^verbatim>\<open>std::ofstream\<close> in append mode. Errors while the line is written are not looked at.\<close>

definition sys_open_append :: "path \<Rightarrow> mode_t \<Rightarrow> int io" where
  "sys_open_append p m = or_fault (\<lambda>w.
     case fs_get (w_files w) (path_key p) of
       None \<Rightarrow> create_node Regular p m w
     | Some n \<Rightarrow> (Inr (if n_kind n = Directory then EISDIR else if n_kind n = Socket then ENXIO else 0), w))"

definition AppendLogLine :: "path \<Rightarrow> string \<Rightarrow> unit io" where
  "AppendLogLine p line =
     bnd (EnsureDir (parent_path p) 0x1C0) (\<lambda>_.
     bnd (sys_open_append p 0x1B6) (\<lambda>e.
     if e \<noteq> 0 then raise (RuntimeError (''failed to open log for append: '' @ p))
     else catch_exn (WriteAllFd (path_key p) (line @ [NL])) (\<lambda>_. ret ())))"

section \<open>The CRIU commands\<close>

definition ContainsArg :: "string list \<Rightarrow> string \<Rightarrow> bool" where
  "ContainsArg args token \<longleftrightarrow> list_ex (\<lambda>a. a = token \<or> starts_with (token @ ''='') a) args"

definition default_args :: "string list \<Rightarrow> string list" where
  "default_args extra =
     (if \<not> ContainsArg extra ''--ghost-limit'' then [''--ghost-limit=64M''] else [])
     @ (if \<not> ContainsArg extra ''--link-remap'' then [''--link-remap''] else []) @ extra"

definition images_dir :: "WorkerConfig \<Rightarrow> path" where
  "images_dir c = path_append (wc_checkpoint_dir c) ''images''"

definition log_path :: "WorkerConfig \<Rightarrow> string \<Rightarrow> path" where
  "log_path c name = path_append (path_append (wc_checkpoint_dir c) ''logs'') name"

definition prepare_dirs :: "WorkerConfig \<Rightarrow> path \<Rightarrow> path \<Rightarrow> unit io" where
  "prepare_dirs c work_dir log =
     bnd (EnsureDir (images_dir c) 0x1C0) (\<lambda>_.
     bnd (EnsureDir work_dir 0x1C0) (\<lambda>_. EnsureDir (parent_path log) 0x1C0))"

definition BuildDumpCommand :: "WorkerConfig \<Rightarrow> string list io" where
  "BuildDumpCommand c =
     bnd (ValidateWorkerConfig c) (\<lambda>_.
     let work_dir = path_append (wc_checkpoint_dir c) ''work''; log = log_path c ''dump.log'' in
     bnd (prepare_dirs c work_dir log) (\<lambda>_.
     ret ((if wc_namespace_dump c then [wc_criu_ns_bin c, ''dump'', ''--criu-binary'', wc_criu_bin c]
           else [wc_criu_bin c, ''dump''])
       @ [''--no-default-config'', ''-t'', PidToString (wc_pid c), ''--images-dir'', images_dir c,
          ''--work-dir'', work_dir, ''--log-file'', log, ''--leave-running'', ''--shell-job'']
       @ default_args (wc_extra_args c))))"

definition BuildRestoreCommand :: "WorkerConfig \<Rightarrow> string list io" where
  "BuildRestoreCommand c =
     bnd (ValidateWorkerConfig c) (\<lambda>_.
     let work_dir = path_append (wc_checkpoint_dir c) ''restore-work''; log = log_path c ''restore.log'';
         pidfile = path_append (wc_checkpoint_dir c) ''restore.pid'' in
     bnd (prepare_dirs c work_dir log) (\<lambda>_.
     ret ((if \<not> wc_namespace_restore c then [wc_criu_bin c, ''restore''] else [])
       @ [''--no-default-config'', ''--images-dir'', images_dir c, ''--work-dir'', work_dir,
          ''--log-file'', log, ''--pidfile'', pidfile, ''--shell-job'', ''-d'']
       @ default_args (wc_extra_args c))))"

section \<open>Running a command\<close>

definition criu_env :: "string list" where
  "criu_env = [''PATH=/usr/sbin:/usr/bin:/sbin:/bin'', ''LANG=C'']"

text \<open>\<^verbatim>\<open>ExecCommand\<close>, in the child: whether the program was started. Where it was not, the child exits
  with 127.\<close>

definition ExecCommand :: "string list \<Rightarrow> bool io" where
  "ExecCommand argv =
     bnd fault (\<lambda>f. if f \<noteq> None then ret False
     else bnd fault (\<lambda>f. if f \<noteq> None then ret False
       else bnd (log_event (ExecEv argv criu_env)) (\<lambda>_. ret True)))"

definition after_exec :: "bool \<Rightarrow> string list \<Rightarrow> unit io" where
  "after_exec started argv = (if started then run_program argv else ret ())"

text \<open>What \<^verbatim>\<open>waitpid\<close> reports of a child, with and without \<^verbatim>\<open>WNOHANG\<close>; \<open>None\<close> is a child that has not
  ended.\<close>

definition child_status :: "bool \<Rightarrow> pid_t \<Rightarrow> bool \<Rightarrow> wait_status option io" where
  "child_status started child nohang = answer (\<lambda>k t.
     if \<not> started then Some (Exited 127)
     else if nohang then k_wait k t child else Some (k_exit k t child))"

definition ForkExec :: "string list \<Rightarrow> int io" where
  "ForkExec argv =
     bnd (call_or_throw ''fork'') (\<lambda>_.
     bnd (answer k_fork) (\<lambda>child.
     bnd (fork_child (ExecCommand argv)) (\<lambda>started.
     bnd (after_exec started argv) (\<lambda>_.
     bnd (call_or_throw ''waitpid'') (\<lambda>_.
     bnd (child_status started child False) (\<lambda>status.
     if status \<noteq> Some (Exited 0)
     then raise (RuntimeError (''worker child command failed: '' @ JoinCommandLine argv))
     else ret 0))))))"

text \<open>\<^verbatim>\<open>PrepareControllingTty\<close>, in the child. The descriptors of the child's standard streams are
  changed by \<^verbatim>\<open>dup2\<close>, which is an event; terminals have no other state here.\<close>

definition dup_onto :: "string \<Rightarrow> int \<Rightarrow> int \<Rightarrow> unit io" where
  "dup_onto context fd n = bnd (call_or_throw context) (\<lambda>_. log_event (DupEv fd n))"

definition PrepareControllingTty :: "int \<Rightarrow> unit io" where
  "PrepareControllingTty client_tty_fd =
     bnd (answer (\<lambda>k _. k_isatty k)) (\<lambda>isatty.
     if client_tty_fd \<ge> 0 \<and> isatty client_tty_fd then
       bnd (for_each (dup_onto ''dup2(client tty)'' client_tty_fd) [0, 1, 2]) (\<lambda>_.
       bnd (if client_tty_fd > 2 then bnd sys_close (\<lambda>_. ret ()) else ret ()) (\<lambda>_.
       bnd fault (\<lambda>f. case f of
         None \<Rightarrow> call_or_throw ''tcsetpgrp''
       | Some e \<Rightarrow> if e \<noteq> EPERM then ThrowErrno ''ioctl(TIOCSCTTY)'' e else ret ())))
     else if isatty 0 then
       bnd (call_or_throw ''ioctl(TIOCSCTTY)'') (\<lambda>_. call_or_throw ''tcsetpgrp'')
     else
       bnd (call_or_throw ''openpty'') (\<lambda>_.
       bnd (answer k_fd) (\<lambda>slave.
       bnd (dup_onto ''dup2(slave tty)'' slave 0) (\<lambda>_.
       bnd (call_or_throw ''ioctl(TIOCSCTTY)'') (\<lambda>_.
       bnd (call_or_throw ''tcsetpgrp'') (\<lambda>_.
       bnd (if slave > 2 then bnd sys_close (\<lambda>_. ret ()) else ret ()) (\<lambda>_.
       bnd fault (\<lambda>f. if f = None then bnd sys (\<lambda>_. ret ()) else ret ()))))))))"

definition restore_child :: "string list \<Rightarrow> int \<Rightarrow> bool io" where
  "restore_child argv client_tty_fd = catch_exn
     (bnd (call_or_throw ''setsid'') (\<lambda>_.
      bnd (PrepareControllingTty client_tty_fd) (\<lambda>_. ExecCommand argv))) (\<lambda>_. ret False)"

section \<open>Waiting for a host restore\<close>

definition kHostRestoreTerminationGrace :: nat where
  "kHostRestoreTerminationGrace = 500"

text \<open>
  The wait loop of \<^verbatim>\<open>ForkExecRestoreWithControllingTty\<close>. \<open>sig\<close> is
  \<^verbatim>\<open>g_host_restore_termination_signal\<close>, which the signal handler may set while \<^verbatim>\<open>waitpid\<close> runs;
  \<open>deadline\<close> is \<open>None\<close> until the termination has been forwarded. The loop may run as long as the
  child does, so it gets fuel: \<open>None\<close> is a loop that has not ended, otherwise the result is the
  errno of a failed \<^verbatim>\<open>waitpid\<close>, or the status and the signal.
\<close>

datatype host_step = Ended "int + wait_status \<times> int" | Again int "nat option"

text \<open>Forwarding the termination to the process group of the restore.\<close>

definition forward :: "pid_t \<Rightarrow> int \<Rightarrow> nat io" where
  "forward child sig = bnd (sys_kill (- sint child) sig) (\<lambda>_.
     bnd steady_now (\<lambda>now. ret (now + kHostRestoreTerminationGrace)))"

definition host_react :: "pid_t \<Rightarrow> int option \<Rightarrow> wait_status option \<Rightarrow> int \<Rightarrow> nat option \<Rightarrow> host_step io" where
  "host_react child failed status sig deadline = (case failed of
     Some e \<Rightarrow>
       if e = EINTR then
         (if sig \<noteq> 0 \<and> deadline = None then bnd (forward child sig) (\<lambda>d. ret (Again sig (Some d)))
          else ret (Again sig deadline))
       else ret (Ended (Inl e))
   | None \<Rightarrow> (case status of
       Some st \<Rightarrow> ret (Ended (Inr (st, sig)))
     | None \<Rightarrow>
         bnd (case deadline of
            None \<Rightarrow> forward child (if sig \<noteq> 0 then sig else 15)
          | Some d \<Rightarrow> bnd steady_now (\<lambda>now.
              bnd (if now \<ge> d then sys_kill (- sint child) 9 else ret ()) (\<lambda>_. ret d))) (\<lambda>d.
         bnd (sys_sleep 50) (\<lambda>_. ret (Again sig (Some d))))))"

definition host_poll :: "bool \<Rightarrow> string list \<Rightarrow> pid_t \<Rightarrow> int \<Rightarrow> nat option \<Rightarrow> host_step io" where
  "host_poll started argv child sig deadline =
     bnd fault (\<lambda>f.
     bnd (after_exec started argv) (\<lambda>_.
     bnd (child_status started child (sig \<noteq> 0 \<or> deadline \<noteq> None)) (\<lambda>status.
     bnd (answer (\<lambda>k t. if k_signal k t \<noteq> 0 then k_signal k t else sig)) (\<lambda>sig.
     host_react child f status sig deadline))))"

primrec host_wait ::
  "nat \<Rightarrow> bool \<Rightarrow> string list \<Rightarrow> pid_t \<Rightarrow> int \<Rightarrow> nat option \<Rightarrow> (int + wait_status \<times> int) option io" where
  "host_wait 0 started argv child sig deadline = ret None"
| "host_wait (Suc fuel) started argv child sig deadline =
     bnd (host_poll started argv child sig deadline) (\<lambda>s. case s of
       Ended r \<Rightarrow> ret (Some r)
     | Again sig deadline \<Rightarrow> host_wait fuel started argv child sig deadline)"

definition restore_signals :: "unit io" where
  "restore_signals = bnd sys (\<lambda>_. bnd sys (\<lambda>_. bnd sys (\<lambda>_. ret ())))"

definition host_restore_end :: "string list \<Rightarrow> (int + wait_status \<times> int) option \<Rightarrow> int option io" where
  "host_restore_end argv r = (case r of
     None \<Rightarrow> ret None
   | Some (Inl e) \<Rightarrow> bnd restore_signals (\<lambda>_. ThrowErrno ''waitpid'' e)
   | Some (Inr (status, sig)) \<Rightarrow> bnd restore_signals (\<lambda>_.
       if sig \<noteq> 0
       then raise (RuntimeError (''worker child command interrupted by signal '' @ show_int sig))
       else if status \<noteq> Exited 0
       then raise (RuntimeError (''worker child command failed: '' @ JoinCommandLine argv))
       else ret (Some 0)))"

definition ForkExecRestoreWithControllingTty :: "nat \<Rightarrow> string list \<Rightarrow> int \<Rightarrow> int option io" where
  "ForkExecRestoreWithControllingTty fuel argv client_tty_fd =
     bnd (call_or_throw ''fork'') (\<lambda>_.
     bnd (answer k_fork) (\<lambda>child.
     bnd (fork_child (restore_child argv client_tty_fd)) (\<lambda>started.
     bnd (if client_tty_fd > 2 then bnd sys_close (\<lambda>_. ret ()) else ret ()) (\<lambda>_.
     bnd (for_each (\<lambda>_. call_or_throw ''sigaction'') [0, 1, 2 :: int]) (\<lambda>_.
     bnd (host_wait fuel started argv child 0 None) (host_restore_end argv))))))"

section \<open>The wait ends\<close>

lemma after_exec_later: "keeps later (after_exec b argv)"
  unfolding after_exec_def by (intro lat.if_keeps run_program_later lat.ret_keeps)

lemma forward_ends: "\<exists>d w'. forward child sig w = (Inr d, w') \<and> later w w'"
proof -
  have k: "keeps later (forward child sig)" unfolding forward_def by (intro later_calls after_exec_later)
  show ?thesis using keepsD [OF k, of w]
    by (auto simp: forward_def sys_kill_def steady_now_def log_event_def bnd_apply sys_def split: list.split)
qed

lemma after_exec_ends: "\<exists>w'. after_exec b argv w = (Inr (), w') \<and> later w w' \<and> w_tick w' = w_tick w"
  using keepsD [OF after_exec_later, of w b argv] by (auto simp: after_exec_def run_program_def)

lemma host_react_ends:
  "\<exists>s w'. host_react child f st sig deadline w = (Inr s, w') \<and> later w w'
     \<and> ((\<exists>r. s = Ended r) \<or> f \<noteq> None \<or> st = None)"
proof (cases f)
  case (Some e)
  then show ?thesis using forward_ends [of child sig w] lat.frame_refl by (auto simp: host_react_def bnd_apply)
next
  case None
  show ?thesis
  proof (cases st)
    case (Some x)
    then show ?thesis using None lat.frame_refl by (simp add: host_react_def)
  next
    case no: None
    let ?m = "case deadline of None \<Rightarrow> forward child (if sig \<noteq> 0 then sig else 15)
          | Some d \<Rightarrow> bnd steady_now (\<lambda>now. bnd (if now \<ge> d then sys_kill (- sint child) 9 else ret ()) (\<lambda>_. ret d))"
    have "\<exists>d v. ?m w = (Inr d, v) \<and> later w v"
    proof (cases deadline)
      case (Some d)
      then show ?thesis using kill_ends [of "- sint child" 9 w] lat.frame_refl
        by (cases "d \<le> w_mono w") (auto simp: bnd_apply steady_now_def)
    qed (use forward_ends in auto)
    then obtain d v where d: "?m w = (Inr d, v)" "later w v" by blast
    obtain u where u: "sys_sleep 50 v = (Inr (), u)" "later v u" using sleep_ends by blast
    have "host_react child f st sig deadline w = bnd ?m (\<lambda>d. bnd (sys_sleep 50) (\<lambda>_. ret (Again sig (Some d)))) w"
      using None no by (simp add: host_react_def)
    then show ?thesis using d u no lat.frame_trans [OF d(2) u(2)] by (simp add: bnd_apply [of ?m] bnd_apply [of "sys_sleep 50"])
  qed
qed

text \<open>A pass that does not end the wait used up a system call failure or saw the child running.\<close>

lemma host_poll_ends:
  "\<exists>s w'. host_poll started argv child sig deadline w = (Inr s, w') \<and> later w w' \<and> w_tick w < w_tick w'
     \<and> ((\<exists>r. s = Ended r) \<or> length (w_script w') < length (w_script w)
        \<or> k_wait (w_kernel w) (Suc (w_tick w)) child = None)"
proof -
  obtain f w1 where f: "fault w = (Inr f, w1)" by (rule fault_cases [of w]) blast+
  obtain w2 where w2: "after_exec started argv w1 = (Inr (), w2)" "later w1 w2" "w_tick w2 = w_tick w1"
    using after_exec_ends by blast
  have l1: "later w w1" using keeps_later [OF fault_keeps] f by (rule keeps_result)
  have k: "w_kernel w2 = w_kernel w" and t: "w_tick w2 = Suc (w_tick w)"
    and s: "f \<noteq> None \<Longrightarrow> length (w_script w2) < length (w_script w)"
    using l1 w2(2, 3) fault_tick [OF f] by (auto simp: later_def)
  define st where "st = (if \<not> started then Some (Exited 127) else if sig \<noteq> 0 \<or> deadline \<noteq> None
    then k_wait (w_kernel w2) (w_tick w2) child else Some (k_exit (w_kernel w2) (w_tick w2) child))"
  define sig' where "sig' = (if k_signal (w_kernel w2) (w_tick w2) \<noteq> 0 then k_signal (w_kernel w2) (w_tick w2) else sig)"
  have run: "host_poll started argv child sig deadline w = host_react child f st sig' deadline w2"
    unfolding host_poll_def bnd_apply f prod.case sum.case w2(1) child_status_def answer_def gets_apply st_def sig'_def
    by (rule refl)
  obtain x v where x: "host_react child f st sig' deadline w2 = (Inr x, v)" "later w2 v"
    "(\<exists>r. x = Ended r) \<or> f \<noteq> None \<or> st = None"
    using host_react_ends [of child f st sig' deadline w2] by (elim exE conjE)
  have "later w v" using lat.frame_trans [OF lat.frame_trans [OF l1 w2(2)] x(2)] .
  moreover have "st = None \<Longrightarrow> k_wait (w_kernel w) (Suc (w_tick w)) child = None"
    by (auto simp: st_def k t split: if_splits)
  moreover have "f \<noteq> None \<Longrightarrow> length (w_script v) < length (w_script w)"
    using s x(2) unfolding later_def by linarith
  moreover have "w_tick w < w_tick v" using t x(2) unfolding later_def by linarith
  ultimately show ?thesis using x unfolding run by blast
qed

lemma host_wait_ends:
  assumes "\<forall>t\<ge>N. k_wait (w_kernel w) t child \<noteq> None"
    and "(N - w_tick w) + length (w_script w) < fuel"
  shows "\<exists>r w'. host_wait fuel started argv child sig deadline w = (Inr (Some r), w')"
  using assms
proof (induction fuel arbitrary: w sig deadline)
  case (Suc fuel)
  obtain s v where s: "host_poll started argv child sig deadline w = (Inr s, v)" and l: "later w v" "w_tick w < w_tick v"
    and c: "(\<exists>r. s = Ended r) \<or> length (w_script v) < length (w_script w) \<or> k_wait (w_kernel w) (Suc (w_tick w)) child = None"
    using host_poll_ends [of started argv child sig deadline w] by blast
  show ?case
  proof (cases s)
    case (Again sig' d')
    have "Suc (w_tick w) < N" if "k_wait (w_kernel w) (Suc (w_tick w)) child = None"
      using Suc.prems(1) that not_less by blast
    then have "N - w_tick v + length (w_script v) < fuel"
      using c Again l Suc.prems(2) by (auto simp: later_def)
    moreover have "\<forall>t\<ge>N. k_wait (w_kernel v) t child \<noteq> None" using Suc.prems(1) l(1) by (simp add: later_def)
    ultimately show ?thesis using Suc.IH [of v sig' d'] s Again by (simp add: bnd_apply)
  qed (simp add: s bnd_apply)
qed simp

lemma host_restore_end_Some: "fst (host_restore_end argv (Some r) w) \<noteq> Inr None"
  by (cases r; cases "projr r") (auto simp: host_restore_end_def bnd_apply ThrowErrno_def split: prod.split sum.split)



section \<open>What the worker writes and starts\<close>

text \<open>The places a run with this configuration may touch: the three directories with what is above
  them, and everything below the checkpoint directory.\<close>

definition worker_zone :: "WorkerConfig \<Rightarrow> key \<Rightarrow> bool" where
  "worker_zone c k \<longleftrightarrow> prefix k (path_key (wc_state_dir c)) \<or> prefix k (path_key (wc_job_dir c))
     \<or> near (path_key (wc_checkpoint_dir c)) k"

text \<open>A configuration that passed the checks on its own text.\<close>

definition checked_config :: "WorkerConfig \<Rightarrow> bool" where
  "checked_config c \<longleftrightarrow> (wc_operation c = ''dump'' \<or> wc_operation c = ''restore'')
     \<and> IsAbsolutePath (wc_criu_bin c)
     \<and> (wc_namespace_dump c \<or> wc_namespace_restore c \<longrightarrow> IsAbsolutePath (wc_criu_ns_bin c))
     \<and> is_absolute (wc_state_dir c) \<and> is_absolute (wc_job_dir c) \<and> is_absolute (wc_checkpoint_dir c)
     \<and> (wc_operation c = ''dump'' \<longrightarrow> 1 < sint (wc_pid c))"

lemma ValidateWorkerConfig_Inr: "ValidateWorkerConfig c w = (Inr (), w') \<Longrightarrow> checked_config c"
  by (auto simp: ValidateWorkerConfig_def checked_config_def bnd_Inr_iff split: if_splits)

lemma ValidateWorkerConfig_keeps: "keeps (outside (worker_zone c)) (ValidateWorkerConfig c)"
  unfolding ValidateWorkerConfig_def
  by (intro frame_intros) (auto simp: worker_zone_def near_def)

lemma below_checkpoint:
  "prefix k (path_key (wc_checkpoint_dir c) @ r) \<Longrightarrow> worker_zone c k"
  by (auto simp: worker_zone_def near_def prefix_append)

lemma worker_path_keys:
  "path_key (images_dir c) = path_key (wc_checkpoint_dir c) @ [''images'']"
  "path_key (log_path c ''dump.log'') = path_key (wc_checkpoint_dir c) @ [''logs'', ''dump.log'']"
  "path_key (log_path c ''restore.log'') = path_key (wc_checkpoint_dir c) @ [''logs'', ''restore.log'']"
  by (simp_all add: images_dir_def log_path_def)

lemma parent_zone: "(\<And>k. prefix k (path_key p) \<Longrightarrow> K k) \<Longrightarrow> prefix k (path_key (parent_path p)) \<Longrightarrow> K k"
  using parent_key_prefix [of p] prefix_order.order_trans by blast

lemma sys_open_append_keeps [frame_intros]: "K (path_key p) \<Longrightarrow> keeps (outside K) (sys_open_append p m)"
  unfolding sys_open_append_def
  by (intro or_fault_keeps keepsI) (auto simp: out.frame_refl keepsD [OF create_node_keeps] split: option.split)

lemma AppendLogLine_keeps:
  assumes "\<And>k. prefix k (path_key p) \<Longrightarrow> K k"
  shows "keeps (outside K) (AppendLogLine p line)"
  unfolding AppendLogLine_def by (intro frame_intros) (use parent_zone [of p K] assms in auto)

lemma prepare_dirs_keeps:
  assumes "\<And>k. prefix k (path_key d) \<Longrightarrow> worker_zone c k" and "\<And>k. prefix k (path_key l) \<Longrightarrow> worker_zone c k"
  shows "keeps (outside (worker_zone c)) (prepare_dirs c d l)"
  unfolding prepare_dirs_def
  by (intro frame_intros) (use assms parent_zone [of l "worker_zone c"] below_checkpoint [of _ c "[''images'']"] in \<open>auto simp: worker_path_keys\<close>)

lemma BuildDumpCommand_keeps: "keeps (outside (worker_zone c)) (BuildDumpCommand c)"
  unfolding BuildDumpCommand_def Let_def
  by (intro out.bnd_keeps ValidateWorkerConfig_keeps prepare_dirs_keeps out.ret_keeps)
    (auto simp: worker_path_keys intro: below_checkpoint)

lemma BuildRestoreCommand_keeps: "keeps (outside (worker_zone c)) (BuildRestoreCommand c)"
  unfolding BuildRestoreCommand_def Let_def
  by (intro out.bnd_keeps ValidateWorkerConfig_keeps prepare_dirs_keeps out.ret_keeps)
    (auto simp: worker_path_keys intro: below_checkpoint)

text \<open>What CRIU may do: it writes below the directories it was given.\<close>

definition criu_confined :: "WorkerConfig \<Rightarrow> kernel \<Rightarrow> bool" where
  "criu_confined c ker \<longleftrightarrow>
     (\<forall>t argv tr k. \<not> worker_zone c k \<longrightarrow> fs_get (k_spawn ker t argv tr) k = fs_get tr k)"

text \<open>What the worker may do to processes: start CRIU, with the scrubbed environment and after the
  checks, rearrange the standard streams of that child, and signal it.\<close>

definition worker_event :: "WorkerConfig \<Rightarrow> event \<Rightarrow> bool" where
  "worker_event c e \<longleftrightarrow> (case e of
     ExecEv argv env \<Rightarrow> env = criu_env \<and> checked_config c \<and> argv \<noteq> []
       \<and> (hd argv = wc_criu_bin c \<or> wc_namespace_dump c \<and> hd argv = wc_criu_ns_bin c)
       \<and> suffix (wc_extra_args c) argv
   | DupEv _ _ \<Rightarrow> True | SignalEv _ _ \<Rightarrow> True | _ \<Rightarrow> False)"

abbreviation worker_frame :: "WorkerConfig \<Rightarrow> world \<Rightarrow> world \<Rightarrow> bool" where
  "worker_frame c \<equiv> affects (criu_confined c) (worker_zone c) (worker_event c)"

lemma run_program_affects: "keeps (worker_frame c) (run_program argv)"
  by (rule keepsI) (simp add: run_program_def affects_def criu_confined_def)

lemma fork_child_frame:
  assumes "keeps (affects (\<lambda>_. True) (\<lambda>_. True) E) m"
  shows "keeps (affects P K E) (fork_child m)"
proof (rule keepsI)
  fix w :: world
  let ?w = "w\<lparr>w_script := k_child (w_kernel w) (w_tick w)\<rparr>"
  have "affects (\<lambda>_. True) (\<lambda>_. True) E ?w (snd (m ?w))" using assms by (rule keepsD)
  then show "affects P K E w (snd (fork_child m w))"
    by (auto simp: affects_def fork_child_def split: prod.split)
qed

lemma ExecCommand_affects: "E (ExecEv argv criu_env) \<Longrightarrow> keeps (affects P K E) (ExecCommand argv)"
  unfolding ExecCommand_def by (intro aff_keeps log_event_affects keeps_affects [OF fault_keeps])

lemma dup_onto_affects: "(\<And>a b. E (DupEv a b)) \<Longrightarrow> keeps (affects P K E) (dup_onto c fd n)"
  unfolding dup_onto_def by (intro aff_keeps log_event_affects keeps_affects [OF call_or_throw_keeps])

lemma PrepareControllingTty_affects: "(\<And>a b. E (DupEv a b)) \<Longrightarrow> keeps (affects P K E) (PrepareControllingTty fd)"
  unfolding PrepareControllingTty_def
  by (intro aff_keeps option_keeps dup_onto_affects keeps_affects [OF call_or_throw_keeps] keeps_affects [OF answer_keeps]
      keeps_affects [OF sys_close_keeps] keeps_affects [OF fault_keeps] keeps_affects [OF ThrowErrno_keeps]
      keeps_affects [OF sys_keeps])

lemma restore_child_affects:
  "E (ExecEv argv criu_env) \<Longrightarrow> (\<And>a b. E (DupEv a b)) \<Longrightarrow> keeps (affects P K E) (restore_child argv fd)"
  unfolding restore_child_def
  by (intro aff_keeps PrepareControllingTty_affects ExecCommand_affects keeps_affects [OF call_or_throw_keeps])

lemma after_exec_affects: "keeps (worker_frame c) (after_exec b argv)"
  unfolding after_exec_def by (intro aff_keeps run_program_affects)

lemma child_status_keeps [frame_intros]: "keeps (outside K) (child_status b p n)"
  unfolding child_status_def by (intro frame_intros)

lemma ForkExec_affects: "worker_event c (ExecEv argv criu_env) \<Longrightarrow> keeps (worker_frame c) (ForkExec argv)"
  unfolding ForkExec_def
  by (intro aff_keeps fork_child_frame ExecCommand_affects after_exec_affects keeps_affects [OF call_or_throw_keeps]
      keeps_affects [OF answer_keeps] keeps_affects [OF child_status_keeps])

lemma forward_affects: "(\<And>t s. E (SignalEv t s)) \<Longrightarrow> keeps (affects P K E) (forward child sig)"
  unfolding forward_def by (intro aff_keeps sys_kill_affects keeps_affects [OF steady_now_keeps])

lemma host_wait_affects: "keeps (worker_frame c) (host_wait fuel b argv child sig d)"
proof (induction fuel arbitrary: sig d)
  case (Suc fuel)
  have E: "worker_event c (SignalEv t s)" for t s by (simp add: worker_event_def)
  have "keeps (worker_frame c) (host_react child f st s d)" for f st s d
    unfolding host_react_def
    by (intro aff_keeps option_keeps forward_affects sys_kill_affects E keeps_affects [OF steady_now_keeps]
        keeps_affects [OF sys_sleep_keeps])
  then have "keeps (worker_frame c) (host_poll b argv child s d)" for s d
    unfolding host_poll_def
    by (intro aff_keeps after_exec_affects keeps_affects [OF fault_keeps] keeps_affects [OF child_status_keeps]
        keeps_affects [OF answer_keeps])
  then show ?case
    unfolding host_wait.simps by (intro aff.bnd_keeps) (auto intro: aff.ret_keeps Suc.IH split: host_step.split)
qed (simp add: aff.ret_keeps)

lemma host_restore_end_keeps: "keeps (outside K) (host_restore_end argv r)"
proof -
  have s: "keeps (outside K) restore_signals" unfolding restore_signals_def by (intro frame_intros)
  show ?thesis unfolding host_restore_end_def
    by (auto split: option.split sum.split intro!: s frame_intros)
qed

lemma ForkExecRestore_affects:
  assumes "worker_event c (ExecEv argv criu_env)"
  shows "keeps (worker_frame c) (ForkExecRestoreWithControllingTty fuel argv fd)"
  unfolding ForkExecRestoreWithControllingTty_def
  by (intro aff_keeps fork_child_frame restore_child_affects assms host_wait_affects
      keeps_affects [OF call_or_throw_keeps] keeps_affects [OF answer_keeps] keeps_affects [OF sys_close_keeps]
      keeps_affects [OF host_restore_end_keeps])
    (simp add: worker_event_def)

section \<open>Evaluation\<close>

text \<open>Code equations that wait for the state an action runs on, so that an evaluation follows the run.\<close>

lemmas worker_code [code] =
  fun_cong [OF ValidateWorkerConfig_def] fun_cong [OF sys_open_append_def] fun_cong [OF AppendLogLine_def]
  fun_cong [OF prepare_dirs_def] fun_cong [OF BuildDumpCommand_def] fun_cong [OF BuildRestoreCommand_def]
  fun_cong [OF ExecCommand_def] fun_cong [OF after_exec_def] fun_cong [OF child_status_def] fun_cong [OF ForkExec_def]
  fun_cong [OF dup_onto_def] fun_cong [OF PrepareControllingTty_def] fun_cong [OF restore_child_def]
  fun_cong [OF forward_def] fun_cong [OF host_react_def] fun_cong [OF host_poll_def] fun_cong [OF restore_signals_def]
  fun_cong [OF host_restore_end_def] fun_cong [OF ForkExecRestoreWithControllingTty_def]

end
