(* ===== verification/Namespace.thy ===== *)
theory Namespace
  imports Worker "HOL-Library.Code_Target_Nat"
begin

text \<open>
  Restoring in a new pid namespace, worker.cc: the readers of \<^verbatim>\<open>/proc\<close> that find children and the pids
  a process has in the nested namespaces, the status pipe between the namespace's init process and
  the worker, the two processes themselves, and the worker's main function.

  The init process is a child that shares the files with the worker. Its loop runs as long as the
  restored processes do, so it gets fuel. What arrives on the pipe, and when, is the worker's input: a
  list of pieces, with \<open>None\<close> for 50 ms in which nothing came and an empty piece for the end.
\<close>

section \<open>Children and their pids\<close>

definition extract_ll :: "string \<Rightarrow> (int \<times> string) option" where
  "extract_ll s = (case scan_num s of
     None \<Rightarrow> None
   | Some p \<Rightarrow> if - (2 ^ 63) \<le> signed_value p \<and> signed_value p < 2 ^ 63
               then Some (signed_value p, snd (snd p)) else None)"

lemma scan_num_shorter:
  assumes "scan_num s = Some p"
  shows "length (snd (snd p)) < length s"
proof -
  define t where "t = dropWhile isspace s"
  define u where "u = (case t of c # r \<Rightarrow> if c = CHR ''-'' \<or> c = CHR ''+'' then r else t | [] \<Rightarrow> t)"
  have "takeWhile isdigit u \<noteq> []" and r: "snd (snd p) = dropWhile isdigit u"
    using assms unfolding scan_num_def Let_def t_def [symmetric] u_def [symmetric] by (auto split: if_splits)
  then have "length (dropWhile isdigit u) < length u"
    by (metis length_append length_greater_0_conv less_add_same_cancel2 takeWhile_dropWhile_id)
  moreover have "length u \<le> length t" by (auto simp: u_def split: list.split)
  moreover have "length t \<le> length s" by (simp add: t_def length_dropWhile_le)
  ultimately show ?thesis using r by simp
qed

function extract_all :: "string \<Rightarrow> int list" where
  "extract_all s = (case extract_ll s of None \<Rightarrow> [] | Some (v, rest) \<Rightarrow> v # extract_all rest)"
  by pat_completeness auto
termination
  by (relation "measure length") (auto simp: extract_ll_def split: option.splits if_splits dest: scan_num_shorter)

declare extract_all.simps [simp del]

definition proc_dir :: "pid_t \<Rightarrow> path" where
  "proc_dir pid = path_append ''/proc'' (PidToString pid)"

definition ReadChildPids :: "pid_t \<Rightarrow> pid_t list io" where
  "ReadChildPids pid =
     bnd (ReadTextFile (path_append (path_append (path_append (proc_dir pid) ''task'') (PidToString pid)) ''children''))
       (\<lambda>s. ret (map of_int (filter (\<lambda>v. v > 0) (extract_all s))))"

definition ReadNSpidValues :: "pid_t \<Rightarrow> pid_t list io" where
  "ReadNSpidValues pid =
     bnd (ReadTextFile (path_append (proc_dir pid) ''status''))
       (\<lambda>s. ret (case filter (starts_with ''NSpid:'') (getlines NL s) of
          [] \<Rightarrow> [] | l # _ \<Rightarrow> map of_int (extract_all (drop 6 l))))"

definition kNamespaceRestoreTimeout :: nat where
  "kNamespaceRestoreTimeout = 20000"

primrec find_host :: "pid_t \<Rightarrow> pid_t list \<Rightarrow> pid_t option io" where
  "find_host local_pid [] = ret None"
| "find_host local_pid (h # hs) =
     bnd (ReadNSpidValues h) (\<lambda>vs.
     if vs \<noteq> [] \<and> last vs = local_pid then ret (Some h) else find_host local_pid hs)"

lemma ReadChildPids_keeps [frame_intros]: "keeps (outside K) (ReadChildPids pid)"
  unfolding ReadChildPids_def by (intro frame_intros)

lemma ReadNSpidValues_keeps [frame_intros]: "keeps (outside K) (ReadNSpidValues pid)"
  unfolding ReadNSpidValues_def by (intro frame_intros)

lemma find_host_keeps [frame_intros]: "keeps (outside K) (find_host l hs)"
proof (induction hs)
  case (Cons h hs)
  show ?case unfolding find_host.simps by (intro frame_intros Cons.IH)
qed (simp only: find_host.simps out.ret_keeps)

text \<open>A pass over the children, with the pause after a pass that found nothing.\<close>

definition resolve_pass :: "pid_t \<Rightarrow> pid_t \<Rightarrow> pid_t option io" where
  "resolve_pass ns_init local_pid =
     bnd (ReadChildPids ns_init) (\<lambda>cs.
     bnd (find_host local_pid cs) (\<lambda>r. case r of
       Some h \<Rightarrow> ret (Some h)
     | None \<Rightarrow> bnd (sys_sleep 50) (\<lambda>_. ret None)))"

lemma resolve_pass_keeps [frame_intros]: "keeps (outside K) (resolve_pass n l)"
  unfolding resolve_pass_def by (intro frame_intros)

lemma ReadTextFile_instant [instant_intros]: "keeps instant (ReadTextFile p)"
  unfolding ReadTextFile_def by (intro instant_intros option_keeps)

lemma ReadChildPids_instant [instant_intros]: "keeps instant (ReadChildPids p)"
  unfolding ReadChildPids_def by (intro instant_intros)

lemma find_host_instant [instant_intros]: "keeps instant (find_host l hs)"
proof (induction hs)
  case (Cons h hs)
  have "keeps instant (ReadNSpidValues h)" unfolding ReadNSpidValues_def by (intro instant_intros)
  then show ?case unfolding find_host.simps by (intro instant_intros Cons.IH)
qed (simp only: find_host.simps ins.ret_keeps)

text \<open>The pause is at least 50 ms; everything else takes no time.\<close>

lemma resolve_pass_time:
  assumes "resolve_pass n l w = (r, w')"
  shows "w_kernel w' = w_kernel w \<and> ((\<forall>t. k_lag (w_kernel w) t \<le> L) \<longrightarrow> w_mono w' \<le> w_mono w + 50 + L)"
    and "r = Inr None \<Longrightarrow> w_mono w + 50 \<le> w_mono w'"
proof -
  let ?m = "bnd (ReadChildPids n) (find_host l)"
  have i: "keeps instant ?m" by (intro instant_intros)
  obtain a w1 where a: "?m w = (a, w1)" by (cases "?m w")
  have w1: "w_mono w1 = w_mono w" "w_kernel w1 = w_kernel w" using keeps_result [OF i a] by (simp_all add: instant_def)
  obtain u where u: "sys_sleep 50 w1 = (Inr (), u)" using sleep_ends by blast
  have "resolve_pass n l w = bnd ?m (\<lambda>r. case r of
       Some h \<Rightarrow> ret (Some h) | None \<Rightarrow> bnd (sys_sleep 50) (\<lambda>_. ret None)) w"
    by (simp add: resolve_pass_def bnd_assoc)
  also have "\<dots> = (case a of Inl e \<Rightarrow> (Inl e, w1) | Inr x \<Rightarrow>
      (case x of Some h \<Rightarrow> ret (Some h) | None \<Rightarrow> bnd (sys_sleep 50) (\<lambda>_. ret None)) w1)"
    by (simp add: bnd_apply [of ?m] a)
  finally have run: "(case a of Inl e \<Rightarrow> (Inl e, w1) | Inr x \<Rightarrow>
      (case x of Some h \<Rightarrow> ret (Some h) | None \<Rightarrow> bnd (sys_sleep 50) (\<lambda>_. ret None)) w1) = (r, w')"
    using assms by simp
  show "w_kernel w' = w_kernel w \<and> ((\<forall>t. k_lag (w_kernel w) t \<le> L) \<longrightarrow> w_mono w' \<le> w_mono w + 50 + L)"
    and "r = Inr None \<Longrightarrow> w_mono w + 50 \<le> w_mono w'"
    using run w1 sys_sleep_time [OF u, of L] by (auto simp: bnd_apply u split: sum.splits option.splits)
qed

lemma resolve_pass_pause: "resolve_pass n l w = (Inr None, w') \<Longrightarrow> w_mono w < w_mono w'"
  using resolve_pass_time(2) [of n l w "Inr None" w'] by simp

function resolve_loop :: "pid_t \<Rightarrow> pid_t \<Rightarrow> nat \<Rightarrow> pid_t io" where
  "resolve_loop ns_init local_pid deadline w =
     (if w_mono w < deadline then
        bnd (resolve_pass ns_init local_pid) (\<lambda>r w1. case r of
          Some h \<Rightarrow> (Inr h, w1)
        | None \<Rightarrow> resolve_loop ns_init local_pid deadline w1) w
      else (Inl (RuntimeError (''timed out resolving host pid for restored local pid '' @ PidToString local_pid)), w))"
  by pat_completeness auto
termination
  by (relation "measure (\<lambda>(n, l, d, w). d - w_mono w)") (auto dest!: resolve_pass_pause)

declare resolve_loop.simps [simp del]

definition ResolveHostPidFromLocalPid :: "pid_t \<Rightarrow> pid_t \<Rightarrow> pid_t io" where
  "ResolveHostPidFromLocalPid ns_init local_pid =
     bnd steady_now (\<lambda>now. resolve_loop ns_init local_pid (now + kNamespaceRestoreTimeout))"

section \<open>The status pipe\<close>

text \<open>The bytes that went into the pipe: an error other than an interruption just ends the writing.\<close>

definition WriteStatusPayload :: "kv_map \<Rightarrow> string io" where
  "WriteStatusPayload values = bnd (lift_sum (SerializeKeyValueMap values)) (\<lambda>payload w.
     case write_loop (w_script w) [] payload of
       (_, out, sc) \<Rightarrow> (Inr out, w\<lparr>w_script := sc, w_tick := Suc (w_tick w)\<rparr>))"

type_synonym arrivals = "string option list"

text \<open>A \<^verbatim>\<open>poll\<close> that times out.\<close>

definition poll_timeout :: "unit io" where
  "poll_timeout = modify (\<lambda>w. w\<lparr>w_mono := w_mono w + 50 + k_lag (w_kernel w) (w_tick w)\<rparr>)"

text \<open>How much is still to come; a piece counts for its bytes and for itself.\<close>

fun pending :: "arrivals \<Rightarrow> nat" where
  "pending [] = 0"
| "pending (None # arr) = Suc (pending arr)"
| "pending (Some s # arr) = Suc (length s + pending arr)"

definition kBuffer :: nat where
  "kBuffer = 4096"

text \<open>What a read takes from a piece, and what it leaves.\<close>

definition after_read :: "string \<Rightarrow> arrivals \<Rightarrow> arrivals" where
  "after_read chunk arr = (if drop kBuffer chunk = [] then arr else Some (drop kBuffer chunk) # arr)"

lemma pending_after_read: "pending (after_read chunk arr) < pending (Some chunk # arr)"
  by (auto simp: after_read_def kBuffer_def)

text \<open>A pass of the loop: it is over with these bytes, or goes on with them.\<close>

datatype read_next = Stop string | More arrivals string

definition read_pass :: "arrivals \<Rightarrow> string \<Rightarrow> read_next io" where
  "read_pass arr payload =
     bnd fault (\<lambda>f. case f of
       Some e \<Rightarrow> if e = EINTR then ret (More arr payload) else ThrowErrno ''poll(status pipe)'' e
     | None \<Rightarrow> (case arr of
         [] \<Rightarrow> bnd poll_timeout (\<lambda>_. ret (More [] payload))
       | a # arr' \<Rightarrow> (case a of
           None \<Rightarrow> bnd poll_timeout (\<lambda>_. ret (More arr' payload))
         | Some chunk \<Rightarrow> bnd fault (\<lambda>f. case f of
             Some e \<Rightarrow> if e = EINTR then ret (More arr payload) else ThrowErrno ''read(status pipe)'' e
           | None \<Rightarrow>
               if chunk = [] then ret (Stop payload)
               else if NL \<in> set (payload @ take kBuffer chunk) then ret (Stop (payload @ take kBuffer chunk))
               else ret (More (after_read chunk arr') (payload @ take kBuffer chunk))))))"

lemma poll_timeout_keeps [frame_intros]: "keeps (outside K) poll_timeout"
  by (rule keepsI) (simp add: poll_timeout_def outside_def)

lemma list_keeps [frame_intros]:
  "(xs = [] \<Longrightarrow> keeps R a) \<Longrightarrow> (\<And>y ys. xs = y # ys \<Longrightarrow> keeps R (b y ys)) \<Longrightarrow> keeps R (case xs of [] \<Rightarrow> a | y # ys \<Rightarrow> b y ys)"
  by (cases xs) auto

lemma read_pass_keeps [frame_intros]: "keeps (outside K) (read_pass arr p)"
  unfolding read_pass_def by (intro frame_intros)

text \<open>A pass that goes on used up an interruption, let time pass, or took something from the pipe.\<close>

lemma read_pass_More:
  assumes "read_pass arr p w = (Inr (More arr' q), w')"
  shows "w_mono w < w_mono w' \<or> w_mono w' = w_mono w \<and> length (w_script w') < length (w_script w)
    \<or> w_mono w' = w_mono w \<and> length (w_script w') \<le> length (w_script w) \<and> pending arr' < pending arr"
proof -
  obtain f w1 where f: "fault w = (Inr f, w1)" by (rule fault_cases [of w]) blast+
  obtain g w2 where g: "fault w1 = (Inr g, w2)" by (rule fault_cases [of w1]) blast+
  have t: "w_mono w1 = w_mono w" "w_mono w2 = w_mono w"
    using keeps_result [OF fault_instant f] keeps_result [OF fault_instant g] by (simp_all add: instant_def)
  have s: "length (w_script w1) \<le> length (w_script w)" "length (w_script w2) \<le> length (w_script w1)"
    using keeps_result [OF keeps_later [OF fault_keeps] f] keeps_result [OF keeps_later [OF fault_keeps] g]
    by (simp_all add: later_def)
  show ?thesis
    using assms f g t s fault_tick [OF f] fault_tick [OF g]
    by (auto simp: read_pass_def bnd_apply poll_timeout_def pending_after_read [simplified] ThrowErrno_def
        split: option.splits list.splits if_splits)
qed

function read_status :: "nat \<Rightarrow> arrivals \<Rightarrow> string \<Rightarrow> string io" where
  "read_status deadline arr payload w =
     (if \<not> w_mono w < deadline then (Inr payload, w)
      else bnd (read_pass arr payload) (\<lambda>n w1. case n of
        Stop q \<Rightarrow> (Inr q, w1)
      | More arr' q \<Rightarrow> read_status deadline arr' q w1) w)"
  by pat_completeness auto
termination
proof (relation "measures [\<lambda>(d, arr, p, w). d - w_mono w, \<lambda>(d, arr, p, w). length (w_script w), \<lambda>(d, arr, p, w). pending arr]",
    goal_cases)
  case (2 d arr p w n w1 arr' q)
  then show ?case using read_pass_More [of arr p w arr' q w1] by auto
qed simp

declare read_status.simps [simp del]

definition ReadStatusPayload :: "arrivals \<Rightarrow> kv_map io" where
  "ReadStatusPayload arr = bnd steady_now (\<lambda>now.
     bnd (read_status (now + kNamespaceRestoreTimeout) arr []) (\<lambda>payload.
     if payload = [] then raise (RuntimeError ''timed out waiting for pid-namespace restore status'')
     else lift_sum (ParseKeyValueText payload)))"

section \<open>The init process of the namespace\<close>

definition MountNewProc :: "unit io" where
  "MountNewProc = bnd (call_or_throw ''mount(/, MS_SLAVE|MS_REC)'') (\<lambda>_. call_or_throw ''mount(/proc)'')"

definition FindRestoredLocalPid :: "pid_t \<Rightarrow> pid_t io" where
  "FindRestoredLocalPid criu_pid = bnd (ReadChildPids 1) (\<lambda>cs.
     ret (case filter (\<lambda>p. p \<noteq> criu_pid) cs of [] \<Rightarrow> 0 | p # _ \<Rightarrow> p))"

definition ns_restore_command :: "WorkerConfig \<Rightarrow> path \<Rightarrow> string list" where
  "ns_restore_command c log =
     [wc_criu_bin c, ''restore'', ''--no-default-config'', ''--images-dir'', images_dir c, ''--work-dir'',
      path_append (wc_checkpoint_dir c) ''restore-work'', ''--log-file'', log, ''--shell-job'', ''-d'']
     @ default_args (wc_extra_args c)"

text \<open>A body whose exception is looked at, with the variables of the enclosing function.\<close>

definition attempt :: "'a io \<Rightarrow> (exn + 'a) io" where
  "attempt m = (\<lambda>w. case m w of (r, w') \<Rightarrow> (Inr r, w'))"

record init_state =
  restored_local :: pid_t
  criu_exited :: bool
  status_sent :: bool
  pipe_bytes :: string

definition init_discover :: "path \<Rightarrow> pid_t \<Rightarrow> init_state \<Rightarrow> init_state io" where
  "init_discover log criu_pid st =
     (if criu_exited st \<and> restored_local st = 0 then
        bnd (FindRestoredLocalPid criu_pid) (\<lambda>p.
        if sint p > 0 then
          bnd (AppendLogLine log (''pidns init: selected restored local pid '' @ PidToString p)) (\<lambda>_.
          bnd (WriteStatusPayload (kv_of [(''restored_local_pid'', PidToString p)])) (\<lambda>out.
          ret (st\<lparr>restored_local := p, status_sent := True, pipe_bytes := pipe_bytes st @ out\<rparr>)))
        else ret (st\<lparr>restored_local := p\<rparr>))
      else ret st)"

text \<open>The wait for any child; the flag says that there is none left.\<close>

definition init_reap :: "path \<Rightarrow> pid_t \<Rightarrow> nat \<Rightarrow> init_state \<Rightarrow> (init_state \<times> bool) io" where
  "init_reap log criu_pid deadline st =
     bnd fault (\<lambda>f. bnd (answer k_reap) (\<lambda>r. case f of
       Some e \<Rightarrow> if e = EINTR then ret (st, False) else if e = ECHILD then ret (st, True) else ThrowErrno ''waitpid'' e
     | None \<Rightarrow> (case r of
         NoChild \<Rightarrow> ret (st, True)
       | NoneEnded \<Rightarrow> bnd steady_now (\<lambda>now.
           if restored_local st = 0 \<and> now \<ge> deadline
           then raise (RuntimeError ''timed out detecting restored pid in pid namespace'')
           else bnd (sys_sleep 50) (\<lambda>_. ret (st, False)))
       | Reaped p s \<Rightarrow>
           if p = criu_pid then (case s of
               Signaled _ \<Rightarrow> raise (RuntimeError ''CRIU restore exited abnormally in pid namespace'')
             | Exited n \<Rightarrow>
                 if n \<noteq> 0 then raise (RuntimeError (''CRIU restore exited with code '' @ show_int n @ '' in pid namespace''))
                 else bnd (AppendLogLine log ''pidns init: criu exited with code 0'') (\<lambda>_.
                   ret (st\<lparr>criu_exited := True\<rparr>, False)))
           else ret (st, False))))"

text \<open>A pass of the loop: the state after it, and the exception, or whether the loop is over.\<close>

definition init_pass ::
  "bool \<Rightarrow> string list \<Rightarrow> path \<Rightarrow> pid_t \<Rightarrow> nat \<Rightarrow> init_state \<Rightarrow> (init_state \<times> (exn + bool)) io" where
  "init_pass started argv log criu_pid deadline st =
     bnd (after_exec started argv) (\<lambda>_.
     bnd (attempt (init_discover log criu_pid st)) (\<lambda>r. case r of
       Inl x \<Rightarrow> ret (st, Inl x)
     | Inr st \<Rightarrow> bnd (attempt (init_reap log criu_pid deadline st)) (\<lambda>r. case r of
         Inl x \<Rightarrow> ret (st, Inl x)
       | Inr (st, over) \<Rightarrow> ret (st, Inr over))))"

primrec init_loop ::
  "nat \<Rightarrow> bool \<Rightarrow> string list \<Rightarrow> path \<Rightarrow> pid_t \<Rightarrow> nat \<Rightarrow> init_state \<Rightarrow> (init_state \<times> (exn + unit) option) io" where
  "init_loop 0 started argv log criu_pid deadline st = ret (st, None)"
| "init_loop (Suc fuel) started argv log criu_pid deadline st =
     bnd (init_pass started argv log criu_pid deadline st) (\<lambda>(st, r). case r of
       Inl x \<Rightarrow> ret (st, Some (Inl x))
     | Inr over \<Rightarrow> if over then ret (st, Some (Inr ())) else init_loop fuel started argv log criu_pid deadline st)"

definition init_setup :: "WorkerConfig \<Rightarrow> path \<Rightarrow> (bool \<times> pid_t \<times> nat) io" where
  "init_setup c log =
     bnd (AppendLogLine log ''pidns init: starting'') (\<lambda>_.
     bnd (call_or_throw ''unshare(CLONE_NEWNS)'') (\<lambda>_.
     bnd (call_or_throw ''setsid'') (\<lambda>_.
     bnd (PrepareControllingTty (wc_tty_fd c)) (\<lambda>_.
     bnd MountNewProc (\<lambda>_.
     bnd (call_or_throw ''fork'') (\<lambda>_.
     bnd (answer k_fork) (\<lambda>criu_pid.
     bnd (fork_child (ExecCommand (ns_restore_command c log))) (\<lambda>started.
     bnd (AppendLogLine log (''pidns init: spawned criu pid '' @ PidToString criu_pid)) (\<lambda>_.
     bnd steady_now (\<lambda>now. ret (started, criu_pid, now + kNamespaceRestoreTimeout)))))))))))"

text \<open>The handler: the exit code 1 and everything that is in the pipe then.\<close>

definition init_failed :: "path \<Rightarrow> init_state \<Rightarrow> exn \<Rightarrow> (int \<times> string) io" where
  "init_failed log st x =
     bnd (if \<not> status_sent st then WriteStatusPayload (kv_of [(''error'', what x)]) else ret []) (\<lambda>out.
     bnd (catch_exn (AppendLogLine log (''pid-namespace restore init failed: '' @ what x)) (\<lambda>_. ret ())) (\<lambda>_.
     ret (1, pipe_bytes st @ out)))"

definition init_start :: init_state where
  "init_start = \<lparr>restored_local = 0, criu_exited = False, status_sent = False, pipe_bytes = []\<rparr>"

definition init_end :: "path \<Rightarrow> init_state \<times> (exn + unit) option \<Rightarrow> (int \<times> string) option io" where
  "init_end log p = (case p of (st, r) \<Rightarrow> (case r of
     None \<Rightarrow> ret None
   | Some (Inl x) \<Rightarrow> bnd (init_failed log st x) (\<lambda>e. ret (Some e))
   | Some (Inr _) \<Rightarrow>
       if restored_local st = 0
       then bnd (init_failed log st (RuntimeError ''restored pid was never discovered in pid namespace''))
         (\<lambda>e. ret (Some e))
       else ret (Some (0, pipe_bytes st))))"

definition RunNamespaceRestoreInit :: "nat \<Rightarrow> WorkerConfig \<Rightarrow> path \<Rightarrow> (int \<times> string) option io" where
  "RunNamespaceRestoreInit fuel c log =
     bnd (attempt (init_setup c log)) (\<lambda>r. case r of
       Inl x \<Rightarrow> bnd (init_failed log init_start x) (\<lambda>e. ret (Some e))
     | Inr (started, criu_pid, deadline) \<Rightarrow>
         bnd (init_loop fuel started (ns_restore_command c log) log criu_pid deadline init_start) (init_end log))"

section \<open>The worker\<close>

definition RunNamespaceRestore :: "nat \<Rightarrow> arrivals \<Rightarrow> WorkerConfig \<Rightarrow> int io" where
  "RunNamespaceRestore fuel arr c =
     bnd (ValidateWorkerConfig c) (\<lambda>_.
     let work_dir = path_append (wc_checkpoint_dir c) ''restore-work''; log = log_path c ''restore.log'';
         pidfile = path_append (wc_checkpoint_dir c) ''restore.pid'' in
     bnd (prepare_dirs c work_dir log) (\<lambda>_.
     bnd (call_or_throw ''pipe2'') (\<lambda>_.
     bnd fault (\<lambda>f. case f of
       Some e \<Rightarrow> bnd (close_keeping e) (\<lambda>e. bnd (close_keeping e) (\<lambda>e. ThrowErrno ''unshare(CLONE_NEWPID)'' e))
     | None \<Rightarrow> bnd fault (\<lambda>f. case f of
         Some e \<Rightarrow> bnd (close_keeping e) (\<lambda>e. bnd (close_keeping e) (\<lambda>e. ThrowErrno ''fork'' e))
       | None \<Rightarrow>
           bnd (answer k_fork) (\<lambda>ns_init.
           bnd (fork_shared (attempt (RunNamespaceRestoreInit fuel c log))) (\<lambda>_.
           bnd sys_close (\<lambda>_.
           bnd (ReadStatusPayload arr) (\<lambda>payload.
           bnd sys_close (\<lambda>_.
           case map_of payload ''error'' of
             Some m \<Rightarrow> raise (RuntimeError m)
           | None \<Rightarrow> (case map_of payload ''restored_local_pid'' of
               None \<Rightarrow> raise (RuntimeError ''pid-namespace restore did not return a restored pid'')
             | Some v \<Rightarrow>
                 bnd (lift_sum (stol v)) (\<lambda>local_pid.
                 bnd (ResolveHostPidFromLocalPid ns_init (of_int local_pid)) (\<lambda>host_pid.
                 bnd (WriteTextFile pidfile (PidToString host_pid @ [NL]) 0x180 0x1C0) (\<lambda>_. ret 0))))))))))))))"

definition RunWorker :: "nat \<Rightarrow> arrivals \<Rightarrow> WorkerConfig \<Rightarrow> int option io" where
  "RunWorker fuel arr c =
     (if wc_operation c = ''restore'' \<and> wc_namespace_restore c
      then bnd (RunNamespaceRestore fuel arr c) (\<lambda>r. ret (Some r))
      else bnd (if wc_operation c = ''dump'' then BuildDumpCommand c else BuildRestoreCommand c) (\<lambda>argv.
        if wc_operation c = ''restore'' then ForkExecRestoreWithControllingTty fuel argv (wc_tty_fd c)
        else bnd (ForkExec argv) (\<lambda>r. ret (Some r))))"

definition RunWorkerMain :: "nat \<Rightarrow> arrivals \<Rightarrow> string list \<Rightarrow> int option io" where
  "RunWorkerMain fuel arr argv = bnd (lift_sum (ParseArgs argv)) (RunWorker fuel arr)"

text \<open>\<^verbatim>\<open>main\<close> of snapshot_worker_main.cc: an exception is printed and becomes exit code 1.\<close>

definition worker_main :: "nat \<Rightarrow> arrivals \<Rightarrow> string list \<Rightarrow> int option io" where
  "worker_main fuel arr argv = catch_exn (RunWorkerMain fuel arr argv)
     (\<lambda>x. bnd (log_event (LogEv (what x @ [NL]))) (\<lambda>_. ret (Some 1)))"

section \<open>Finding the restored process\<close>

lemma find_host_Some:
  "find_host l hs w = (Inr (Some h), w') \<Longrightarrow>
     h \<in> set hs \<and> (\<exists>w1 vs w2. w_kernel w1 = w_kernel w \<and> ReadNSpidValues h w1 = (Inr vs, w2) \<and> vs \<noteq> [] \<and> last vs = l)"
proof (induction hs arbitrary: w)
  case (Cons g hs)
  obtain vs w1 where vs: "ReadNSpidValues g w = (Inr vs, w1)"
    and r: "vs \<noteq> [] \<and> last vs = l \<and> h = g \<or> find_host l hs w1 = (Inr (Some h), w')"
    using Cons.prems by (auto simp: bnd_Inr_iff split: if_splits)
  have k: "w_kernel w1 = w_kernel w" using outside_kernel [OF keeps_result [OF ReadNSpidValues_keeps vs]] .
  from r show ?case
  proof
    assume "vs \<noteq> [] \<and> last vs = l \<and> h = g"
    then show ?thesis using vs by auto
  next
    assume f: "find_host l hs w1 = (Inr (Some h), w')"
    show ?thesis using Cons.IH [OF f] unfolding k by auto
  qed
qed simp

text \<open>The process table at some time shows \<open>h\<close> as a child of the init process, and at some time as the
  process whose innermost pid is the local one.\<close>

definition right_host :: "kernel \<Rightarrow> pid_t \<Rightarrow> pid_t \<Rightarrow> pid_t \<Rightarrow> bool" where
  "right_host K ns_init local_pid h \<longleftrightarrow>
     (\<exists>w1 cs w2. w_kernel w1 = K \<and> ReadChildPids ns_init w1 = (Inr cs, w2) \<and> h \<in> set cs)
     \<and> (\<exists>w1 vs w2. w_kernel w1 = K \<and> ReadNSpidValues h w1 = (Inr vs, w2) \<and> vs \<noteq> [] \<and> last vs = local_pid)"

lemma resolve_pass_Some:
  assumes "resolve_pass n l w = (Inr (Some h), w')"
  shows "right_host (w_kernel w) n l h"
proof -
  obtain cs w1 where cs: "ReadChildPids n w = (Inr cs, w1)" and h: "find_host l cs w1 = (Inr (Some h), w')"
    using assms unfolding resolve_pass_def by (auto simp: bnd_Inr_iff split: option.splits)
  have "w_kernel w1 = w_kernel w" using outside_kernel [OF keeps_result [OF ReadChildPids_keeps cs]] .
  then show ?thesis using cs find_host_Some [OF h] unfolding right_host_def by metis
qed

lemma resolve_loop_cases:
  assumes "resolve_loop n l d w = (r, w')"
  obtains (timeout) x where "\<not> w_mono w < d" "r = Inl x" "w' = w"
  | (error) x where "w_mono w < d" "resolve_pass n l w = (Inl x, w')" "r = Inl x"
  | (found) h where "w_mono w < d" "resolve_pass n l w = (Inr (Some h), w')" "r = Inr h"
  | (again) w1 where "w_mono w < d" "resolve_pass n l w = (Inr None, w1)" "resolve_loop n l d w1 = (r, w')"
proof (cases "w_mono w < d")
  case True
  obtain a w1 where a: "resolve_pass n l w = (a, w1)" by (cases "resolve_pass n l w")
  have "resolve_loop n l d w = bnd (resolve_pass n l) (\<lambda>r w1. case r of
      Some h \<Rightarrow> (Inr h, w1) | None \<Rightarrow> resolve_loop n l d w1) w"
    by (subst resolve_loop.simps) (simp only: True if_True)
  also have "\<dots> = (case a of Inl e \<Rightarrow> (Inl e, w1) | Inr x \<Rightarrow> (case x of
      Some h \<Rightarrow> (Inr h, w1) | None \<Rightarrow> resolve_loop n l d w1))"
    by (simp add: bnd_apply a)
  finally have run: "(case a of Inl e \<Rightarrow> (Inl e, w1) | Inr x \<Rightarrow> (case x of
      Some h \<Rightarrow> (Inr h, w1) | None \<Rightarrow> resolve_loop n l d w1)) = (r, w')"
    using assms by simp
  show ?thesis
    using run a error [OF True] found [OF True] again [OF True] by (auto split: sum.splits option.splits)
next
  case False
  have "resolve_loop n l d w
      = (Inl (RuntimeError (''timed out resolving host pid for restored local pid '' @ PidToString l)), w)"
    by (subst resolve_loop.simps) (simp only: False if_False)
  then show ?thesis using assms False timeout by (metis prod.inject)
qed

lemma resolve_loop_result:
  assumes "resolve_loop n l d w = (r, w')"
  shows "(\<forall>h. r = Inr h \<longrightarrow> right_host (w_kernel w) n l h) \<and> outside K w w'
    \<and> ((\<forall>t. k_lag (w_kernel w) t \<le> L) \<longrightarrow> w_mono w' \<le> max (w_mono w) (d + 49 + L))"
  using assms
proof (induction "d - w_mono w" arbitrary: w rule: less_induct)
  case less
  from less.prems show ?case
  proof (cases rule: resolve_loop_cases)
    case (error x)
    then show ?thesis
      using resolve_pass_time(1) [OF error(2), of L] keeps_result [OF resolve_pass_keeps error(2)] by auto
  next
    case (found h)
    then show ?thesis
      using resolve_pass_time(1) [OF found(2), of L] keeps_result [OF resolve_pass_keeps found(2)] resolve_pass_Some
      by auto
  next
    case (again w1)
    have o: "outside K w w1" by (rule keeps_result [OF resolve_pass_keeps again(2)])
    have "d - w_mono w1 < d - w_mono w" using again(1) resolve_pass_pause [OF again(2)] by linarith
    note IH = less.hyps [OF this again(3)]
    then show ?thesis
      using resolve_pass_time(1) [OF again(2), of L] again(1) out.frame_trans [OF o] outside_kernel [OF o] by auto
  qed (simp add: out.frame_refl)
qed

text \<open>C26: Finding the host pid of a restored process always comes to an end within the 20 seconds of
  its deadline, plus the last pause of 50 ms and the lag the scheduler adds to it; and a pid it
  returns is a child of the namespace's init process whose innermost namespace pid is the restored
  one.\<close>

theorem resolve_host_pid:
  assumes run: "ResolveHostPidFromLocalPid ns_init local_pid w = (r, w')"
    and lag: "\<forall>t. k_lag (w_kernel w) t \<le> L"
  shows "w_mono w' \<le> w_mono w + 20049 + L \<and> (\<forall>h. r = Inr h \<longrightarrow> right_host (w_kernel w) ns_init local_pid h)"
proof -
  have loop: "resolve_loop ns_init local_pid (w_mono w + 20000) w = (r, w')"
    using run by (simp add: ResolveHostPidFromLocalPid_def bnd_apply steady_now_def kNamespaceRestoreTimeout_def)
  show ?thesis using resolve_loop_result [OF loop, of "\<lambda>_. False" L] lag by simp
qed

definition sample_namespace :: world where
  "sample_namespace = sample_world\<lparr>w_kernel := sample_kernel\<lparr>k_proc := (\<lambda>t k.
     if k = [''proc'', ''60'', ''task'', ''60'', ''children''] then Some (if t < 4 then [] else ''61 62 '')
     else if k = [''proc'', ''61'', ''status''] then Some (''Name: sh'' @ [NL] @ ''NSpid: 61 2'' @ [NL])
     else if k = [''proc'', ''62'', ''status''] then Some (''Name: sh'' @ [NL] @ ''NSpid: 62 9'' @ [NL])
     else None)\<rparr>\<rparr>"

theorem resolve_host_pid_witness:
  "fst (ResolveHostPidFromLocalPid 60 9 sample_namespace) = Inr 62
   \<and> w_mono (snd (ResolveHostPidFromLocalPid 60 9 sample_namespace)) \<le> 20049
   \<and> right_host (w_kernel sample_namespace) 60 9 62"
proof -
  let ?r = "ResolveHostPidFromLocalPid 60 9 sample_namespace"
  have 1: "fst ?r = Inr 62" by code_simp
  have 2: "?r = (Inr 62, snd ?r)" using 1 by (metis prod.collapse)
  have 3: "\<forall>t. k_lag (w_kernel sample_namespace) t \<le> 0" and 4: "w_mono sample_namespace = 0"
    by (simp_all add: sample_namespace_def sample_kernel_def sample_world_def)
  from resolve_host_pid [OF 2 3] show ?thesis using 1 unfolding 4 by auto
qed

section \<open>What the worker writes and starts\<close>

lemma attempt_bnd: "bnd (attempt m) f w = (case m w of (r, w') \<Rightarrow> f r w')"
  by (simp add: bnd_apply attempt_def split: prod.split)

lemma attempt_keeps: "keeps R m \<Longrightarrow> keeps R (attempt m)"
  by (simp add: keeps_def attempt_def split: prod.split) (metis snd_conv)

lemma fork_shared_frame: "keeps (affects P K E) m \<Longrightarrow> keeps (affects P K E) (fork_shared m)"
proof (rule keepsI)
  fix w :: world
  let ?w = "w\<lparr>w_script := k_child (w_kernel w) (w_tick w)\<rparr>"
  assume "keeps (affects P K E) m"
  then have "affects P K E ?w (snd (m ?w))" by (rule keepsD)
  then show "affects P K E w (snd (fork_shared m w))" by (auto simp: affects_def fork_shared_def split: prod.split)
qed

lemma default_args_suffix: "suffix extra (default_args extra)"
  by (simp add: default_args_def suffix_def)

lemma AppendLogLine_affects: "keeps (worker_frame c) (AppendLogLine (log_path c ''restore.log'') line)"
  by (rule keeps_affects, rule AppendLogLine_keeps) (auto simp: worker_path_keys intro: below_checkpoint)

lemma WriteStatusPayload_keeps [frame_intros]: "keeps (outside K) (WriteStatusPayload vs)"
  unfolding WriteStatusPayload_def
  by (intro out.bnd_keeps out.lift_sum_keeps keepsI)
    (auto simp: outside_def split: prod.split dest: write_loop_suffix)

lemma init_discover_affects: "keeps (worker_frame c) (init_discover (log_path c ''restore.log'') p st)"
proof -
  have "keeps (worker_frame c) (FindRestoredLocalPid p)"
    unfolding FindRestoredLocalPid_def by (intro aff_keeps keeps_affects [OF ReadChildPids_keeps])
  then show ?thesis
    unfolding init_discover_def by (intro aff_keeps AppendLogLine_affects keeps_affects [OF WriteStatusPayload_keeps])
qed

lemma init_reap_affects: "keeps (worker_frame c) (init_reap (log_path c ''restore.log'') p d st)"
  unfolding init_reap_def
  by (intro aff.bnd_keeps keeps_affects [OF fault_keeps] keeps_affects [OF answer_keeps] option_keeps aff.if_keeps)
    (auto split: reap.split wait_status.split intro!: aff_keeps AppendLogLine_affects keeps_affects [OF ThrowErrno_keeps]
      keeps_affects [OF steady_now_keeps] keeps_affects [OF sys_sleep_keeps])

lemma init_loop_affects:
  "keeps (worker_frame c) (init_loop fuel b argv (log_path c ''restore.log'') p d st)"
proof (induction fuel arbitrary: st)
  case (Suc fuel)
  have "keeps (worker_frame c) (init_pass b argv (log_path c ''restore.log'') p d st)" for st
    unfolding init_pass_def
    by (intro aff.bnd_keeps after_exec_affects attempt_keeps init_discover_affects)
      (auto split: sum.split intro!: aff_keeps attempt_keeps init_reap_affects)
  then show ?case
    unfolding init_loop.simps by (intro aff.bnd_keeps) (auto split: sum.split intro: aff.ret_keeps Suc.IH)
qed (simp only: init_loop.simps aff.ret_keeps)

lemma init_failed_affects: "keeps (worker_frame c) (init_failed (log_path c ''restore.log'') st x)"
  unfolding init_failed_def
  by (intro aff_keeps AppendLogLine_affects keeps_affects [OF WriteStatusPayload_keeps])

lemma exec_event:
  assumes "checked_config c" and "argv = pre @ default_args (wc_extra_args c)" and "pre \<noteq> []"
    and "hd pre = wc_criu_bin c \<or> wc_namespace_dump c \<and> hd pre = wc_criu_ns_bin c"
  shows "worker_event c (ExecEv argv criu_env)"
  using assms suffix_order.trans [OF default_args_suffix, of "wc_extra_args c" argv]
  by (auto simp: worker_event_def suffix_def)

lemma RunNamespaceRestoreInit_affects:
  assumes "checked_config c"
  shows "keeps (worker_frame c) (RunNamespaceRestoreInit fuel c (log_path c ''restore.log''))"
proof -
  have E: "worker_event c (ExecEv (ns_restore_command c (log_path c ''restore.log'')) criu_env)"
    by (rule exec_event [OF assms ns_restore_command_def]) simp_all
  have "keeps (worker_frame c) (init_setup c (log_path c ''restore.log''))"
    unfolding init_setup_def MountNewProc_def
    by (intro aff_keeps AppendLogLine_affects PrepareControllingTty_affects fork_child_frame ExecCommand_affects E
        keeps_affects [OF call_or_throw_keeps] keeps_affects [OF answer_keeps] keeps_affects [OF steady_now_keeps])
      (simp add: worker_event_def)
  then show ?thesis
    unfolding RunNamespaceRestoreInit_def init_end_def
    by (intro aff.bnd_keeps attempt_keeps)
      (auto split: sum.split option.split intro!: aff_keeps init_failed_affects init_loop_affects)
qed

lemma read_status_outside: "outside K w (snd (read_status d arr p w))"
proof (induction d arr p w rule: read_status.induct)
  case (1 d arr p w)
  show ?case
  proof (cases "w_mono w < d")
    case True
    have "outside K w (snd (bnd (read_pass arr p) (\<lambda>n w1. case n of
        Stop q \<Rightarrow> (Inr q, w1) | More arr' q \<Rightarrow> read_status d arr' q w1) w))"
      by (rule out.bnd_step [OF keepsD [OF read_pass_keeps]])
        (use "1.IH" True in \<open>auto simp: out.frame_refl split: read_next.split\<close>)
    then show ?thesis using True by (subst read_status.simps) simp
  qed (simp add: read_status.simps out.frame_refl)
qed

lemma ReadStatusPayload_keeps [frame_intros]: "keeps (outside K) (ReadStatusPayload arr)"
proof -
  have "keeps (outside K) (read_status d arr p)" for d p by (rule keepsI) (rule read_status_outside)
  then show ?thesis unfolding ReadStatusPayload_def by (intro frame_intros)
qed

lemma ResolveHostPid_keeps [frame_intros]: "keeps (outside K) (ResolveHostPidFromLocalPid n l)"
proof -
  have "keeps (outside K) (resolve_loop n l d)" for d
    by (rule keepsI) (metis prod.collapse resolve_loop_result)
  then show ?thesis unfolding ResolveHostPidFromLocalPid_def by (intro frame_intros)
qed

lemma BuildDumpCommand_Inr:
  assumes "BuildDumpCommand c w = (Inr argv, w')"
  shows "worker_event c (ExecEv argv criu_env)"
proof -
  obtain w1 where "ValidateWorkerConfig c w = (Inr (), w1)" and argv: "argv =
      (if wc_namespace_dump c then [wc_criu_ns_bin c, ''dump'', ''--criu-binary'', wc_criu_bin c]
           else [wc_criu_bin c, ''dump''])
       @ [''--no-default-config'', ''-t'', PidToString (wc_pid c), ''--images-dir'', images_dir c,
          ''--work-dir'', path_append (wc_checkpoint_dir c) ''work'', ''--log-file'', log_path c ''dump.log'',
          ''--leave-running'', ''--shell-job''] @ default_args (wc_extra_args c)"
    using assms by (auto simp: BuildDumpCommand_def bnd_Inr_iff Let_def)
  then show ?thesis
    by (intro exec_event [OF ValidateWorkerConfig_Inr, OF _ argv [unfolded append.assoc [symmetric]]]) auto
qed

lemma BuildRestoreCommand_Inr:
  assumes "BuildRestoreCommand c w = (Inr argv, w')" and "\<not> wc_namespace_restore c"
  shows "worker_event c (ExecEv argv criu_env)"
proof -
  obtain w1 where "ValidateWorkerConfig c w = (Inr (), w1)" and argv: "argv = [wc_criu_bin c, ''restore'']
       @ [''--no-default-config'', ''--images-dir'', images_dir c, ''--work-dir'',
          path_append (wc_checkpoint_dir c) ''restore-work'', ''--log-file'', log_path c ''restore.log'',
          ''--pidfile'', path_append (wc_checkpoint_dir c) ''restore.pid'', ''--shell-job'', ''-d'']
       @ default_args (wc_extra_args c)"
    using assms by (auto simp: BuildRestoreCommand_def bnd_Inr_iff Let_def)
  then show ?thesis
    by (intro exec_event [OF ValidateWorkerConfig_Inr, OF _ argv [unfolded append.assoc [symmetric]]]) auto
qed

lemma RunNamespaceRestore_affects: "keeps (worker_frame c) (RunNamespaceRestore fuel arr c)"
proof -
  have pidfile: "keeps (outside (worker_zone c)) (WriteTextFile (path_append (wc_checkpoint_dir c) ''restore.pid'') s fm pm)" for s fm pm
    by (rule WriteTextFile_keeps) (auto intro: below_checkpoint)
  have dirs: "keeps (outside (worker_zone c)) (prepare_dirs c (path_append (wc_checkpoint_dir c) ''restore-work'') (log_path c ''restore.log''))"
    by (rule prepare_dirs_keeps) (auto simp: worker_path_keys intro: below_checkpoint)
  show ?thesis
    unfolding RunNamespaceRestore_def Let_def
    by (rule aff.bnd_keeps_result [OF keeps_affects [OF ValidateWorkerConfig_keeps]])
      (intro aff_keeps option_keeps fork_shared_frame attempt_keeps RunNamespaceRestoreInit_affects
        keeps_affects [OF dirs] keeps_affects [OF pidfile] keeps_affects [OF call_or_throw_keeps]
        keeps_affects [OF fault_keeps] keeps_affects [OF close_keeping_keeps] keeps_affects [OF ThrowErrno_keeps]
        keeps_affects [OF answer_keeps] keeps_affects [OF sys_close_keeps] keeps_affects [OF ReadStatusPayload_keeps]
        keeps_affects [OF ResolveHostPid_keeps], rule ValidateWorkerConfig_Inr, simp)
qed

lemma RunWorker_affects: "keeps (worker_frame c) (RunWorker fuel arr c)"
proof (cases "wc_operation c = ''restore'' \<and> wc_namespace_restore c")
  case True
  then show ?thesis unfolding RunWorker_def by (simp add: aff.bnd_keeps aff.ret_keeps RunNamespaceRestore_affects)
next
  case False
  have "keeps (worker_frame c) (bnd (if wc_operation c = ''dump'' then BuildDumpCommand c else BuildRestoreCommand c) (\<lambda>argv.
        if wc_operation c = ''restore'' then ForkExecRestoreWithControllingTty fuel argv (wc_tty_fd c)
        else bnd (ForkExec argv) (\<lambda>r. ret (Some r))))"
  proof (rule aff.bnd_keeps_result)
    show "keeps (worker_frame c) (if wc_operation c = ''dump'' then BuildDumpCommand c else BuildRestoreCommand c)"
      by (intro aff.if_keeps keeps_affects BuildDumpCommand_keeps BuildRestoreCommand_keeps)
    fix argv s s1
    assume b: "(if wc_operation c = ''dump'' then BuildDumpCommand c else BuildRestoreCommand c) s = (Inr argv, s1)"
    then have "checked_config c"
      by (auto simp: BuildDumpCommand_def BuildRestoreCommand_def bnd_Inr_iff split: if_splits dest!: ValidateWorkerConfig_Inr)
    then have op: "wc_operation c = ''dump'' \<or> wc_operation c = ''restore''" by (simp add: checked_config_def)
    then have "worker_event c (ExecEv argv criu_env)"
      using b False BuildDumpCommand_Inr BuildRestoreCommand_Inr by (auto split: if_splits)
    then show "keeps (worker_frame c) (if wc_operation c = ''restore'' then ForkExecRestoreWithControllingTty fuel argv (wc_tty_fd c)
        else bnd (ForkExec argv) (\<lambda>r. ret (Some r)))"
      by (intro aff_keeps ForkExec_affects ForkExecRestore_affects)
  qed
  then show ?thesis using False unfolding RunWorker_def by (simp only: if_False)
qed


definition sample_worker :: WorkerConfig where
  "sample_worker = empty_worker_config\<lparr>wc_operation := ''dump'', wc_state_dir := ''/s'', wc_job_dir := ''/s/j'',
     wc_checkpoint_dir := ''/s/j/c'', wc_criu_bin := ''/usr/sbin/criu'', wc_pid := 42, wc_extra_args := [''--tcp-close'']\<rparr>"


section \<open>The status arrives\<close>

definition delivered :: "arrivals \<Rightarrow> string" where
  "delivered arr = concat (List.map_filter id arr)"

definition delays :: "arrivals \<Rightarrow> nat" where
  "delays arr = length (filter (\<lambda>a. a = None) arr)"

lemma delivered_simps [simp]:
  "delivered [] = []" "delivered (None # arr) = delivered arr" "delivered (Some s # arr) = s @ delivered arr"
  by (simp_all add: delivered_def map_filter_simps)

lemma delays_simps [simp]:
  "delays [] = 0" "delays (None # arr) = Suc (delays arr)" "delays (Some s # arr) = delays arr"
  by (simp_all add: delays_def)

lemma after_read_delivers: "take kBuffer s @ delivered (after_read s arr) = s @ delivered arr"
  "delays (after_read s arr) = delays arr"
  "Some [] \<notin> set arr \<Longrightarrow> Some [] \<notin> set (after_read s arr)"
  by (auto simp: after_read_def)

lemma read_pass_quiet:
  assumes "faultless w"
  shows "\<exists>w'. faultless w' \<and> w_kernel w' = w_kernel w \<and> w_mono w' \<le> w_mono w
      \<and> read_pass (Some s # arr) p w = (Inr (if s = [] then Stop p
          else if NL \<in> set (p @ take kBuffer s) then Stop (p @ take kBuffer s)
          else More (after_read s arr) (p @ take kBuffer s)), w')"
    and "\<exists>w'. faultless w' \<and> w_kernel w' = w_kernel w
      \<and> ((\<forall>t. k_lag (w_kernel w) t \<le> L) \<longrightarrow> w_mono w' \<le> w_mono w + 50 + L)
      \<and> read_pass (None # arr) p w = (Inr (More arr p), w')"
proof -
  obtain w1 where w1: "fault w = (Inr None, w1)" and f1: "faultless w1"
    using fault_ok [OF assms] outside_faultless assms by blast
  obtain w2 where w2: "fault w1 = (Inr None, w2)" and f2: "faultless w2"
    using fault_ok [OF f1] outside_faultless f1 by blast
  have i: "w_mono w1 = w_mono w" "w_kernel w1 = w_kernel w" "w_mono w2 = w_mono w" "w_kernel w2 = w_kernel w"
    using keeps_result [OF fault_instant w1] keeps_result [OF fault_instant w2] by (simp_all add: instant_def)
  show "\<exists>w'. faultless w' \<and> w_kernel w' = w_kernel w \<and> w_mono w' \<le> w_mono w
      \<and> read_pass (Some s # arr) p w = (Inr (if s = [] then Stop p
          else if NL \<in> set (p @ take kBuffer s) then Stop (p @ take kBuffer s)
          else More (after_read s arr) (p @ take kBuffer s)), w')"
    using f2 i by (intro exI [of _ w2]) (simp add: read_pass_def bnd_apply w1 w2)
  let ?w = "w1\<lparr>w_mono := w_mono w1 + 50 + k_lag (w_kernel w1) (w_tick w1)\<rparr>"
  show "\<exists>w'. faultless w' \<and> w_kernel w' = w_kernel w
      \<and> ((\<forall>t. k_lag (w_kernel w) t \<le> L) \<longrightarrow> w_mono w' \<le> w_mono w + 50 + L)
      \<and> read_pass (None # arr) p w = (Inr (More arr p), w')"
    using f1 i by (intro exI [of _ ?w]) (simp add: read_pass_def bnd_apply w1 poll_timeout_def faultless_def)
qed

lemma read_status_delivers:
  assumes "faultless w" and "\<forall>t. k_lag (w_kernel w) t \<le> L" and "w_mono w + delays arr * (50 + L) < d"
    and "p @ delivered arr = line @ [NL]" and "NL \<notin> set line" and "delivered arr \<noteq> []" and "Some [] \<notin> set arr"
  shows "\<exists>w'. read_status d arr p w = (Inr (line @ [NL]), w')"
  using assms
proof (induction "pending arr" arbitrary: arr p w rule: less_induct)
  case less
  have go: "w_mono w < d" using less.prems(3) by simp
  have step: "read_status d arr p w = bnd (read_pass arr p) (\<lambda>n w1. case n of
      Stop q \<Rightarrow> (Inr q, w1) | More arr' q \<Rightarrow> read_status d arr' q w1) w"
    by (subst read_status.simps) (simp only: go not_True_eq_False if_False)
  obtain a arr' where arr: "arr = a # arr'" using less.prems(6) by (cases arr) auto
  show ?case
  proof (cases a)
    case None
    obtain w1 where w1: "faultless w1" "w_kernel w1 = w_kernel w" "w_mono w1 \<le> w_mono w + 50 + L"
      "read_pass arr p w = (Inr (More arr' p), w1)"
      using read_pass_quiet(2) [OF less.prems(1), of L arr' p] less.prems(2) arr None by auto
    have "\<exists>w'. read_status d arr' p w1 = (Inr (line @ [NL]), w')"
      by (rule less.hyps) (use less.prems w1 arr None in auto)
    then show ?thesis using step w1(4) by (simp add: bnd_apply)
  next
    case (Some s)
    have s: "s \<noteq> []" using less.prems(7) arr Some by auto
    then obtain w1 where w1: "faultless w1" "w_kernel w1 = w_kernel w" "w_mono w1 \<le> w_mono w"
      "read_pass arr p w = (Inr (if NL \<in> set (p @ take kBuffer s) then Stop (p @ take kBuffer s)
          else More (after_read s arr') (p @ take kBuffer s)), w1)"
      using read_pass_quiet(1) [OF less.prems(1), of s arr' p] arr Some by auto
    have all: "(p @ take kBuffer s) @ delivered (after_read s arr') = line @ [NL]"
      using less.prems(4) arr Some after_read_delivers(1) [of s arr'] by simp
    show ?thesis
    proof (cases "NL \<in> set (p @ take kBuffer s)")
      case True
      have "p @ take kBuffer s = line @ [NL]"
        using all True less.prems(5)
        by (metis (no_types, lifting) Un_iff append_butlast_last_id append_is_Nil_conv butlast_append last_appendR set_append snoc_eq_iff_butlast)
      then show ?thesis using step w1(4) True by (simp add: bnd_apply)
    next
      case False
      have "delivered (after_read s arr') \<noteq> []"
        using all False by (metis append_Nil2 in_set_conv_decomp)
      then have "\<exists>w'. read_status d (after_read s arr') (p @ take kBuffer s) w1 = (Inr (line @ [NL]), w')"
        by (intro less.hyps) (use less.prems w1 arr Some all pending_after_read [of s arr'] after_read_delivers(1, 2) [of s arr'] after_read_delivers(3) [of arr' s] in auto)
      then show ?thesis using step w1(4) False by (simp add: bnd_apply)
    qed
  qed
qed

lemma kv_of_single: "kv_of [(k, v)] = [(k, v)]"
  by (simp add: kv_of_def)

lemma status_line:
  "SerializeKeyValueMap [(k, v)] = Inr s \<longleftrightarrow> EQ \<notin> set k \<and> NL \<notin> set k \<and> NL \<notin> set v \<and> s = (k @ [EQ] @ v) @ [NL]"
  by auto

text \<open>C28: The status of a namespace restore crosses the pipe intact: what \<^verbatim>\<open>WriteStatusPayload\<close> wrote,
  with any interruptions and partial writes, and what arrived of it in pieces of any size and with
  pauses of less than 20 seconds in total, is read back by \<^verbatim>\<open>ReadStatusPayload\<close> as the same entry.\<close>

theorem status_roundtrip:
  assumes written: "WriteStatusPayload (kv_of [(k, v)]) w = (Inr out, w1)"
    and benign: "\<forall>e. Fail e \<in> set (w_script w) \<longrightarrow> e = EINTR"
    and arrived: "delivered arr = out" and pieces: "Some [] \<notin> set arr"
    and calm: "faultless u" and lag: "\<forall>t. k_lag (w_kernel u) t \<le> L" and soon: "delays arr * (50 + L) < 20000"
  shows "\<exists>u'. ReadStatusPayload arr u = (Inr [(k, v)], u')"
proof -
  obtain s where s: "SerializeKeyValueMap [(k, v)] = Inr s"
    using written unfolding WriteStatusPayload_def kv_of_single by (auto simp: bnd_Inr_iff)
  then have "out = s"
    using written write_loop_no_fault [OF benign, of "[]" s]
    unfolding WriteStatusPayload_def kv_of_single by (auto simp: bnd_apply)
  then have out: "out = (k @ [EQ] @ v) @ [NL]" and clean: "NL \<notin> set (k @ [EQ] @ v)"
    using s unfolding status_line by auto
  have "\<exists>u'. read_status (w_mono u + 20000) arr [] u = (Inr ((k @ [EQ] @ v) @ [NL]), u')"
    by (rule read_status_delivers [OF calm lag _ _ clean]) (use soon arrived out pieces in auto)
  then obtain u' where "read_status (w_mono u + 20000) arr [] u = (Inr out, u')" using out by blast
  moreover have "ParseKeyValueText out = Inr [(k, v)]"
    using ParseKeyValueText_serialized [OF s] \<open>out = s\<close> by (simp add: kv_sorted_def)
  ultimately show ?thesis
    using out by (simp add: ReadStatusPayload_def bnd_apply steady_now_def kNamespaceRestoreTimeout_def)
qed

theorem status_roundtrip_witness:
  "\<exists>u'. ReadStatusPayload [Some ''restored_loc'', None, Some ''al_pid='', Some (''9'' @ [NL])] sample_world
     = (Inr [(''restored_local_pid'', ''9'')], u')"
proof -
  let ?w = "sample_world\<lparr>w_script := [Short 3, Fail EINTR]\<rparr>"
  let ?r = "WriteStatusPayload (kv_of [(''restored_local_pid'', ''9'')]) ?w"
  have "fst ?r = Inr (''restored_local_pid=9'' @ [NL])" by code_simp
  then have 1: "?r = (Inr (''restored_local_pid=9'' @ [NL]), snd ?r)" by (metis prod.collapse)
  have 2: "delivered [Some ''restored_loc'', None, Some ''al_pid='', Some (''9'' @ [NL])] = ''restored_local_pid=9'' @ [NL]"
    "delays [Some ''restored_loc'', None, Some ''al_pid='', Some (''9'' @ [NL])] = 1" by simp_all
  show ?thesis
    by (rule status_roundtrip [OF 1 _ 2(1), of _ 0])
      (simp_all add: 2(2) sample_world_def sample_kernel_def faultless_def)
qed

section \<open>One status, and the right pid\<close>

definition pid_status :: "string \<Rightarrow> bool" where
  "pid_status out \<longleftrightarrow> (\<exists>p s. 0 < sint p \<and> SerializeKeyValueMap [(''restored_local_pid'', PidToString p)] = Inr s \<and> prefix out s)"

definition error_status :: "string \<Rightarrow> bool" where
  "error_status out \<longleftrightarrow> (\<exists>m s. SerializeKeyValueMap [(''error'', m)] = Inr s \<and> prefix out s)"

text \<open>What the loop keeps: nothing is in the pipe before the status, and only the pid after it.\<close>

definition init_inv :: "init_state \<Rightarrow> bool" where
  "init_inv st \<longleftrightarrow> (if status_sent st then pid_status (pipe_bytes st) \<and> restored_local st \<noteq> 0 else pipe_bytes st = [])"

lemma write_loop_prefix: "write_loop sc [] rem = (e, out, sc') \<Longrightarrow> prefix out rem"
  by (cases e) (auto dest: write_loop_complete write_loop_partial)

lemma WriteStatusPayload_prefix:
  assumes "WriteStatusPayload (kv_of [(k, v)]) w = (Inr out, w')"
  shows "\<exists>s. SerializeKeyValueMap [(k, v)] = Inr s \<and> prefix out s"
proof -
  obtain s where s: "SerializeKeyValueMap [(k, v)] = Inr s"
    using assms unfolding WriteStatusPayload_def kv_of_single by (auto simp: bnd_Inr_iff)
  obtain e out' sc where l: "write_loop (w_script w) [] s = (e, out', sc)" by (cases "write_loop (w_script w) [] s")
  have "out' = out" using assms s l unfolding WriteStatusPayload_def kv_of_single by (simp add: bnd_apply)
  then show ?thesis using s write_loop_prefix [OF l] by blast
qed

lemma init_discover_inv:
  assumes "init_discover log criu st w = (Inr st', w')" and "init_inv st"
  shows "init_inv st'"
proof (cases "criu_exited st \<and> restored_local st = 0")
  case True
  then have fresh: "\<not> status_sent st" "pipe_bytes st = []"
    using assms(2) by (auto simp: init_inv_def split: if_splits)
  obtain p w1 where "FindRestoredLocalPid criu w = (Inr p, w1)"
    and rest: "(if sint p > 0 then
          bnd (AppendLogLine log (''pidns init: selected restored local pid '' @ PidToString p)) (\<lambda>_.
          bnd (WriteStatusPayload (kv_of [(''restored_local_pid'', PidToString p)])) (\<lambda>out.
          ret (st\<lparr>restored_local := p, status_sent := True, pipe_bytes := pipe_bytes st @ out\<rparr>)))
        else ret (st\<lparr>restored_local := p\<rparr>)) w1 = (Inr st', w')"
    using assms(1) True by (auto simp: init_discover_def bnd_Inr_iff)
  show ?thesis
  proof (cases "sint p > 0")
    case True
    then obtain out a b where "WriteStatusPayload (kv_of [(''restored_local_pid'', PidToString p)]) a = (Inr out, b)"
      and st': "st' = st\<lparr>restored_local := p, status_sent := True, pipe_bytes := out\<rparr>"
      using rest fresh by (auto simp: bnd_Inr_iff)
    then have "pid_status out" using WriteStatusPayload_prefix True unfolding pid_status_def by blast
    moreover have "p \<noteq> 0" using True by auto
    ultimately show ?thesis using st' by (simp add: init_inv_def)
  next
    case False
    then show ?thesis using rest fresh by (auto simp: init_inv_def)
  qed
next
  case False
  then show ?thesis using assms by (auto simp: init_discover_def split: if_splits)
qed

lemma init_reap_inv:
  assumes "init_reap log criu d st w = (Inr (st', b), w')" and "init_inv st"
  shows "init_inv st'"
proof -
  have "st' = st \<or> st' = st\<lparr>criu_exited := True\<rparr>"
    using assms(1) unfolding init_reap_def
    by (auto simp: bnd_Inr_iff split: option.splits reap.splits wait_status.splits if_splits)
  then show ?thesis using assms(2) by (auto simp: init_inv_def)
qed

lemma init_pass_inv:
  assumes "init_pass b argv log criu d st w = (Inr (st', r), w')" and "init_inv st"
  shows "init_inv st'"
proof -
  obtain w1 where w1: "after_exec b argv w = (Inr (), w1)" using after_exec_ends by blast
  obtain x w2 where x: "init_discover log criu st w1 = (x, w2)" by (cases "init_discover log criu st w1")
  show ?thesis
  proof (cases x)
    case (Inl e)
    then show ?thesis using assms x w1 by (simp add: init_pass_def attempt_bnd bnd_apply [of "after_exec b argv"])
  next
    case (Inr st1)
    have i1: "init_inv st1" using init_discover_inv x Inr assms(2) by blast
    obtain y w3 where y: "init_reap log criu d st1 w2 = (y, w3)" by (cases "init_reap log criu d st1 w2")
    have run: "(case y of Inl x \<Rightarrow> ret (st1, Inl x) | Inr (st, over) \<Rightarrow> ret (st, Inr over)) w3 = (Inr (st', r), w')"
      using assms x w1 y Inr by (simp add: init_pass_def attempt_bnd bnd_apply [of "after_exec b argv"])
    show ?thesis
    proof (cases y)
      case (Inr z)
      then show ?thesis using run i1 init_reap_inv [of log criu d st1 w2 "fst z" "snd z" w3] y by (cases z) simp
    qed (use run i1 in simp)
  qed
qed

lemma init_loop_inv:
  "init_loop fuel b argv log criu d st w = (Inr (st', r), w') \<Longrightarrow> init_inv st \<Longrightarrow> init_inv st'"
proof (induction fuel arbitrary: st w)
  case (Suc fuel)
  obtain st1 x w1 where p: "init_pass b argv log criu d st w = (Inr (st1, x), w1)"
    and rest: "(case x of Inl x \<Rightarrow> ret (st1, Some (Inl x))
     | Inr over \<Rightarrow> if over then ret (st1, Some (Inr ())) else init_loop fuel b argv log criu d st1) w1 = (Inr (st', r), w')"
    using Suc.prems(1) by (auto simp: bnd_Inr_iff)
  have "init_inv st1" using init_pass_inv [OF p Suc.prems(2)] .
  then show ?case using rest Suc.IH by (auto split: sum.splits if_splits)
qed simp

lemma init_failed_status:
  assumes "init_failed log st x w = (Inr (code, out), w')" and "init_inv st"
  shows "code = 1 \<and> (pid_status out \<or> error_status out)"
proof -
  obtain o1 w1 where o1: "(if \<not> status_sent st then WriteStatusPayload (kv_of [(''error'', what x)]) else ret []) w = (Inr o1, w1)"
    and code: "code = 1" and out: "out = pipe_bytes st @ o1"
    using assms(1) by (auto simp: init_failed_def bnd_Inr_iff)
  show ?thesis
  proof (cases "status_sent st")
    case True
    then show ?thesis using o1 out code assms(2) by (simp add: init_inv_def)
  next
    case False
    then have "WriteStatusPayload (kv_of [(''error'', what x)]) w = (Inr o1, w1)" and "out = o1"
      using o1 out assms(2) by (simp_all add: init_inv_def)
    then have "error_status out" using WriteStatusPayload_prefix unfolding error_status_def by blast
    then show ?thesis using code by simp
  qed
qed

lemma init_end_status:
  assumes run: "init_end log (st, x) w = (Inr (Some (code, out)), w')" and i: "init_inv st"
  shows "code = 0 \<and> pid_status out \<or> code = 1 \<and> (pid_status out \<or> error_status out)"
proof -
  have none: "pid_status []" unfolding pid_status_def
    by (intro exI [of _ 1] exI [of _ "''restored_local_pid'' @ [EQ] @ PidToString 1 @ [NL]"])
      (simp add: PidToString_def show_int_clean)
  then have sent: "pid_status (pipe_bytes st)" using i by (auto simp: init_inv_def split: if_splits)
  consider (failed) e where "init_failed log st e w = (Inr (code, out), w')" | (good) "code = 0" "out = pipe_bytes st"
    using run unfolding init_end_def by (auto simp: bnd_Inr_iff split: option.splits sum.splits if_splits)
  then show ?thesis
  proof cases
    case failed
    then show ?thesis using init_failed_status i by blast
  qed (use sent in simp)
qed


definition sample_init :: world where
  "sample_init = sample_world\<lparr>w_kernel := sample_kernel\<lparr>k_reap := (\<lambda>t. if t < 30 then Reaped 100 (Exited 0) else NoChild),
     k_proc := (\<lambda>t k. if k = [''proc'', ''1'', ''task'', ''1'', ''children''] then Some ''100 5 '' else None)\<rparr>\<rparr>"

text \<open>Code equations that wait for the state an action runs on, so that an evaluation follows the run.\<close>

lemmas namespace_code [code] =
  fun_cong [OF ReadChildPids_def] fun_cong [OF ReadNSpidValues_def] fun_cong [OF resolve_pass_def]
  fun_cong [OF ResolveHostPidFromLocalPid_def] fun_cong [OF WriteStatusPayload_def] fun_cong [OF poll_timeout_def]
  fun_cong [OF read_pass_def] fun_cong [OF ReadStatusPayload_def] fun_cong [OF MountNewProc_def]
  fun_cong [OF FindRestoredLocalPid_def] fun_cong [OF attempt_def] fun_cong [OF init_discover_def]
  fun_cong [OF init_reap_def] fun_cong [OF init_pass_def] fun_cong [OF init_setup_def] fun_cong [OF init_failed_def]
  fun_cong [OF init_end_def] fun_cong [OF RunNamespaceRestoreInit_def] fun_cong [OF RunNamespaceRestore_def]
  fun_cong [OF RunWorker_def] fun_cong [OF RunWorkerMain_def] fun_cong [OF worker_main_def]


text \<open>The local pid that arrived over the status pipe.\<close>

definition reported_pid :: "kernel \<Rightarrow> arrivals \<Rightarrow> pid_t \<Rightarrow> bool" where
  "reported_pid K arr l \<longleftrightarrow> (\<exists>w1 payload w2 v i. w_kernel w1 = K \<and> ReadStatusPayload arr w1 = (Inr payload, w2)
     \<and> map_of payload ''error'' = None \<and> map_of payload ''restored_local_pid'' = Some v \<and> stol v = Inr i \<and> l = of_int i)"

lemma RunNamespaceRestore_InrE:
  assumes "RunNamespaceRestore fuel arr c w = (Inr x, w')"
  obtains t l h w1 w2 where "reported_pid (w_kernel w) arr l" and "w_kernel w1 = w_kernel w"
    and "ResolveHostPidFromLocalPid (k_fork (w_kernel w) t) l w1 = (Inr h, w2)"
    and "WriteTextFile (path_append (wc_checkpoint_dir c) ''restore.pid'') (PidToString h @ [NL]) 0x180 0x1C0 w2 = (Inr (), w')"
    and "x = 0"
proof -
  let ?log = "log_path c ''restore.log''" and ?work = "path_append (wc_checkpoint_dir c) ''restore-work''"
  let ?I = "fork_shared (attempt (RunNamespaceRestoreInit fuel c ?log))"
  let ?K = "\<lambda>a b. w_kernel b = w_kernel a"
  obtain s1 s2 s3 s4 s5 s6 s7 s8 s9 s10 payload v i h r c1 c2
    where 1: "ValidateWorkerConfig c w = (Inr (), s1)" and 2: "prepare_dirs c ?work ?log s1 = (Inr (), s2)"
      and 3: "call_or_throw ''pipe2'' s2 = (Inr (), s3)" and 4: "fault s3 = (Inr None, s4)" and 5: "fault s4 = (Inr None, s5)"
      and 6: "?I s5 = (Inr r, s6)" and 7: "sys_close s6 = (Inr c1, s7)" and 8: "ReadStatusPayload arr s7 = (Inr payload, s8)"
      and 9: "sys_close s8 = (Inr c2, s9)" and e: "map_of payload ''error'' = None"
      and v: "map_of payload ''restored_local_pid'' = Some v" and i: "stol v = Inr i"
      and 10: "ResolveHostPidFromLocalPid (k_fork (w_kernel s5) (w_tick s5)) (of_int i) s9 = (Inr h, s10)"
      and 11: "WriteTextFile (path_append (wc_checkpoint_dir c) ''restore.pid'') (PidToString h @ [NL]) 0x180 0x1C0 s10 = (Inr (), w')"
      and x: "x = 0"
    using assms unfolding RunNamespaceRestore_def Let_def answer_def
    by (elim bnd_InrE) (auto simp: bnd_Inr_iff split: option.splits)
  have dirs: "keeps (outside (worker_zone c)) (prepare_dirs c ?work ?log)"
    by (rule prepare_dirs_keeps) (auto simp: worker_path_keys intro: below_checkpoint)
  have k: "?K w s1" "?K s1 s2" "?K s2 s3" "?K s3 s4" "?K s4 s5" "?K s6 s7" "?K s7 s8" "?K s8 s9"
    using outside_kernel [OF keeps_result [OF ValidateWorkerConfig_keeps 1]]
      outside_kernel [OF keeps_result [OF dirs 2]]
      outside_kernel [OF keeps_result [OF call_or_throw_keeps 3]] outside_kernel [OF keeps_result [OF fault_keeps 4]]
      outside_kernel [OF keeps_result [OF fault_keeps 5]] outside_kernel [OF keeps_result [OF sys_close_keeps 7]]
      outside_kernel [OF keeps_result [OF ReadStatusPayload_keeps 8]] outside_kernel [OF keeps_result [OF sys_close_keeps 9]]
    by simp_all
  moreover have "?K s5 s6" using keeps_result [OF fork_shared_later 6] by (simp add: later_def)
  ultimately have "reported_pid (w_kernel w) arr (of_int i)" "w_kernel s9 = w_kernel w" "w_kernel s5 = w_kernel w"
    unfolding reported_pid_def using 8 e v i by metis+
  then show ?thesis using that 10 11 x by metis
qed

text \<open>C25: A namespace restore that succeeded leaves the right pid: the pid file of the checkpoint is a
  regular file of mode 0600 that holds exactly the host pid, one line, of the process that the
  process table shows as a child of the namespace's init process and whose innermost pid is the one
  that was reported over the status pipe.\<close>

theorem namespace_restore_pidfile:
  assumes "RunNamespaceRestore fuel arr c w = (Inr x, w')"
  shows "x = 0 \<and> (\<exists>t local_pid h n. reported_pid (w_kernel w) arr local_pid
    \<and> right_host (w_kernel w) (k_fork (w_kernel w) t) local_pid h
    \<and> fs_get (w_files w') (path_key (wc_checkpoint_dir c) @ [''restore.pid'']) = Some n
    \<and> n_kind n = Regular \<and> n_mode n = 0x180 \<and> n_data n = PidToString h @ [NL])"
proof -
  obtain t l h w1 w2 where rep: "reported_pid (w_kernel w) arr l" and k: "w_kernel w1 = w_kernel w"
    and res: "ResolveHostPidFromLocalPid (k_fork (w_kernel w) t) l w1 = (Inr h, w2)"
    and wr: "WriteTextFile (path_append (wc_checkpoint_dir c) ''restore.pid'') (PidToString h @ [NL]) 0x180 0x1C0 w2 = (Inr (), w')"
    and x: "x = 0"
    by (rule RunNamespaceRestore_InrE [OF assms]) (rule that)
  have "right_host (w_kernel w) (k_fork (w_kernel w) t) l h"
    using res resolve_loop_result [of "k_fork (w_kernel w) t" l _ w1 "Inr h" w2 "\<lambda>_. False" 0] k
    by (auto simp: ResolveHostPidFromLocalPid_def bnd_apply steady_now_def)
  then show ?thesis using WriteTextFile_done [OF wr] x rep by auto
qed

theorem namespace_restore_pidfile_witness:
  "\<exists>w' n. RunNamespaceRestore 0 [Some (''restored_local_pid=9'' @ [NL])]
       (sample_worker\<lparr>wc_operation := ''restore''\<rparr>) (sample_namespace\<lparr>w_kernel := (w_kernel sample_namespace)\<lparr>k_fork := (\<lambda>_. 60)\<rparr>\<rparr>)
      = (Inr 0, w')
    \<and> fs_get (w_files w') [''s'', ''j'', ''c'', ''restore.pid''] = Some n \<and> n_mode n = 0x180"
proof -
  let ?r = "RunNamespaceRestore 0 [Some (''restored_local_pid=9'' @ [NL])]
       (sample_worker\<lparr>wc_operation := ''restore''\<rparr>) (sample_namespace\<lparr>w_kernel := (w_kernel sample_namespace)\<lparr>k_fork := (\<lambda>_. 60)\<rparr>\<rparr>)"
  have "fst ?r = Inr 0" by code_simp
  then have r: "?r = (Inr 0, snd ?r)" by (metis prod.collapse)
  have "path_key (wc_checkpoint_dir (sample_worker\<lparr>wc_operation := ''restore''\<rparr>)) @ [''restore.pid''] = [''s'', ''j'', ''c'', ''restore.pid'']"
    by code_simp
  moreover obtain n where "fs_get (w_files (snd ?r)) (path_key (wc_checkpoint_dir (sample_worker\<lparr>wc_operation := ''restore''\<rparr>)) @ [''restore.pid'']) = Some n
      \<and> n_mode n = 0x180"
    using namespace_restore_pidfile [OF r] by (elim conjE exE) (rule that, intro conjI)
  ultimately have "?r = (Inr 0, snd ?r) \<and> fs_get (w_files (snd ?r)) [''s'', ''j'', ''c'', ''restore.pid''] = Some n \<and> n_mode n = 0x180"
    using r by (simp only:)
  then show ?thesis by (intro exI)
qed

end
