(* ===== verification/Process.thy ===== *)
theory Process
  imports Files
begin

text \<open>
  Process inspection and executable validation of \<^verbatim>\<open>util.cc\<close>: the fields of \<^verbatim>\<open>/proc/<pid>/status\<close>
  and \<^verbatim>\<open>/proc/<pid>/stat\<close>, the identity that defends against reuse of process ids, the check that a
  process holds no more privilege than the peer, and the check of the file a managed job starts
  from. The kernel answers every read anew, so two reads of one check may see different processes.

  The results: the two identity checks never raise; when the security check says yes, the kernel
  did report the start time, four equal user ids, four equal group ids and four empty capability
  sets; an executable is accepted exactly if it is an absolute path to a regular file with neither
  set-id bits nor file capabilities.
\<close>

section \<open>Process status\<close>

record ProcessStatusFields =
  uids :: "uid_t list"
  gids :: "gid_t list"
  cap_inh :: string
  cap_prm :: string
  cap_eff :: string
  cap_amb :: string
  have_uids :: bool
  have_gids :: bool
  have_cap_inh :: bool
  have_cap_prm :: bool
  have_cap_eff :: bool
  have_cap_amb :: bool

definition no_fields :: ProcessStatusFields where
  "no_fields = \<lparr>uids = [0, 0, 0, 0], gids = [0, 0, 0, 0], cap_inh = [], cap_prm = [], cap_eff = [],
     cap_amb = [], have_uids = False, have_gids = False, have_cap_inh = False, have_cap_prm = False,
     have_cap_eff = False, have_cap_amb = False\<rparr>"

primrec parse_ids :: "nat \<Rightarrow> string \<Rightarrow> 64 word list option" where
  "parse_ids 0 s = Some []"
| "parse_ids (Suc n) s =
     (case extract_ull s of
        None \<Rightarrow> None
      | Some (v, rest) \<Rightarrow> (case parse_ids n rest of None \<Rightarrow> None | Some vs \<Rightarrow> Some (v # vs)))"

definition ParseFourIds :: "string \<Rightarrow> 64 word list option" where
  "ParseFourIds payload = parse_ids 4 payload"

definition proc_path :: "pid_t \<Rightarrow> string \<Rightarrow> path" where
  "proc_path pid name = path_append (path_append ''/proc'' (PidToString pid)) name"

fun status_lines :: "path \<Rightarrow> string list \<Rightarrow> ProcessStatusFields \<Rightarrow> exn + ProcessStatusFields" where
  "status_lines p [] f = Inr f"
| "status_lines p (line # ls) f =
     (if starts_with ''Uid:'' line then
        (case ParseFourIds (drop 4 line) of
           None \<Rightarrow> Inl (RuntimeError (''failed to parse Uid line from '' @ p))
         | Some vs \<Rightarrow> status_lines p ls (f\<lparr>uids := map ucast vs, have_uids := True\<rparr>))
      else if starts_with ''Gid:'' line then
        (case ParseFourIds (drop 4 line) of
           None \<Rightarrow> Inl (RuntimeError (''failed to parse Gid line from '' @ p))
         | Some vs \<Rightarrow> status_lines p ls (f\<lparr>gids := map ucast vs, have_gids := True\<rparr>))
      else if starts_with ''CapInh:'' line then
        status_lines p ls (f\<lparr>cap_inh := drop 7 line, have_cap_inh := True\<rparr>)
      else if starts_with ''CapPrm:'' line then
        status_lines p ls (f\<lparr>cap_prm := drop 7 line, have_cap_prm := True\<rparr>)
      else if starts_with ''CapEff:'' line then
        status_lines p ls (f\<lparr>cap_eff := drop 7 line, have_cap_eff := True\<rparr>)
      else if starts_with ''CapAmb:'' line then
        status_lines p ls (f\<lparr>cap_amb := drop 7 line, have_cap_amb := True\<rparr>)
      else status_lines p ls f)"

definition parse_status :: "path \<Rightarrow> string \<Rightarrow> exn + ProcessStatusFields" where
  "parse_status p content =
     try_bind (status_lines p (getlines NL content) no_fields) (\<lambda>f.
     if have_uids f \<and> have_gids f \<and> have_cap_inh f \<and> have_cap_prm f \<and> have_cap_eff f \<and> have_cap_amb f
     then Inr f
     else Inl (RuntimeError (''failed to parse process status fields from '' @ p)))"

definition ReadProcessStatusFields :: "pid_t \<Rightarrow> ProcessStatusFields io" where
  "ReadProcessStatusFields pid =
     bnd (ReadTextFile (proc_path pid ''status'')) (\<lambda>content.
     lift_sum (parse_status (proc_path pid ''status'') content))"

definition IsZeroCapabilityMask :: "string \<Rightarrow> bool" where
  "IsZeroCapabilityMask v \<longleftrightarrow>
     list_all (\<lambda>c. isspace c \<or> c = CHR ''0'') v \<and> list_ex (\<lambda>c. \<not> isspace c) v"

definition MatchesExpectedUidTuple :: "uid_t list \<Rightarrow> uid_t \<Rightarrow> bool" where
  "MatchesExpectedUidTuple vs expected = list_all (\<lambda>v. v = expected) vs"

definition MatchesExpectedGidTuple :: "gid_t list \<Rightarrow> gid_t \<Rightarrow> bool" where
  "MatchesExpectedGidTuple vs expected = list_all (\<lambda>v. v = expected) vs"

section \<open>Process identity\<close>

definition IsProcessAlive :: "pid_t \<Rightarrow> bool io" where
  "IsProcessAlive pid =
     (if sint pid \<le> 0 then ret False
      else bnd fault (\<lambda>f. bnd (answer (\<lambda>ker t. k_kill ker t pid)) (\<lambda>r.
        let e = (case f of Some e \<Rightarrow> e | None \<Rightarrow> r) in ret (e = 0 \<or> e = EPERM))))"

text \<open>The text after the last closing parenthesis and one more character; \<open>None\<close> without one.\<close>

definition after_comm :: "string \<Rightarrow> string option" where
  "after_comm s = (if CHR '')'' \<in> set s then Some (rev (takeWhile (\<lambda>c. c \<noteq> CHR '')'') (rev s))) else None)"

primrec nth_field :: "nat \<Rightarrow> string \<Rightarrow> string option" where
  "nth_field 0 s = None"
| "nth_field (Suc n) s =
     (case extract_word s of
        None \<Rightarrow> None
      | Some (v, rest) \<Rightarrow> if n = 0 then Some v else nth_field n rest)"

definition parse_start_time :: "path \<Rightarrow> string \<Rightarrow> exn + string" where
  "parse_start_time p content =
     (case after_comm content of
        None \<Rightarrow> Inl (RuntimeError (''failed to parse '' @ p))
      | Some [] \<Rightarrow> Inl (OutOfRange ''basic_string::substr'')
      | Some (c # rest) \<Rightarrow>
          (case nth_field 20 rest of
             None \<Rightarrow> Inl (RuntimeError (''failed to parse process start time from '' @ p))
           | Some v \<Rightarrow> Inr v))"

definition ReadProcessStartTimeTicks :: "pid_t \<Rightarrow> string io" where
  "ReadProcessStartTimeTicks pid =
     bnd (ReadTextFile (proc_path pid ''stat'')) (\<lambda>content.
     lift_sum (parse_start_time (proc_path pid ''stat'') content))"

definition ReadProcessRealUid :: "pid_t \<Rightarrow> uid_t io" where
  "ReadProcessRealUid pid = bnd (ReadProcessStatusFields pid) (\<lambda>f. ret (uids f ! 0))"

definition ReadProcessRealGid :: "pid_t \<Rightarrow> gid_t io" where
  "ReadProcessRealGid pid = bnd (ReadProcessStatusFields pid) (\<lambda>f. ret (gids f ! 0))"

definition PATH_MAX :: nat where
  "PATH_MAX = 4096"

definition ReadSymlinkPath :: "path \<Rightarrow> string io" where
  "ReadSymlinkPath p =
     bnd fault (\<lambda>f. bnd (answer (\<lambda>ker t. k_link ker t (path_key p))) (\<lambda>l.
     case (f, l) of
       (Some e, _) \<Rightarrow> ThrowErrno (''readlink('' @ p @ '')'') e
     | (None, None) \<Rightarrow> ThrowErrno (''readlink('' @ p @ '')'') ENOENT
     | (None, Some s) \<Rightarrow> ret (takeWhile (\<lambda>c. c \<noteq> NUL) (take PATH_MAX s))))"

definition ReadProcessExecutablePath :: "pid_t \<Rightarrow> string io" where
  "ReadProcessExecutablePath pid = ReadSymlinkPath (proc_path pid ''exe'')"

definition ReadProcessWorkingDirectory :: "pid_t \<Rightarrow> string io" where
  "ReadProcessWorkingDirectory pid = ReadSymlinkPath (proc_path pid ''cwd'')"

fun split_argv :: "string \<Rightarrow> string \<Rightarrow> string list" where
  "split_argv [] cur = (if cur \<noteq> [] then [cur] else [])"
| "split_argv (b # bs) cur =
     (if b = NUL then (if cur \<noteq> [] then cur # split_argv bs [] else split_argv bs cur)
      else split_argv bs (cur @ [b]))"

definition ReadProcessCommandLine :: "pid_t \<Rightarrow> string list io" where
  "ReadProcessCommandLine pid =
     bnd (read_stream (proc_path pid ''cmdline'')) (\<lambda>r. case r of
       None \<Rightarrow> raise (RuntimeError (''failed to open file for read: '' @ proc_path pid ''cmdline''))
     | Some s \<Rightarrow> ret (split_argv s []))"

record ProcessIdentity =
  id_pid :: pid_t
  id_uid :: uid_t
  id_gid :: gid_t
  id_ticks :: string

definition ReadProcessIdentity :: "pid_t \<Rightarrow> ProcessIdentity io" where
  "ReadProcessIdentity pid =
     bnd (ReadProcessRealUid pid) (\<lambda>u.
     bnd (ReadProcessRealGid pid) (\<lambda>g.
     bnd (ReadProcessStartTimeTicks pid) (\<lambda>t.
     ret \<lparr>id_pid = pid, id_uid = u, id_gid = g, id_ticks = t\<rparr>)))"

definition ProcessIdentityMatches :: "pid_t \<Rightarrow> uid_t \<Rightarrow> gid_t \<Rightarrow> string \<Rightarrow> bool io" where
  "ProcessIdentityMatches pid uid gid ticks =
     (if sint pid \<le> 0 \<or> ticks = [] then ret False
      else catch_exn
        (bnd (IsProcessAlive pid) (\<lambda>alive.
         if \<not> alive then ret False
         else bnd (ReadProcessIdentity pid) (\<lambda>i.
           ret (id_uid i = uid \<and> id_gid i = gid \<and> id_ticks i = ticks))))
        (\<lambda>_. ret False))"

text \<open>The result is \<open>None\<close> for \<^verbatim>\<open>true\<close>, and the reason for \<^verbatim>\<open>false\<close>.\<close>

definition ProcessMatchesPeerSecurity :: "pid_t \<Rightarrow> uid_t \<Rightarrow> gid_t \<Rightarrow> string \<Rightarrow> string option io" where
  "ProcessMatchesPeerSecurity pid uid gid ticks =
     (if sint pid \<le> 0 \<or> ticks = [] then ret (Some ''invalid process identity'')
      else catch_exn
        (bnd (IsProcessAlive pid) (\<lambda>alive.
         if \<not> alive then ret (Some ''process is not running'')
         else bnd (ReadProcessIdentity pid) (\<lambda>i.
           if id_ticks i \<noteq> ticks then ret (Some ''process start time changed'')
           else bnd (ReadProcessStatusFields pid) (\<lambda>f.
             if \<not> MatchesExpectedUidTuple (uids f) uid
             then ret (Some ''process uid tuple is elevated or no longer owned by the caller'')
             else if \<not> MatchesExpectedGidTuple (gids f) gid
             then ret (Some ''process gid tuple is elevated or no longer owned by the caller'')
             else if \<not> IsZeroCapabilityMask (cap_inh f) \<or> \<not> IsZeroCapabilityMask (cap_prm f)
                  \<or> \<not> IsZeroCapabilityMask (cap_eff f) \<or> \<not> IsZeroCapabilityMask (cap_amb f)
             then ret (Some ''process holds Linux capabilities'')
             else ret None))))
        (\<lambda>x. ret (Some (what x))))"

section \<open>Managed executables\<close>

text \<open>The node an \<^verbatim>\<open>O_PATH\<close> descriptor was opened on stays reachable through it; the functions get
  both the descriptor and the node.\<close>

definition ProcFdPath :: "int \<Rightarrow> path" where
  "ProcFdPath fd = path_append ''/proc/self/fd'' (show_int fd)"

text \<open>The capability attribute of a file that has one is never reported missing.\<close>

definition ValidateManagedExecutableFd :: "node \<Rightarrow> path \<Rightarrow> unit io" where
  "ValidateManagedExecutableFd n p =
     bnd fault (\<lambda>f. case f of Some e \<Rightarrow> ThrowErrno (''fstat('' @ p @ '')'') e | None \<Rightarrow>
     if n_kind n \<noteq> Regular then raise (RuntimeError ''managed job executable must be a regular file'')
     else if n_mode n AND 0x800 \<noteq> 0 \<or> n_mode n AND 0x400 \<noteq> 0
     then raise (RuntimeError ''managed job executable may not be setuid or setgid'')
     else bnd fault (\<lambda>f.
       let e = (case f of
           Some e \<Rightarrow> if n_cap n \<and> (e = ENODATA \<or> e = ENOTSUP) then 0 else e
         | None \<Rightarrow> if n_cap n then 0 else ENODATA) in
       if e = 0 then raise (RuntimeError ''managed job executable may not have file capabilities'')
       else if e = ENODATA \<or> e = ENOTSUP then ret ()
       else ThrowErrno (''getxattr('' @ p @ '', security.capability)'') e))"

definition ExecutableFdLooksLikeScript :: "node \<Rightarrow> int \<Rightarrow> bool io" where
  "ExecutableFdLooksLikeScript n fd =
     bnd fault (\<lambda>f. case f of
       Some e \<Rightarrow> if e = EACCES \<or> e = EPERM then ret False else ThrowErrno (''open('' @ ProcFdPath fd @ '')'') e
     | None \<Rightarrow> (\<lambda>w.
         case read_loop (w_script w) (n_data n) [] 2 of
           (fin, header, _, sc) \<Rightarrow>
             (case fin of
                ReadError e \<Rightarrow> bnd sys_close (\<lambda>_. ThrowErrno (''read('' @ ProcFdPath fd @ '')'') e)
              | _ \<Rightarrow> bnd sys_close (\<lambda>e.
                  if e \<noteq> 0 then ThrowErrno (''close('' @ ProcFdPath fd @ '')'') e else ret (header = ''#!'')))
             (w\<lparr>w_script := sc, w_tick := Suc (w_tick w)\<rparr>)))"

text \<open>The result is the descriptor and whether it is still close-on-exec.\<close>

definition OpenManagedExecutableForExec :: "path \<Rightarrow> (int \<times> bool) io" where
  "OpenManagedExecutableForExec p =
     (if \<not> IsAbsolutePath p then raise (RuntimeError ''managed job executable must be absolute'')
      else bnd fault (\<lambda>f. bnd (gets (\<lambda>w. fs_get (w_files w) (path_key p))) (\<lambda>nd.
        case (f, nd) of
          (Some e, _) \<Rightarrow> ThrowErrno (''open('' @ p @ '')'') e
        | (None, None) \<Rightarrow> ThrowErrno (''open('' @ p @ '')'') ENOENT
        | (None, Some n) \<Rightarrow> bnd (answer k_fd) (\<lambda>fd.
            catch_exn
              (bnd (ValidateManagedExecutableFd n p) (\<lambda>_.
               bnd (ExecutableFdLooksLikeScript n fd) (\<lambda>script.
               if script then
                 bnd fault (\<lambda>f. case f of Some e \<Rightarrow> ThrowErrno ''fcntl(F_GETFD)'' e | None \<Rightarrow>
                 bnd fault (\<lambda>f. case f of Some e \<Rightarrow> ThrowErrno ''fcntl(F_SETFD)'' e | None \<Rightarrow>
                 ret (fd, False)))
               else ret (fd, True))))
              (\<lambda>x. bnd sys_close (\<lambda>_. raise x))))))"

definition ValidateManagedExecutable :: "path \<Rightarrow> unit io" where
  "ValidateManagedExecutable p =
     bnd (OpenManagedExecutableForExec p) (\<lambda>_.
     bnd sys_close (\<lambda>e. if e \<noteq> 0 then ThrowErrno (''close('' @ p @ '')'') e else ret ()))"

section \<open>A sample process\<close>

text \<open>Process 42 of user 7 and group 7, started at tick 99, on the sample machine.\<close>

definition sample_proc :: world where
  "sample_proc = sample_world\<lparr>w_kernel := sample_kernel\<lparr>k_kill := (\<lambda>_ _. 0),
     k_proc := (\<lambda>_ k.
       if k = [''proc'', ''42'', ''stat'']
       then Some ''42 (a (b) c) S 1 1 1 0 0 0 0 0 0 0 0 0 0 0 0 0 0 0 99 0''
       else if k = [''proc'', ''42'', ''status'']
       then Some (''Name: sh'' @ [NL] @ ''Uid: 7 7 7 7'' @ [NL] @ ''Gid: 7 7 7 7'' @ [NL] @ ''CapInh: 00'' @ [NL]
         @ ''CapPrm: 00'' @ [NL] @ ''CapEff: 00'' @ [NL] @ ''CapAmb: 00'' @ [NL])
       else None)\<rparr>\<rparr>"

definition sample_binary :: "bool \<Rightarrow> mode_t \<Rightarrow> world" where
  "sample_binary caps m = sample_world\<lparr>w_files := [([''bin''], root_node), ([''bin'', ''job''],
     \<lparr>n_kind = Regular, n_mode = m, n_uid = 0, n_gid = 0, n_cap = caps, n_data = ''#!/bin/sh''\<rparr>)]\<rparr>"

section \<open>Inspection changes no file\<close>

lemma ReadProcessStatusFields_keeps [frame_intros]: "keeps (outside K) (ReadProcessStatusFields pid)"
  unfolding ReadProcessStatusFields_def by (intro frame_intros)

lemma IsProcessAlive_keeps [frame_intros]: "keeps (outside K) (IsProcessAlive pid)"
  unfolding IsProcessAlive_def Let_def by (intro frame_intros)

lemma ReadProcessStartTimeTicks_keeps [frame_intros]: "keeps (outside K) (ReadProcessStartTimeTicks pid)"
  unfolding ReadProcessStartTimeTicks_def by (intro frame_intros)

lemma ReadSymlinkPath_keeps [frame_intros]: "keeps (outside K) (ReadSymlinkPath p)"
  unfolding ReadSymlinkPath_def prod.case by (intro frame_intros)

lemma ReadProcessCommandLine_keeps [frame_intros]: "keeps (outside K) (ReadProcessCommandLine pid)"
  unfolding ReadProcessCommandLine_def by (intro frame_intros)

lemma ReadProcessIdentity_keeps [frame_intros]: "keeps (outside K) (ReadProcessIdentity pid)"
  unfolding ReadProcessIdentity_def ReadProcessRealUid_def ReadProcessRealGid_def by (intro frame_intros)

lemma ProcessIdentityMatches_keeps [frame_intros]: "keeps (outside K) (ProcessIdentityMatches pid u g t)"
  unfolding ProcessIdentityMatches_def by (intro frame_intros)

lemma ProcessMatchesPeerSecurity_keeps [frame_intros]:
  "keeps (outside K) (ProcessMatchesPeerSecurity pid u g t)"
  unfolding ProcessMatchesPeerSecurity_def by (intro frame_intros)

lemma read_loop_suffix: "read_loop sc avail got n = (r, got', rest, sc') \<Longrightarrow> suffix sc' sc"
proof (induction sc arbitrary: avail got n)
  case Nil
  then show ?case by (auto simp: read_loop_quiet split: if_splits)
next
  case (Cons x sc)
  show ?case
  proof (cases "n = 0 \<or> avail = []")
    case True
    then show ?thesis
      using Cons by (cases "n = 0"; cases x) (auto split: if_splits simp: suffix_ConsI)
  next
    case False
    then have "0 < n" "avail \<noteq> []" by auto
    then show ?thesis
      using Cons by (cases x) (fastforce split: if_splits simp: suffix_ConsI)+
  qed
qed

lemma ExecutableFdLooksLikeScript_keeps [frame_intros]:
  "keeps (outside K) (ExecutableFdLooksLikeScript n fd)"
  unfolding ExecutableFdLooksLikeScript_def
proof (intro out.bnd_keeps fault_keeps option_keeps)
  fix f :: "int option" and e :: int
  show "keeps (outside K) (if e = EACCES \<or> e = EPERM then ret False
      else ThrowErrno (''open('' @ ProcFdPath fd @ '')'') e)" by (intro frame_intros)
next
  let ?m = "\<lambda>fin header. case fin of
      ReadError e \<Rightarrow> bnd sys_close (\<lambda>_. ThrowErrno (''read('' @ ProcFdPath fd @ '')'') e)
    | _ \<Rightarrow> bnd sys_close (\<lambda>e.
        if e \<noteq> 0 then ThrowErrno (''close('' @ ProcFdPath fd @ '')'') e else ret (header = ''#!''))"
  show "keeps (outside K) (\<lambda>w. case read_loop (w_script w) (n_data n) [] 2 of
      (fin, header, _, sc) \<Rightarrow> ?m fin header (w\<lparr>w_script := sc, w_tick := Suc (w_tick w)\<rparr>))"
  proof (rule keepsI)
    fix w :: world
    obtain fin header rest sc where r: "read_loop (w_script w) (n_data n) [] 2 = (fin, header, rest, sc)"
      by (cases "read_loop (w_script w) (n_data n) [] 2")
    have "outside K w (w\<lparr>w_script := sc, w_tick := Suc (w_tick w)\<rparr>)"
      using read_loop_suffix [OF r] by (simp add: outside_def)
    moreover have "keeps (outside K) (?m fin header)"
      by (cases fin) (auto intro!: frame_intros)
    ultimately show "outside K w (snd (case read_loop (w_script w) (n_data n) [] 2 of
        (fin, header, _, sc) \<Rightarrow> ?m fin header (w\<lparr>w_script := sc, w_tick := Suc (w_tick w)\<rparr>)))"
      using r by (auto intro: out.frame_trans keepsD)
  qed
qed

lemma ValidateManagedExecutableFd_keeps [frame_intros]: "keeps (outside K) (ValidateManagedExecutableFd n p)"
  unfolding ValidateManagedExecutableFd_def Let_def by (intro frame_intros)

lemma OpenManagedExecutableForExec_keeps [frame_intros]: "keeps (outside K) (OpenManagedExecutableForExec p)"
  unfolding OpenManagedExecutableForExec_def prod.case by (intro frame_intros)

lemma ValidateManagedExecutable_keeps [frame_intros]: "keeps (outside K) (ValidateManagedExecutable p)"
  unfolding ValidateManagedExecutable_def by (intro frame_intros)

section \<open>What a passed check means\<close>

definition proc_key :: "pid_t \<Rightarrow> string \<Rightarrow> key" where
  "proc_key pid name = [''proc'', PidToString pid, name]"

text \<open>The kernel reported \<open>s\<close> for a file of the process table at some time between two worlds.\<close>

definition reported :: "world \<Rightarrow> world \<Rightarrow> pid_t \<Rightarrow> string \<Rightarrow> string \<Rightarrow> bool" where
  "reported w w' pid name s \<longleftrightarrow>
     (\<exists>t. w_tick w \<le> t \<and> t \<le> w_tick w' \<and> k_proc (w_kernel w) t (proc_key pid name) = Some s)"

lemma PidToString_component [simp]: "SLASH \<notin> set (PidToString p)" "PidToString p \<noteq> []"
  using show_nat_clean by (auto simp: PidToString_def show_int_def)

lemma proc_path_key: "name \<noteq> [] \<Longrightarrow> SLASH \<notin> set name \<Longrightarrow> path_key (proc_path pid name) = proc_key pid name"
proof -
  assume "name \<noteq> []" "SLASH \<notin> set name"
  moreover have "path_key ''/proc'' = [''proc'']" by code_simp
  ultimately show ?thesis
    by (simp add: proc_path_def proc_key_def component_relative path_key_single)
qed

lemma ReadTextFile_proc:
  assumes "ReadTextFile (proc_path pid name) w = (Inr s, w')" and "name \<noteq> []" "SLASH \<notin> set name"
  shows "reported w w' pid name s"
proof -
  obtain f w1 where f: "fault w = (Inr f, w1)" and w': "w' = w1"
    and s: "f = None" "k_proc (w_kernel w1) (w_tick w1) (proc_key pid name) = Some s"
    using assms(1)
    by (auto simp: ReadTextFile_def read_stream_def bnd_Inr_iff proc_path_key [OF assms(2, 3)] proc_key_def
        split: option.splits if_splits)
  have "outside (\<lambda>_. False) w w1" by (rule keeps_result [OF fault_keeps f])
  then show ?thesis using s w' by (auto simp: reported_def outside_def)
qed

lemma reported_mono:
  assumes "reported v v' pid name s" and "outside K w v" and "outside L v' w'"
  shows "reported w w' pid name s"
proof -
  have "w_kernel v = w_kernel w" "w_tick w \<le> w_tick v" "w_tick v' \<le> w_tick w'"
    using assms(2, 3) by (simp_all add: outside_def)
  then show ?thesis using assms(1) unfolding reported_def by (metis le_trans)
qed

lemma status_reported:
  assumes "ReadProcessStatusFields pid w = (Inr f, w')"
  shows "\<exists>s. reported w w' pid ''status'' s \<and> parse_status (proc_path pid ''status'') s = Inr f"
  using assms by (auto simp: ReadProcessStatusFields_def bnd_Inr_iff dest: ReadTextFile_proc)

lemma stat_reported:
  assumes "ReadProcessStartTimeTicks pid w = (Inr t, w')"
  shows "\<exists>s. reported w w' pid ''stat'' s \<and> parse_start_time (proc_path pid ''stat'') s = Inr t"
  using assms by (auto simp: ReadProcessStartTimeTicks_def bnd_Inr_iff dest: ReadTextFile_proc)

lemma identity_ticks:
  assumes "ReadProcessIdentity pid w = (Inr i, w')"
  shows "\<exists>v. outside (\<lambda>_. False) w v \<and> ReadProcessStartTimeTicks pid v = (Inr (id_ticks i), w')"
proof -
  obtain u g t w1 w2 where r: "ReadProcessStatusFields pid w = (Inr u, w1)"
      "ReadProcessStatusFields pid w1 = (Inr g, w2)"
    and t: "ReadProcessStartTimeTicks pid w2 = (Inr t, w')" "id_ticks i = t"
    using assms
    by (auto simp: ReadProcessIdentity_def ReadProcessRealUid_def ReadProcessRealGid_def bnd_Inr_iff)
  have "outside (\<lambda>_. False) w w2"
    using out.frame_trans [OF keeps_result [OF ReadProcessStatusFields_keeps r(1)]
        keeps_result [OF ReadProcessStatusFields_keeps r(2)]] .
  then show ?thesis using t by auto
qed

lemma catch_Inr_iff:
  "catch_exn m (\<lambda>x. ret (h x)) w = (Inr y, w') \<longleftrightarrow>
     m w = (Inr y, w') \<or> (\<exists>x. m w = (Inl x, w') \<and> h x = y)"
  by (auto simp: catch_exn_def split: prod.splits sum.splits)

lemma ProcessMatchesPeerSecurity_NoneE:
  assumes "ProcessMatchesPeerSecurity pid uid gid ticks w = (Inr None, w')"
  obtains i f w1 w2 where "0 < sint pid" and "ticks \<noteq> []"
    and "IsProcessAlive pid w = (Inr True, w1)"
    and "ReadProcessIdentity pid w1 = (Inr i, w2)" and "id_ticks i = ticks"
    and "ReadProcessStatusFields pid w2 = (Inr f, w')"
    and "MatchesExpectedUidTuple (uids f) uid" and "MatchesExpectedGidTuple (gids f) gid"
    and "IsZeroCapabilityMask (cap_inh f)" "IsZeroCapabilityMask (cap_prm f)"
    and "IsZeroCapabilityMask (cap_eff f)" "IsZeroCapabilityMask (cap_amb f)"
  using assms
  by (auto simp: ProcessMatchesPeerSecurity_def bnd_Inr_iff catch_Inr_iff split: if_splits)

text \<open>C11: A process passes the peer security check only if, during the check, the kernel reported
  for its pid the expected start time in \<^verbatim>\<open>/proc/<pid>/stat\<close>, and in one read of
  \<^verbatim>\<open>/proc/<pid>/status\<close> four user ids all equal to the peer's, four group ids all equal to the
  peer's, and inheritable, permitted, effective and ambient capability sets that are all zero.\<close>

theorem peer_security_sound:
  assumes "ProcessMatchesPeerSecurity pid uid gid ticks w = (Inr None, w')"
  shows "0 < sint pid \<and> ticks \<noteq> []
    \<and> (\<exists>s. reported w w' pid ''stat'' s \<and> parse_start_time (proc_path pid ''stat'') s = Inr ticks)
    \<and> (\<exists>s f. reported w w' pid ''status'' s \<and> parse_status (proc_path pid ''status'') s = Inr f
       \<and> (\<forall>u\<in>set (uids f). u = uid) \<and> (\<forall>g\<in>set (gids f). g = gid)
       \<and> IsZeroCapabilityMask (cap_inh f) \<and> IsZeroCapabilityMask (cap_prm f)
       \<and> IsZeroCapabilityMask (cap_eff f) \<and> IsZeroCapabilityMask (cap_amb f))"
proof -
  obtain i f w1 w2 where pid: "0 < sint pid" "ticks \<noteq> []"
    and alive: "IsProcessAlive pid w = (Inr True, w1)"
    and id: "ReadProcessIdentity pid w1 = (Inr i, w2)" "id_ticks i = ticks"
    and st: "ReadProcessStatusFields pid w2 = (Inr f, w')"
    and f: "MatchesExpectedUidTuple (uids f) uid" "MatchesExpectedGidTuple (gids f) gid"
      "IsZeroCapabilityMask (cap_inh f)" "IsZeroCapabilityMask (cap_prm f)"
      "IsZeroCapabilityMask (cap_eff f)" "IsZeroCapabilityMask (cap_amb f)"
    by (rule ProcessMatchesPeerSecurity_NoneE [OF assms]) (rule that)
  obtain v where v: "outside (\<lambda>_. False) w1 v" and tk: "ReadProcessStartTimeTicks pid v = (Inr ticks, w2)"
    using identity_ticks [OF id(1)] id(2) by auto
  have o1: "outside (\<lambda>_. False) w w1" "outside (\<lambda>_. False) w1 w2" "outside (\<lambda>_. False) w2 w'"
    using keeps_result [OF IsProcessAlive_keeps alive] keeps_result [OF ReadProcessIdentity_keeps id(1)]
      keeps_result [OF ReadProcessStatusFields_keeps st] by blast+
  have stat: "\<exists>s. reported w w' pid ''stat'' s \<and> parse_start_time (proc_path pid ''stat'') s = Inr ticks"
    using stat_reported [OF tk] reported_mono [OF _ out.frame_trans [OF o1(1) v] o1(3)] by blast
  have "\<exists>s. reported w w' pid ''status'' s \<and> parse_status (proc_path pid ''status'') s = Inr f"
    using status_reported [OF st] reported_mono [OF _ out.frame_trans [OF o1(1, 2)] out.frame_refl] by blast
  then show ?thesis
    using stat pid f by (auto simp: MatchesExpectedUidTuple_def MatchesExpectedGidTuple_def list_all_iff)
qed

theorem peer_security_sound_witness:
  "\<exists>s f. parse_status (proc_path 42 ''status'') s = Inr f \<and> (\<forall>u\<in>set (uids f). u = 7)"
proof -
  let ?r = "ProcessMatchesPeerSecurity 42 7 7 ''99'' sample_proc"
  have "?r = (Inr None, snd ?r)" by (rule prod_eqI) (code_simp, simp)
  from peer_security_sound [OF this] show ?thesis by blast
qed

lemma caught_total:
  "\<exists>y w'. catch_exn m (\<lambda>x. ret (h x)) w = (Inr y, w')"
  by (auto simp: catch_exn_def split: prod.split sum.split)

lemma ProcessIdentityMatches_Inr: "\<exists>b w'. ProcessIdentityMatches pid uid gid ticks w = (Inr b, w')"
  using caught_total [of _ "\<lambda>_. False" w] by (cases "sint pid \<le> 0 \<or> ticks = []") (auto simp: ProcessIdentityMatches_def)

lemma ProcessMatchesPeerSecurity_Inr: "\<exists>r w'. ProcessMatchesPeerSecurity pid uid gid ticks w = (Inr r, w')"
  using caught_total [of _ "\<lambda>x. Some (what x)" w]
  by (cases "sint pid \<le> 0 \<or> ticks = []") (auto simp: ProcessMatchesPeerSecurity_def)

lemma identity_needs_report:
  assumes "ReadProcessIdentity pid v = (Inr i, v')" and "w_kernel v = w_kernel w"
  shows "\<exists>t s. k_proc (w_kernel w) t (proc_key pid ''stat'') = Some s"
proof -
  obtain u where u: "outside (\<lambda>_. False) v u" "ReadProcessStartTimeTicks pid u = (Inr (id_ticks i), v')"
    using identity_ticks [OF assms(1)] by blast
  then show ?thesis
    using stat_reported [OF u(2)] outside_kernel [OF u(1)] assms(2) by (auto simp: reported_def)
qed

lemma IsProcessAlive_kernel: "IsProcessAlive pid w = (r, w1) \<Longrightarrow> w_kernel w1 = w_kernel w"
  using outside_kernel [OF keeps_result [OF IsProcessAlive_keeps]] .

text \<open>The two process checks are total: whatever the process table says and whichever reads
  fail, they return an answer instead of raising and change no file; and they answer no when the
  process table has no entry for the process.\<close>

lemma process_checks_total:
  "(\<exists>b w'. ProcessIdentityMatches pid uid gid ticks w = (Inr b, w')
      \<and> fs_get (w_files w') = fs_get (w_files w)
      \<and> ((\<forall>t. k_proc (w_kernel w) t (proc_key pid ''stat'') = None) \<longrightarrow> \<not> b))
   \<and> (\<exists>r w'. ProcessMatchesPeerSecurity pid uid gid ticks w = (Inr r, w')
      \<and> fs_get (w_files w') = fs_get (w_files w)
      \<and> ((\<forall>t. k_proc (w_kernel w) t (proc_key pid ''stat'') = None) \<longrightarrow> r \<noteq> None))"
proof (rule conjI)
  obtain b w' where b: "ProcessIdentityMatches pid uid gid ticks w = (Inr b, w')"
    using ProcessIdentityMatches_Inr by blast
  have "\<exists>t s. k_proc (w_kernel w) t (proc_key pid ''stat'') = Some s" if b
    using b that
    by (auto simp: ProcessIdentityMatches_def catch_Inr_iff bnd_Inr_iff split: if_splits
        intro: identity_needs_report dest: IsProcessAlive_kernel)
  then show "\<exists>b w'. ProcessIdentityMatches pid uid gid ticks w = (Inr b, w')
      \<and> fs_get (w_files w') = fs_get (w_files w)
      \<and> ((\<forall>t. k_proc (w_kernel w) t (proc_key pid ''stat'') = None) \<longrightarrow> \<not> b)"
    using b outside_none [OF keeps_result [OF ProcessIdentityMatches_keeps b]] by fastforce
next
  obtain r w' where r: "ProcessMatchesPeerSecurity pid uid gid ticks w = (Inr r, w')"
    using ProcessMatchesPeerSecurity_Inr by blast
  have "\<exists>t s. k_proc (w_kernel w) t (proc_key pid ''stat'') = Some s" if n: "r = None"
  proof -
    obtain i w1 w2 where "IsProcessAlive pid w = (Inr True, w1)" "ReadProcessIdentity pid w1 = (Inr i, w2)"
      by (rule ProcessMatchesPeerSecurity_NoneE [OF r [unfolded n]]) (rule that)
    then show ?thesis using identity_needs_report IsProcessAlive_kernel by blast
  qed
  then show "\<exists>r w'. ProcessMatchesPeerSecurity pid uid gid ticks w = (Inr r, w')
      \<and> fs_get (w_files w') = fs_get (w_files w)
      \<and> ((\<forall>t. k_proc (w_kernel w) t (proc_key pid ''stat'') = None) \<longrightarrow> r \<noteq> None)"
    using r outside_none [OF keeps_result [OF ProcessMatchesPeerSecurity_keeps r]] by fastforce
qed

section \<open>Accepted executables\<close>

text \<open>The file a managed job may start from.\<close>

definition plain_executable :: "node \<Rightarrow> bool" where
  "plain_executable n \<longleftrightarrow> n_kind n = Regular \<and> n_mode n AND 0x800 = 0 \<and> n_mode n AND 0x400 = 0 \<and> \<not> n_cap n"

lemma faultless_step: "faultless w \<Longrightarrow> fault w = (Inr f, w1) \<Longrightarrow> f = None \<and> faultless w1"
  using fault_ok [of w] outside_faultless by fastforce

lemma ValidateManagedExecutableFd_iff:
  assumes "faultless w"
  shows "(\<exists>w'. ValidateManagedExecutableFd n p w = (Inr (), w')) \<longleftrightarrow> plain_executable n"
proof -
  obtain w1 where w1: "fault w = (Inr None, w1)" "faultless w1"
    using fault_ok [OF assms] outside_faultless assms by blast
  obtain w2 where w2: "fault w1 = (Inr None, w2)" using fault_ok [OF w1(2)] by blast
  show ?thesis
    by (auto simp: ValidateManagedExecutableFd_def bnd_apply w1 w2 plain_executable_def)
qed

lemma script_probe_ok:
  assumes "faultless w"
  shows "\<exists>b w'. ExecutableFdLooksLikeScript n fd w = (Inr b, w') \<and> faultless w' \<and> b = (take 2 (n_data n) = ''#!'')"
proof -
  obtain w1 where w1: "fault w = (Inr None, w1)" "faultless w1"
    using fault_ok [OF assms] outside_faultless assms by blast
  obtain fin header rest sc where r: "read_loop (w_script w1) (n_data n) [] 2 = (fin, header, rest, sc)"
    by (cases "read_loop (w_script w1) (n_data n) [] 2")
  let ?w = "w1\<lparr>w_script := sc, w_tick := Suc (w_tick w1)\<rparr>"
  have "suffix sc (w_script w1)" using read_loop_suffix [OF r] .
  then have fl: "faultless ?w"
    using w1(2) set_mono_suffix by (fastforce simp: faultless_def list_all_iff)
  obtain w2 where w2: "sys_close ?w = (Inr 0, w2)" "faultless w2"
    using fault_ok [OF fl] outside_faultless [OF _ fl] by (auto simp: sys_close_def or_fault_def bnd_apply)
  have "\<forall>e. fin \<noteq> ReadError e \<and> header = take 2 (n_data n)"
    using read_loop_faultless [OF _ r] w1(2) by (auto simp: faultless_def)
  then show ?thesis
    using w1(1) r w2 by (cases fin) (auto simp: ExecutableFdLooksLikeScript_def bnd_apply)
qed

lemma sys_close_total: "\<exists>e w'. sys_close w = (Inr e, w')"
  by (rule fault_cases [of w]) (auto simp: sys_close_def or_fault_def bnd_apply)

lemma OpenManagedExecutableForExec_result:
  assumes "faultless w" and "IsAbsolutePath p" and "fs_get (w_files w) (path_key p) = Some n"
  shows "plain_executable n \<Longrightarrow> \<exists>fd w'. OpenManagedExecutableForExec p w = (Inr (fd, take 2 (n_data n) \<noteq> ''#!''), w')"
    and "\<not> plain_executable n \<Longrightarrow> \<exists>x w'. OpenManagedExecutableForExec p w = (Inl x, w')"
proof -
  obtain w1 where w1: "fault w = (Inr None, w1)" and o: "outside (\<lambda>_. False) w w1"
    using fault_ok [OF assms(1)] by blast
  have fl: "faultless w1" and g: "fs_get (w_files w1) (path_key p) = Some n"
    using outside_faultless [OF o assms(1)] outside_none [OF o] assms(3) by auto
  note body = OpenManagedExecutableForExec_def assms(2) bnd_apply w1 g answer_def catch_apply
  show "\<exists>fd w'. OpenManagedExecutableForExec p w = (Inr (fd, take 2 (n_data n) \<noteq> ''#!''), w')" if plain: "plain_executable n"
  proof -
    obtain w2 where w2: "ValidateManagedExecutableFd n p w1 = (Inr (), w2)"
      using ValidateManagedExecutableFd_iff [OF fl] plain by metis
    have fl2: "faultless w2"
      using outside_faultless [OF keeps_result [OF ValidateManagedExecutableFd_keeps w2] fl] .
    obtain w3 where w3: "ExecutableFdLooksLikeScript n (k_fd (w_kernel w1) (w_tick w1)) w2
        = (Inr (take 2 (n_data n) = ''#!''), w3)" "faultless w3"
      using script_probe_ok [OF fl2] by blast
    obtain w4 where w4: "fault w3 = (Inr None, w4)" "faultless w4"
      using fault_ok [OF w3(2)] outside_faultless w3(2) by blast
    obtain w5 where w5: "fault w4 = (Inr None, w5)" using fault_ok [OF w4(2)] by blast
    show ?thesis using w2 w3 w4 w5 by (auto simp: body)
  qed
  show "\<exists>x w'. OpenManagedExecutableForExec p w = (Inl x, w')" if no: "\<not> plain_executable n"
  proof -
    obtain x w2 where x: "ValidateManagedExecutableFd n p w1 = (Inl x, w2)"
      using ValidateManagedExecutableFd_iff [OF fl] no
      by (cases "ValidateManagedExecutableFd n p w1"; cases "fst (ValidateManagedExecutableFd n p w1)") auto
    obtain e w3 where "sys_close w2 = (Inr e, w3)" using sys_close_total by blast
    then show ?thesis using x by (simp add: body)
  qed
qed

text \<open>C30: On a machine where no call fails, the daemon accepts an executable for a managed job
  exactly if its path is absolute and names a regular file that has no set-user-id bit, no
  set-group-id bit and no file capabilities; the descriptor it keeps for \<^verbatim>\<open>execveat\<close> stays
  close-on-exec exactly if the file does not start with a shebang.\<close>

theorem managed_executable_iff:
  assumes "faultless w"
  shows "(\<exists>fd w'. OpenManagedExecutableForExec p w = (Inr (fd, cloexec), w')) \<longleftrightarrow>
      IsAbsolutePath p \<and> (\<exists>n. fs_get (w_files w) (path_key p) = Some n \<and> n_kind n = Regular
        \<and> n_mode n AND 0x800 = 0 \<and> n_mode n AND 0x400 = 0 \<and> \<not> n_cap n
        \<and> cloexec = (take 2 (n_data n) \<noteq> ''#!''))"
proof (cases "IsAbsolutePath p")
  case abs: True
  show ?thesis
  proof (cases "fs_get (w_files w) (path_key p)")
    case None
    obtain w1 where w1: "fault w = (Inr None, w1)" and o: "outside (\<lambda>_. False) w w1"
      using fault_ok [OF assms] by blast
    then show ?thesis
      using None abs outside_none [OF o]
      by (simp add: OpenManagedExecutableForExec_def bnd_apply ThrowErrno_def)
  next
    case (Some n)
    show ?thesis
    proof (cases "plain_executable n")
      case True
      then obtain fd w' where "OpenManagedExecutableForExec p w = (Inr (fd, take 2 (n_data n) \<noteq> ''#!''), w')"
        using OpenManagedExecutableForExec_result(1) [OF assms abs Some] by blast
      then show ?thesis using True Some abs by (auto simp: plain_executable_def)
    next
      case False
      then show ?thesis
        using OpenManagedExecutableForExec_result(2) [OF assms abs Some] Some
        by (auto simp: plain_executable_def)
    qed
  qed
qed (simp add: OpenManagedExecutableForExec_def)

theorem managed_executable_iff_witness:
  "(\<exists>fd w'. OpenManagedExecutableForExec ''/bin/job'' (sample_binary False 0x1ED) = (Inr (fd, False), w'))
   \<and> \<not> (\<exists>fd w'. OpenManagedExecutableForExec ''/bin/job'' (sample_binary False 0x9ED) = (Inr (fd, False), w'))"
proof -
  have "faultless (sample_binary False m)" for m by (simp add: sample_binary_def sample_world_def faultless_def)
  moreover have "path_key ''/bin/job'' = [''bin'', ''job'']" "IsAbsolutePath ''/bin/job''" by code_simp+
  ultimately show ?thesis
    by (simp add: managed_executable_iff) (simp add: sample_binary_def fs_get_def)
qed

section \<open>Evaluation\<close>

text \<open>Code equations that wait for the state an action runs on, so that an evaluation follows the run.\<close>

lemmas process_code [code] =
  fun_cong [OF ReadProcessStatusFields_def] fun_cong [OF IsProcessAlive_def] fun_cong [OF ReadProcessStartTimeTicks_def]
  fun_cong [OF ReadProcessRealUid_def] fun_cong [OF ReadProcessRealGid_def] fun_cong [OF ReadSymlinkPath_def]
  fun_cong [OF ReadProcessExecutablePath_def] fun_cong [OF ReadProcessWorkingDirectory_def]
  fun_cong [OF ReadProcessCommandLine_def] fun_cong [OF ReadProcessIdentity_def]
  fun_cong [OF ProcessIdentityMatches_def] fun_cong [OF ProcessMatchesPeerSecurity_def]
  fun_cong [OF ValidateManagedExecutableFd_def] fun_cong [OF ExecutableFdLooksLikeScript_def]
  fun_cong [OF OpenManagedExecutableForExec_def] fun_cong [OF ValidateManagedExecutable_def]

end
