(* ===== verification/Launch.thy ===== *)
theory Launch
  imports Process
begin

text \<open>
  Launching managed jobs: \<^verbatim>\<open>LaunchManagedJob\<close> of daemon.cc, parent and child side.

  The child of \<^verbatim>\<open>fork\<close> runs in a copy of the world, with a script of its own for its system calls,
  in which \<^verbatim>\<open>setgid\<close> and \<^verbatim>\<open>setuid\<close> change the credentials and need the privilege they need in the
  kernel; what it hands back is the failure it writes to the error pipe, and a successful
  \<^verbatim>\<open>execveat\<close> is an event with the credentials, directory, arguments and environment in force. The
  supplementary groups that \<^verbatim>\<open>initgroups\<close> sets are not represented. The results: whatever fails, a
  program only ever starts with the credentials of the peer, and a launch that is reported as done
  passed the identity and security checks.
\<close>

section \<open>Calls of the parent and the child\<close>

datatype LaunchStage = kInitGroups | kSetGid | kSetUid | kStdio | kChdir | kOpenExecutable | kExecve

record LaunchFailure =
  failed_stage :: LaunchStage
  failed_error :: int

record LaunchResult =
  launched_pid :: pid_t
  launched_ticks :: string

definition SetCloseOnExec :: "unit io" where
  "SetCloseOnExec = bnd (call_or_throw ''fcntl(F_GETFD)'') (\<lambda>_. call_or_throw ''fcntl(F_SETFD)'')"

definition sys_initgroups :: "int io" where
  "sys_initgroups = or_fault (\<lambda>w. (Inr (if k_euid (w_kernel w) = 0 then 0 else EPERM), w))"

definition sys_setgid :: "gid_t \<Rightarrow> int io" where
  "sys_setgid g = or_fault (\<lambda>w.
     if k_euid (w_kernel w) = 0 \<or> k_egid (w_kernel w) = g
     then (Inr 0, w\<lparr>w_kernel := (w_kernel w)\<lparr>k_egid := g\<rparr>\<rparr>) else (Inr EPERM, w))"

definition sys_setuid :: "uid_t \<Rightarrow> int io" where
  "sys_setuid u = or_fault (\<lambda>w.
     if k_euid (w_kernel w) = 0 \<or> k_euid (w_kernel w) = u
     then (Inr 0, w\<lparr>w_kernel := (w_kernel w)\<lparr>k_euid := u\<rparr>\<rparr>) else (Inr EPERM, w))"

definition sys_chdir :: "path \<Rightarrow> int io" where
  "sys_chdir p = or_fault (\<lambda>w.
     (Inr (if fs_get (w_files w) (path_key p) = None then ENOENT
           else if \<not> is_dir (w_files w) (path_key p) then ENOTDIR else 0), w))"

definition sys_execveat :: "string \<Rightarrow> string list \<Rightarrow> string list \<Rightarrow> int io" where
  "sys_execveat cwd argv env = or_fault (bnd (answer (\<lambda>k _. (k_euid k, k_egid k))) (\<lambda>(u, g).
     bnd (log_event (LaunchEv u g cwd argv env)) (\<lambda>_. ret 0)))"

text \<open>A stage of the child: a failure is reported and ends it.\<close>

definition stage :: "LaunchStage \<Rightarrow> int io \<Rightarrow> LaunchFailure option io \<Rightarrow> LaunchFailure option io" where
  "stage st call next = bnd call (\<lambda>e.
     if e \<noteq> 0 then ret (Some \<lparr>failed_stage = st, failed_error = e\<rparr>) else next)"

text \<open>The descriptor, or the error code reported for the open stage.\<close>

definition open_for_exec :: "path \<Rightarrow> int io" where
  "open_for_exec p = catch_exn (bnd (OpenManagedExecutableForExec p) (\<lambda>_. ret 0))
     (\<lambda>x. ret (case x of ErrnoRuntimeError _ e \<Rightarrow> e | _ \<Rightarrow> EACCES))"

text \<open>The password entry of the peer, if there is one: name, home directory and shell.\<close>

type_synonym passwd = "(string \<times> string \<times> string) option"

definition login_user :: "PeerCred \<Rightarrow> passwd \<Rightarrow> string" where
  "login_user peer pwd = (case pwd of Some (n, _, _) \<Rightarrow> n | None \<Rightarrow> UidToString (peer_uid peer))"

definition login_env :: "PeerCred \<Rightarrow> string \<Rightarrow> passwd \<Rightarrow> string list" where
  "login_env peer cwd pwd =
     [''HOME='' @ (case pwd of Some (_, d, _) \<Rightarrow> d | None \<Rightarrow> cwd),
      ''LOGNAME='' @ login_user peer pwd,
      ''PATH=/usr/local/bin:/usr/bin:/bin'',
      ''SHELL='' @ (case pwd of Some (_, _, s) \<Rightarrow> if s \<noteq> [] then s else ''/bin/sh'' | None \<Rightarrow> ''/bin/sh''),
      ''USER='' @ login_user peer pwd]"

section \<open>The child\<close>

definition drop_privileges :: "PeerCred \<Rightarrow> bool \<Rightarrow> LaunchFailure option io \<Rightarrow> LaunchFailure option io" where
  "drop_privileges peer known next =
     (if known then stage kInitGroups sys_initgroups else id)
       (stage kSetGid (sys_setgid (peer_gid peer)) (stage kSetUid (sys_setuid (peer_uid peer)) next))"

definition redirect_stdio :: "LaunchFailure option io \<Rightarrow> LaunchFailure option io" where
  "redirect_stdio next =
     stage kStdio (or_fault (ret 0)) (bnd (answer k_fd) (\<lambda>devnull.
     stage kStdio (or_fault (ret 0)) (stage kStdio (or_fault (ret 0)) (stage kStdio (or_fault (ret 0))
     (bnd (if devnull > 2 then sys_close else ret 0) (\<lambda>_. next))))))"

definition launch_child ::
  "PeerCred \<Rightarrow> bool \<Rightarrow> string list \<Rightarrow> string \<Rightarrow> string list \<Rightarrow> LaunchFailure option io" where
  "launch_child peer known argv cwd env =
     bnd sys_close (\<lambda>_.
     bnd (gets (\<lambda>w. k_euid (w_kernel w) = 0)) (\<lambda>privileged.
     (if privileged then drop_privileges peer known else id)
       (redirect_stdio
       (stage kChdir (sys_chdir cwd)
       (stage kOpenExecutable (open_for_exec (hd argv))
       (stage kExecve (sys_execveat cwd argv env) (ret None)))))))"

section \<open>The parent\<close>

definition failure_context :: "PeerCred \<Rightarrow> string \<Rightarrow> string list \<Rightarrow> string \<Rightarrow> LaunchStage \<Rightarrow> string" where
  "failure_context peer user argv cwd st = (case st of
     kInitGroups \<Rightarrow> ''initgroups('' @ user @ '')''
   | kSetGid \<Rightarrow> ''setgid('' @ GidToString (peer_gid peer) @ '')''
   | kSetUid \<Rightarrow> ''setuid('' @ UidToString (peer_uid peer) @ '')''
   | kStdio \<Rightarrow> ''redirect stdio to /dev/null''
   | kChdir \<Rightarrow> ''chdir('' @ cwd @ '')''
   | kOpenExecutable \<Rightarrow> ''open managed executable '' @ hd argv
   | kExecve \<Rightarrow> ''execveat('' @ hd argv @ '')'')"

text \<open>What the parent does with the child's report.\<close>

definition await_launch ::
  "PeerCred \<Rightarrow> string \<Rightarrow> string list \<Rightarrow> string \<Rightarrow> pid_t \<Rightarrow> LaunchFailure option \<Rightarrow> LaunchResult io" where
  "await_launch peer user argv cwd child failure =
     bnd sys_close (\<lambda>_.
     bnd (ReadProcessStartTimeTicks child) (\<lambda>ticks.
     bnd fault (\<lambda>f.
     bnd (close_keeping (case f of Some e \<Rightarrow> e | None \<Rightarrow> 0)) (\<lambda>e.
     if f \<noteq> None then ThrowErrno ''read(exec status pipe)'' e
     else (case failure of
       Some fl \<Rightarrow> bnd sys (\<lambda>_.
         ThrowErrno (failure_context peer user argv cwd (failed_stage fl)) (failed_error fl))
     | None \<Rightarrow>
         bnd (ProcessIdentityMatches child (peer_uid peer) (peer_gid peer) ticks) (\<lambda>same.
         if \<not> same then raise (RuntimeError ''managed job identity did not stabilize after exec'')
         else bnd (ProcessMatchesPeerSecurity child (peer_uid peer) (peer_gid peer) ticks) (\<lambda>reason.
           case reason of
             Some r \<Rightarrow> bnd (sys_kill (sint child) 9) (\<lambda>_. bnd sys (\<lambda>_.
               raise (RuntimeError (''managed job failed security validation after exec: '' @ r))))
           | None \<Rightarrow> ret \<lparr>launched_pid = child, launched_ticks = ticks\<rparr>)))))))"

definition LaunchManagedJob :: "PeerCred \<Rightarrow> string list \<Rightarrow> string \<Rightarrow> LaunchResult io" where
  "LaunchManagedJob peer argv cwd =
     (if argv = [] then raise (RuntimeError ''run request requires at least one argv token'')
      else if \<not> IsAbsolutePath (hd argv) then raise (RuntimeError ''run executable must be absolute'')
      else if \<not> IsAbsolutePath cwd then raise (RuntimeError ''run cwd must be absolute'')
      else
        bnd (ValidateManagedExecutable (hd argv)) (\<lambda>_.
        bnd (gets (\<lambda>w. k_passwd (w_kernel w) (peer_uid peer))) (\<lambda>pwd.
        bnd (call_or_throw ''pipe'') (\<lambda>_.
        bnd SetCloseOnExec (\<lambda>_.
        bnd SetCloseOnExec (\<lambda>_.
        bnd fault (\<lambda>f. case f of
          Some e \<Rightarrow> bnd (close_keeping e) (\<lambda>e. bnd (close_keeping e) (\<lambda>e. ThrowErrno ''fork'' e))
        | None \<Rightarrow>
            bnd (answer (\<lambda>k t. k_fork k t)) (\<lambda>child.
            bnd (fork_child (launch_child peer (pwd \<noteq> None) argv cwd (login_env peer cwd pwd))) (\<lambda>failure.
            await_launch peer (login_user peer pwd) argv cwd child failure)))))))))"

section \<open>A sample launch\<close>

text \<open>User 7 asks for \<^verbatim>\<open>/bin/job\<close>; the child gets pid 42.\<close>

definition sample_peer :: PeerCred where
  "sample_peer = \<lparr>peer_pid = 9, peer_uid = 7, peer_gid = 7\<rparr>"

definition sample_launch :: world where
  "sample_launch = sample_proc\<lparr>w_files := w_files (sample_binary False 0x1ED),
     w_kernel := (w_kernel sample_proc)\<lparr>k_fork := (\<lambda>_. 42)\<rparr>\<rparr>"

section \<open>Calls end and touch nothing\<close>

definition calm :: "int io \<Rightarrow> bool" where
  "calm m \<longleftrightarrow> keeps (outside (\<lambda>_. False)) m \<and> (\<forall>w. \<exists>e w'. m w = (Inr e, w'))"

lemma fault_ends: "\<exists>f w'. fault w = (Inr f, w')"
  by (rule fault_cases [of w]) blast+

lemma or_fault_ends: "(\<And>w. \<exists>e w'. m w = (Inr e, w')) \<Longrightarrow> \<exists>e w'. or_fault m w = (Inr e, w')"
  using fault_ends [of w] by (auto simp: or_fault_def bnd_apply split: option.splits)

lemma or_fault_calm: "calm m \<Longrightarrow> calm (or_fault m)"
  unfolding calm_def by (intro conjI allI or_fault_keeps or_fault_ends) auto

lemma ret_calm: "calm (ret e)"
  by (simp add: calm_def out.ret_keeps)

lemma look_calm: "calm (\<lambda>w. (Inr (f w), w))"
  by (simp add: calm_def keeps_def out.frame_refl)

lemma sys_close_calm: "calm sys_close"
  unfolding sys_close_def by (intro or_fault_calm ret_calm)

lemma sys_chdir_calm: "calm (sys_chdir p)"
  unfolding sys_chdir_def by (intro or_fault_calm look_calm)

lemma open_for_exec_calm: "calm (open_for_exec p)"
  unfolding calm_def
proof (intro conjI allI)
  show "keeps (outside (\<lambda>_. False)) (open_for_exec p)"
    unfolding open_for_exec_def by (intro frame_intros)
  fix w
  show "\<exists>e w'. open_for_exec p w = (Inr e, w')"
    by (cases "OpenManagedExecutableForExec p w"; cases "fst (OpenManagedExecutableForExec p w)")
      (auto simp: open_for_exec_def catch_apply bnd_apply)
qed

lemmas calm_calls = or_fault_calm ret_calm sys_close_calm sys_chdir_calm open_for_exec_calm

section \<open>What the child starts\<close>

lemma ValidateManagedExecutableFd_InrD:
  "ValidateManagedExecutableFd n p w = (Inr (), w') \<Longrightarrow> plain_executable n"
  by (auto simp: ValidateManagedExecutableFd_def bnd_Inr_iff plain_executable_def Let_def
      split: option.splits if_splits)

lemma OpenManagedExecutableForExec_InrD:
  assumes "OpenManagedExecutableForExec p w = (Inr r, w')"
  shows "\<exists>n. fs_get (w_files w) (path_key p) = Some n \<and> plain_executable n"
proof -
  have abs: "IsAbsolutePath p" using assms by (auto simp: OpenManagedExecutableForExec_def)
  obtain f w1 where f: "fault w = (Inr f, w1)" and o: "outside (\<lambda>_. False) w w1"
    by (rule fault_cases [of w]) blast+
  have body: "(case (f, fs_get (w_files w1) (path_key p)) of
          (Some e, _) \<Rightarrow> ThrowErrno (''open('' @ p @ '')'') e
        | (None, None) \<Rightarrow> ThrowErrno (''open('' @ p @ '')'') ENOENT
        | (None, Some n) \<Rightarrow> bnd (answer k_fd) (\<lambda>fd.
            catch_exn
              (bnd (ValidateManagedExecutableFd n p) (\<lambda>_.
               bnd (ExecutableFdLooksLikeScript n fd) (\<lambda>script.
               if script then
                 bnd fault (\<lambda>f. case f of Some e \<Rightarrow> ThrowErrno ''fcntl(F_GETFD)'' e | None \<Rightarrow>
                 bnd fault (\<lambda>f. case f of Some e \<Rightarrow> ThrowErrno ''fcntl(F_SETFD)'' e | None \<Rightarrow>
                 ret (fd, False)))
               else ret (fd, True))))
              (\<lambda>x. bnd sys_close (\<lambda>_. raise x)))) w1 = (Inr r, w')"
    using assms abs f by (simp add: OpenManagedExecutableForExec_def bnd_apply)
  obtain n where n: "fs_get (w_files w1) (path_key p) = Some n"
    using body by (cases f; cases "fs_get (w_files w1) (path_key p)") auto
  then have "plain_executable n"
    using body by (cases f) (auto simp: rethrow_Inr_iff bnd_Inr_iff dest: ValidateManagedExecutableFd_InrD)
  then show ?thesis using n outside_none [OF o] by auto
qed

definition startable :: "world \<Rightarrow> string list \<Rightarrow> bool" where
  "startable w argv \<longleftrightarrow> (\<exists>n. fs_get (w_files w) (path_key (hd argv)) = Some n \<and> plain_executable n)"

text \<open>A child that reports failure has started nothing; one that does not has started the program
  with the credentials it was given.\<close>

definition reports :: "event \<Rightarrow> world \<Rightarrow> (exn + LaunchFailure option) \<times> world \<Rightarrow> bool" where
  "reports ev w r \<longleftrightarrow> (\<exists>x. fst r = Inr x \<and> w_trace (snd r) = w_trace w @ (if x = None then [ev] else []))"

lemma reports_same: "outside (\<lambda>_. False) w w1 \<Longrightarrow> reports ev w1 r \<longleftrightarrow> reports ev w r"
  by (simp add: reports_def outside_trace)

lemma reports_failure: "w_trace w1 = w_trace w \<Longrightarrow> reports ev w (Inr (Some fl), w1)"
  by (simp add: reports_def)

definition launches :: "string \<Rightarrow> string list \<Rightarrow> string list \<Rightarrow> LaunchFailure option io \<Rightarrow> bool" where
  "launches cwd argv env m \<longleftrightarrow>
     (\<forall>w. reports (LaunchEv (k_euid (w_kernel w)) (k_egid (w_kernel w)) cwd argv env) w (m w))"

lemma launchesD:
  "launches cwd argv env m \<Longrightarrow> reports (LaunchEv (k_euid (w_kernel w)) (k_egid (w_kernel w)) cwd argv env) w (m w)"
  by (simp add: launches_def)

lemma calm_bnd_launches:
  assumes m: "keeps (outside (\<lambda>_. False)) m" "\<And>w. \<exists>e w'. m w = (Inr e, w')"
    and cont: "\<And>e. launches cwd argv env (next e) \<or> (\<exists>fl. next e = ret (Some fl))"
  shows "launches cwd argv env (bnd m next)"
  unfolding launches_def
proof
  fix w
  obtain e w1 where e: "m w = (Inr e, w1)" using m(2) by blast
  then have o: "outside (\<lambda>_. False) w w1" using m(1) keeps_result by metis
  have "reports (LaunchEv (k_euid (w_kernel w)) (k_egid (w_kernel w)) cwd argv env) w (next e w1)"
    using cont [of e] launchesD [of cwd argv env "next e" w1]
    by (auto simp: reports_same [OF o] outside_kernel [OF o] outside_trace [OF o] reports_failure)
  then show "reports (LaunchEv (k_euid (w_kernel w)) (k_egid (w_kernel w)) cwd argv env) w (bnd m next w)"
    by (simp add: bnd_apply e)
qed

lemma stage_launches: "calm call \<Longrightarrow> launches cwd argv env next \<Longrightarrow> launches cwd argv env (stage st call next)"
  unfolding stage_def calm_def by (rule calm_bnd_launches) auto

lemma exec_launches: "launches cwd argv env (stage kExecve (sys_execveat cwd argv env) (ret None))"
  unfolding launches_def
proof
  fix w
  show "reports (LaunchEv (k_euid (w_kernel w)) (k_egid (w_kernel w)) cwd argv env) w
      (stage kExecve (sys_execveat cwd argv env) (ret None) w)"
    by (rule fault_cases [of w])
      (simp_all add: stage_def sys_execveat_def or_fault_def bnd_apply answer_def log_event_def reports_def
        outside_trace outside_kernel)
qed

lemma redirect_launches: "launches cwd argv env next \<Longrightarrow> launches cwd argv env (redirect_stdio next)"
  unfolding redirect_stdio_def
proof (intro stage_launches calm_calls)
  assume n: "launches cwd argv env next"
  show "launches cwd argv env (bnd (answer k_fd) (\<lambda>devnull.
     stage kStdio (or_fault (ret 0)) (stage kStdio (or_fault (ret 0)) (stage kStdio (or_fault (ret 0))
     (bnd (if devnull > 2 then sys_close else ret 0) (\<lambda>_. next))))))"
    by (intro calm_bnd_launches disjI1 stage_launches calm_calls n)
      (use sys_close_calm in \<open>auto simp: calm_def answer_def out.gets_keeps out.ret_keeps\<close>)
qed

text \<open>Giving up privileges needs them: the group goes first, while the child is still root.\<close>

lemma setuid_launches:
  assumes n: "launches cwd argv env next" and root: "k_euid (w_kernel w) = 0"
  shows "reports (LaunchEv u (k_egid (w_kernel w)) cwd argv env) w (stage kSetUid (sys_setuid u) next w)"
proof (rule fault_cases [of w])
  fix w1 assume f: "fault w = (Inr None, w1)" and o: "outside (\<lambda>_. False) w w1"
  let ?w = "w1\<lparr>w_kernel := (w_kernel w1)\<lparr>k_euid := u\<rparr>\<rparr>"
  have "stage kSetUid (sys_setuid u) next w = next ?w"
    using f root outside_kernel [OF o] by (simp add: stage_def sys_setuid_def or_fault_def bnd_apply)
  moreover have "reports (LaunchEv u (k_egid (w_kernel w)) cwd argv env) ?w (next ?w)"
    using launchesD [OF n, of ?w] outside_kernel [OF o] by simp
  ultimately show ?thesis using outside_trace [OF o] by (simp add: reports_def)
next
  fix e w1 assume "fault w = (Inr (Some e), w1)" and "outside (\<lambda>_. False) w w1" and "e \<noteq> 0"
  then show ?thesis by (simp add: stage_def sys_setuid_def or_fault_def bnd_apply outside_trace reports_failure)
qed

lemma setgid_launches:
  assumes n: "launches cwd argv env next" and root: "k_euid (w_kernel w) = 0"
  shows "reports (LaunchEv u g cwd argv env) w (stage kSetGid (sys_setgid g) (stage kSetUid (sys_setuid u) next) w)"
proof (rule fault_cases [of w])
  fix w1 assume f: "fault w = (Inr None, w1)" and o: "outside (\<lambda>_. False) w w1"
  let ?w = "w1\<lparr>w_kernel := (w_kernel w1)\<lparr>k_egid := g\<rparr>\<rparr>"
  have "stage kSetGid (sys_setgid g) (stage kSetUid (sys_setuid u) next) w = stage kSetUid (sys_setuid u) next ?w"
    using f root outside_kernel [OF o]
    by (simp add: stage_def [of kSetGid] sys_setgid_def or_fault_def bnd_apply [of _ _ w])
  moreover have "reports (LaunchEv u g cwd argv env) ?w (stage kSetUid (sys_setuid u) next ?w)"
    using setuid_launches [OF n, of ?w u] root outside_kernel [OF o] by simp
  ultimately show ?thesis using outside_trace [OF o] by (simp add: reports_def)
next
  fix e w1 assume "fault w = (Inr (Some e), w1)" and "outside (\<lambda>_. False) w w1" and "e \<noteq> 0"
  then show ?thesis by (simp add: stage_def sys_setgid_def or_fault_def bnd_apply outside_trace reports_failure)
qed

lemma drop_privileges_launches:
  assumes n: "launches cwd argv env next" and root: "k_euid (w_kernel w) = 0"
  shows "reports (LaunchEv (peer_uid peer) (peer_gid peer) cwd argv env) w (drop_privileges peer known next w)"
proof (cases known)
  case True
  have "calm sys_initgroups" unfolding sys_initgroups_def by (intro or_fault_calm look_calm)
  then obtain e w1 where e: "sys_initgroups w = (Inr e, w1)" and o: "outside (\<lambda>_. False) w w1"
    unfolding calm_def by (metis keeps_result)
  have "drop_privileges peer known next w = (if e \<noteq> 0
      then (Inr (Some \<lparr>failed_stage = kInitGroups, failed_error = e\<rparr>), w1)
      else stage kSetGid (sys_setgid (peer_gid peer)) (stage kSetUid (sys_setuid (peer_uid peer)) next) w1)"
    using True e by (simp add: drop_privileges_def stage_def [of kInitGroups] bnd_apply)
  then show ?thesis
    using setgid_launches [OF n, of w1 "peer_uid peer" "peer_gid peer"] root outside_kernel [OF o]
    by (simp add: reports_same [OF o] reports_failure outside_trace [OF o])
qed (use setgid_launches [OF n root] in \<open>simp add: drop_privileges_def\<close>)

lemma launch_child_launches:
  assumes root: "k_euid (w_kernel w) = 0"
  shows "reports (LaunchEv (peer_uid peer) (peer_gid peer) cwd argv env) w (launch_child peer known argv cwd env w)"
proof -
  obtain e w1 where e: "sys_close w = (Inr e, w1)" using sys_close_total by blast
  then have o: "outside (\<lambda>_. False) w w1" using sys_close_keeps keeps_result by metis
  let ?next = "redirect_stdio (stage kChdir (sys_chdir cwd) (stage kOpenExecutable (open_for_exec (hd argv))
       (stage kExecve (sys_execveat cwd argv env) (ret None))))"
  have "launches cwd argv env ?next"
    by (intro redirect_launches stage_launches calm_calls exec_launches)
  moreover have "k_euid (w_kernel w1) = 0" using root outside_kernel [OF o] by simp
  ultimately have "reports (LaunchEv (peer_uid peer) (peer_gid peer) cwd argv env) w1 (drop_privileges peer known ?next w1)"
    by (rule drop_privileges_launches)
  then show ?thesis using \<open>k_euid (w_kernel w1) = 0\<close>
    by (simp add: launch_child_def bnd_apply e reports_same [OF o])
qed

section \<open>The checks before and after\<close>

lemma stage_None:
  "stage st call next w = (Inr None, w') \<longleftrightarrow> (\<exists>w1. call w = (Inr 0, w1) \<and> next w1 = (Inr None, w'))"
  by (auto simp: stage_def bnd_Inr_iff split: if_splits)

lemma ValidateManagedExecutable_startable:
  "ValidateManagedExecutable (hd argv) w = (Inr (), w') \<Longrightarrow> startable w argv"
  unfolding startable_def ValidateManagedExecutable_def
  by (elim bnd_InrE) (rule OpenManagedExecutableForExec_InrD)

lemma fork_child_affects:
  assumes "\<And>env. E (LaunchEv (peer_uid peer) (peer_gid peer) cwd argv env)"
  shows "keeps (affects (\<lambda>k. k_euid k = 0) K E) (fork_child (launch_child peer known argv cwd env))"
proof (rule keepsI)
  fix w :: world
  let ?w = "w\<lparr>w_script := k_child (w_kernel w) (w_tick w)\<rparr>"
  have "reports (LaunchEv (peer_uid peer) (peer_gid peer) cwd argv env) ?w (launch_child peer known argv cwd env ?w)"
    if "k_euid (w_kernel w) = 0"
    by (rule launch_child_launches) (use that in simp)
  then show "affects (\<lambda>k. k_euid k = 0) K E w (snd (fork_child (launch_child peer known argv cwd env) w))"
    using assms by (auto simp: affects_def fork_child_def reports_def split: prod.split)
qed

lemma SetCloseOnExec_keeps [frame_intros]: "keeps (outside K) SetCloseOnExec"
  unfolding SetCloseOnExec_def by (intro frame_intros)

lemma await_launch_affects:
  assumes "\<And>t. E (SignalEv t 9)"
  shows "keeps (affects P K E) (await_launch peer user argv cwd child failure)"
  unfolding await_launch_def
  by (intro aff_keeps option_keeps sys_kill_affects assms
      keeps_affects [OF sys_close_keeps] keeps_affects [OF ReadProcessStartTimeTicks_keeps]
      keeps_affects [OF fault_keeps] keeps_affects [OF close_keeping_keeps] keeps_affects [OF ThrowErrno_keeps]
      keeps_affects [OF sys_keeps] keeps_affects [OF ProcessIdentityMatches_keeps]
      keeps_affects [OF ProcessMatchesPeerSecurity_keeps])

lemma LaunchManagedJob_affects:
  assumes "\<And>env. E (LaunchEv (peer_uid peer) (peer_gid peer) cwd argv env)" and "\<And>t. E (SignalEv t 9)"
  shows "keeps (affects (\<lambda>k. k_euid k = 0) K E) (LaunchManagedJob peer argv cwd)"
  unfolding LaunchManagedJob_def
  by (intro aff_keeps option_keeps fork_child_affects await_launch_affects assms
      keeps_affects [OF ValidateManagedExecutable_keeps] keeps_affects [OF call_or_throw_keeps]
      keeps_affects [OF SetCloseOnExec_keeps] keeps_affects [OF fault_keeps]
      keeps_affects [OF close_keeping_keeps] keeps_affects [OF ThrowErrno_keeps] keeps_affects [OF answer_keeps])



lemma LaunchManagedJob_InrE:
  assumes "LaunchManagedJob peer argv cwd w = (Inr l, w')"
  obtains known env user child failure w1 w2 where "outside (\<lambda>_. False) w w1"
    and "fork_child (launch_child peer known argv cwd env) w1 = (Inr failure, w2)"
    and "await_launch peer user argv cwd child failure w2 = (Inr l, w')"
proof -
  obtain a b c d w1 child user known env failure w2 where
    a: "ValidateManagedExecutable (hd argv) w = (Inr (), a)" and b: "call_or_throw ''pipe'' a = (Inr (), b)"
    and c: "SetCloseOnExec b = (Inr (), c)" and d: "SetCloseOnExec c = (Inr (), d)"
    and f: "fault d = (Inr None, w1)"
    and "fork_child (launch_child peer known argv cwd env) w1 = (Inr failure, w2)"
    and "await_launch peer user argv cwd child failure w2 = (Inr l, w')"
    using assms unfolding LaunchManagedJob_def
    by (auto simp: bnd_Inr_iff answer_def split: if_splits option.splits)
  moreover have "outside (\<lambda>_. False) w w1"
    using keeps_result [OF ValidateManagedExecutable_keeps a] keeps_result [OF call_or_throw_keeps b]
      keeps_result [OF SetCloseOnExec_keeps c] keeps_result [OF SetCloseOnExec_keeps d]
      keeps_result [OF fault_keeps f] by (metis out.frame_trans)
  ultimately show ?thesis using that by blast
qed

lemma await_launch_InrE:
  assumes "await_launch peer user argv cwd child failure w = (Inr l, w')"
  obtains ticks w1 w2 where "failure = None" and "outside (\<lambda>_. False) w w1"
    and "ProcessIdentityMatches child (peer_uid peer) (peer_gid peer) ticks w1 = (Inr True, w2)"
    and "ProcessMatchesPeerSecurity child (peer_uid peer) (peer_gid peer) ticks w2 = (Inr None, w')"
    and "l = \<lparr>launched_pid = child, launched_ticks = ticks\<rparr>"
proof -
  obtain x y e ticks a b c w1 w2 where
    a: "sys_close w = (Inr x, a)" and b: "ReadProcessStartTimeTicks child a = (Inr ticks, b)"
    and c: "fault b = (Inr y, c)" and d: "close_keeping 0 c = (Inr e, w1)" and "failure = None"
    and "ProcessIdentityMatches child (peer_uid peer) (peer_gid peer) ticks w1 = (Inr True, w2)"
    and "ProcessMatchesPeerSecurity child (peer_uid peer) (peer_gid peer) ticks w2 = (Inr None, w')"
    and "l = \<lparr>launched_pid = child, launched_ticks = ticks\<rparr>"
    using assms unfolding await_launch_def
    by (auto simp: bnd_Inr_iff split: if_splits option.splits)
  moreover have "outside (\<lambda>_. False) w w1"
    using keeps_result [OF sys_close_keeps a] keeps_result [OF ReadProcessStartTimeTicks_keeps b]
      keeps_result [OF fault_keeps c] keeps_result [OF close_keeping_keeps d] by (metis out.frame_trans)
  ultimately show ?thesis using that by blast
qed



section \<open>Evaluation\<close>

text \<open>Code equations that wait for the state an action runs on, so that an evaluation follows the run.\<close>

lemmas launch_code [code] =
  fun_cong [OF SetCloseOnExec_def] fun_cong [OF sys_initgroups_def] fun_cong [OF sys_setgid_def]
  fun_cong [OF sys_setuid_def] fun_cong [OF sys_chdir_def] fun_cong [OF sys_execveat_def] fun_cong [OF stage_def]
  fun_cong [OF open_for_exec_def] fun_cong [OF drop_privileges_def] fun_cong [OF redirect_stdio_def]
  fun_cong [OF launch_child_def] fun_cong [OF await_launch_def] fun_cong [OF LaunchManagedJob_def]

end
