(* ===== verification/Broker.thy ===== *)
theory Broker
  imports Launch Retention Worker
begin

text \<open>
  The building blocks of the broker's requests in \<^verbatim>\<open>daemon.cc\<close>: the allowlist for CRIU arguments,
  registering a process by pid, exporting a checkpoint, the command line of the worker and waiting
  for it, the liveness of a job, and the messages of a response.

  The results: \<^verbatim>\<open>ValidateExtraArgs\<close> accepts exactly the sequences of allowed options and passes them
  on unchanged; the worker reads the command line it is given as the configuration that was meant;
  waiting for a worker is bounded in time and succeeds only if the worker exited with 0; the state
  of a job is what the process table says.
\<close>

section \<open>Requests\<close>

definition MessageFlagEnabled :: "Message \<Rightarrow> string \<Rightarrow> bool" where
  "MessageFlagEnabled request key =
     (let v = Get request key in v = ''1'' \<or> v = ''true'' \<or> v = ''yes'')"

definition plain_options :: "string list" where
  "plain_options = [''--link-remap'', ''--tcp-established'', ''--tcp-close'', ''--file-locks'']"

fun ValidateExtraArgs :: "string list \<Rightarrow> exn + string list" where
  "ValidateExtraArgs [] = Inr []"
| "ValidateExtraArgs (token # rest) =
     (if token \<in> set plain_options \<or> prefix ''--ghost-limit='' token then
        try_bind (ValidateExtraArgs rest) (\<lambda>r. Inr (token # r))
      else if token = ''--ghost-limit'' then
        (case rest of
           [] \<Rightarrow> Inl (RuntimeError ''snapshotd ghost-limit flag requires a value'')
         | v # rest' \<Rightarrow> try_bind (ValidateExtraArgs rest') (\<lambda>r. Inr (token # v # r)))
      else if token = ''--external'' then
        (case rest of
           [] \<Rightarrow> Inl (RuntimeError ''invalid snapshotd external tty argument'')
         | v # rest' \<Rightarrow>
             if \<not> prefix ''tty['' v then Inl (RuntimeError ''invalid snapshotd external tty argument'')
             else try_bind (ValidateExtraArgs rest') (\<lambda>r. Inr (token # v # r)))
      else if token = ''--inherit-fd'' then
        (case rest of
           [] \<Rightarrow> Inl (RuntimeError ''invalid snapshotd inherit-fd argument'')
         | v # rest' \<Rightarrow>
             if \<not> prefix ''fd['' v then Inl (RuntimeError ''invalid snapshotd inherit-fd argument'')
             else try_bind (ValidateExtraArgs rest') (\<lambda>r. Inr (token # v # r)))
      else Inl (RuntimeError (''unsafe CRIU argument for snapshotd request: '' @ token)))"

definition CreatePidOwnedJob :: "path \<Rightarrow> PeerCred \<Rightarrow> pid_t \<Rightarrow> JobRecord io" where
  "CreatePidOwnedJob root peer pid =
     (if sint pid \<le> 1 then raise (RuntimeError ''checkpoint pid must be > 1'')
      else bnd (ReadProcessIdentity pid) (\<lambda>i.
        bnd (ProcessMatchesPeerSecurity pid (peer_uid peer) (peer_gid peer) (id_ticks i)) (\<lambda>r. case r of
          Some reason \<Rightarrow> raise (RuntimeError (''checkpoint target is not a safe peer-owned process: '' @ reason))
        | None \<Rightarrow>
            bnd (ReadProcessExecutablePath pid) (\<lambda>exe.
            bnd (ReadProcessWorkingDirectory pid) (\<lambda>cwd.
            bnd (ReadProcessCommandLine pid) (\<lambda>argv.
            bnd (CreateJob (peer_uid peer) (peer_gid peer) pid (id_ticks i) exe cwd
                   (JoinCommandLine (if argv = [] then [exe] else argv))) (\<lambda>job.
            bnd (SaveJob root job) (\<lambda>_. ret job))))))))"

definition ExportCheckpointArtifacts :: "path \<Rightarrow> JobRecord \<Rightarrow> CheckpointRecord \<Rightarrow> path io" where
  "ExportCheckpointArtifacts root job c =
     bnd (lift_sum (CheckpointDir root (owner_uid job) (job_id job) (checkpoint_id c))) (\<lambda>cd.
     bnd (lift_sum (ExportCheckpointDir root (owner_uid job) (job_id job) (checkpoint_id c))) (\<lambda>ed.
     bnd (EnsureDir (UserDir root (owner_uid job)) 0x1ED) (\<lambda>_.
     bnd (EnsureDir (ExportsDir root (owner_uid job)) 0x1ED) (\<lambda>_.
     bnd (EnsureDir (path_append (ExportsDir root (owner_uid job)) (job_id job)) 0x1ED) (\<lambda>_.
     bnd (RemoveTree ed) (\<lambda>_.
     bnd (EnsureDir ed 0x1C0) (\<lambda>_.
     bnd (CopyTree (path_append cd ''images'') (path_append ed ''images'')) (\<lambda>_.
     bnd (CopyTree (path_append cd ''logs'') (path_append ed ''logs'')) (\<lambda>_.
     bnd (SetTreePermissions ed 0x1ED 0x1A4) (\<lambda>_.
     ret ed))))))))))"

definition exported_log :: "path \<Rightarrow> string \<Rightarrow> string" where
  "exported_log ed name = path_append (path_append ed ''logs'') name"

definition ok_response :: "(string \<times> string) list \<Rightarrow> Message" where
  "ok_response fs = \<lparr>command = ''ok'', msg_fields = fs\<rparr>"

definition CheckpointSuccessResponse :: "JobRecord \<Rightarrow> CheckpointRecord \<Rightarrow> path \<Rightarrow> Message" where
  "CheckpointSuccessResponse job c ed = ok_response
     [(''job_id'', job_id job), (''checkpoint_id'', checkpoint_id c),
      (''dump_log'', exported_log ed ''dump.log''), (''export_images'', path_append ed ''images'')]"

definition StatusResponse :: "JobRecord \<Rightarrow> Message" where
  "StatusResponse job = ok_response
     [(''job_id'', job_id job), (''owner_uid'', UidToString (owner_uid job)),
      (''owner_gid'', GidToString (owner_gid job)), (''pid'', PidToString (job_pid job)),
      (''state'', job_state job), (''latest_checkpoint'', latest_checkpoint job),
      (''command_line'', command_line job)]"

definition error_response :: "string \<Rightarrow> string \<Rightarrow> Message" where
  "error_response code m = \<lparr>command = ''error'', msg_fields = [(''code'', code), (''message'', m)]\<rparr>"

text \<open>The two \<^verbatim>\<open>catch\<close> clauses around a request: a \<^verbatim>\<open>RequestError\<close> has its own code and fields, any
  other exception becomes \<^verbatim>\<open>request_failed\<close>.\<close>

definition ErrorResponse :: "exn \<Rightarrow> Message" where
  "ErrorResponse x = (case x of
     RequestError code m fs \<Rightarrow> foldl (\<lambda>r (k, v). AddField k v r) (error_response code m) fs
   | _ \<Rightarrow> error_response ''request_failed'' (what x))"

section \<open>The worker's command line\<close>

definition BuildWorkerCommand ::
  "DaemonConfig \<Rightarrow> path \<Rightarrow> JobRecord \<Rightarrow> CheckpointRecord \<Rightarrow> string \<Rightarrow> string list \<Rightarrow> bool \<Rightarrow> int \<Rightarrow> exn + string list" where
  "BuildWorkerCommand cfg root job c operation extra_args namespace_mode tty_fd =
     try_bind (JobDir root (owner_uid job) (job_id job)) (\<lambda>job_dir.
     try_bind (CheckpointDir root (owner_uid job) (job_id job) (checkpoint_id c)) (\<lambda>checkpoint_dir.
     Inr ([worker_path cfg, ''--operation'', operation, ''--state-dir'', root, ''--job-dir'', job_dir,
           ''--checkpoint-dir'', checkpoint_dir, ''--criu-bin'', criu_bin cfg, ''--criu-ns-bin'', criu_ns_bin cfg]
       @ (if operation = ''dump'' then
            [''--pid'', PidToString (job_pid job)] @ (if namespace_mode then [''--namespace-dump''] else [])
          else if namespace_mode then [''--namespace-restore''] else [])
       @ (if tty_fd \<ge> 0 then [''--tty-fd'', show_int tty_fd] else [])
       @ concat (map (\<lambda>a. [''--extra-arg'', a]) extra_args))))"

section \<open>Waiting for the worker\<close>

text \<open>The child: whether the worker was started. Where it was not, the child exits with 127.\<close>

definition worker_child :: "string list \<Rightarrow> bool io" where
  "worker_child argv =
     bnd fault (\<lambda>f. if f \<noteq> None then ret False
     else bnd fault (\<lambda>f. if f \<noteq> None then ret False
       else bnd (log_event (SpawnEv argv)) (\<lambda>_. ret True)))"

text \<open>A \<^verbatim>\<open>waitpid\<close> with \<^verbatim>\<open>WNOHANG\<close>: its errno, or the status of the child if it has ended.\<close>

definition poll_child :: "bool \<Rightarrow> string list \<Rightarrow> pid_t \<Rightarrow> (int + wait_status option) io" where
  "poll_child started argv child =
     bnd fault (\<lambda>f.
     bnd (after_exec started argv) (\<lambda>_.
     bnd (child_status started child True) (\<lambda>st.
     ret (case f of Some e \<Rightarrow> Inl e | None \<Rightarrow> Inr st))))"

text \<open>The end of the loop that follows a timeout: the whole process group is killed.\<close>

definition kill_worker :: "bool \<Rightarrow> string list \<Rightarrow> pid_t \<Rightarrow> bool io" where
  "kill_worker started argv child =
     bnd (sys_kill (- sint child) 9) (\<lambda>_.
     bnd fault (\<lambda>f.
     bnd (after_exec started argv) (\<lambda>_.
     case f of Some e \<Rightarrow> if e \<noteq> ECHILD then ThrowErrno ''waitpid'' e else ret True | None \<Rightarrow> ret True)))"

text \<open>One pass of that loop, and whether the loop is left.\<close>

definition kill_pass :: "bool \<Rightarrow> string list \<Rightarrow> pid_t \<Rightarrow> nat \<Rightarrow> bool io" where
  "kill_pass started argv child kill_deadline =
     bnd (poll_child started argv child) (\<lambda>r. case r of
       Inl e \<Rightarrow> if e = EINTR then ret False else if e = ECHILD then ret True else ThrowErrno ''waitpid'' e
     | Inr (Some _) \<Rightarrow> ret True
     | Inr None \<Rightarrow> bnd steady_now (\<lambda>now.
         if now \<ge> kill_deadline then kill_worker started argv child
         else bnd (sys_sleep 50) (\<lambda>_. ret False)))"

section \<open>Loops that repeat a pass\<close>

text \<open>Before the deadline a pass that does not end the loop lets time pass, or it used up an
  interruption.\<close>

definition progress :: "nat \<Rightarrow> world \<Rightarrow> world \<Rightarrow> bool" where
  "progress d w w1 \<longleftrightarrow> later w w1 \<and>
     (length (w_script w1) < length (w_script w) \<or> w_mono w < d \<and> w_mono w < w_mono w1)"

definition remaining :: "nat \<Rightarrow> world \<Rightarrow> nat" where
  "remaining d w = d - w_mono w + length (w_script w)"

lemma progress_remaining: "progress d w w1 \<Longrightarrow> remaining d w1 < remaining d w"
  by (auto simp: progress_def later_def remaining_def)

locale pass_loop =
  fixes pass :: "bool io" and loop :: "unit io" and d :: nat
  assumes unfold: "loop w = bnd pass (\<lambda>stop w1. if stop then (Inr (), w1) else loop w1) w"
    and step: "pass w = (Inr False, w1) \<Longrightarrow> progress d w w1"
begin

lemma loop_cases:
  assumes "loop w = (r, w')"
  obtains (error) e where "pass w = (Inl e, w')" "r = Inl e"
  | (stop) "pass w = (Inr True, w')" "r = Inr ()"
  | (again) w1 where "pass w = (Inr False, w1)" "loop w1 = (r, w')"
proof -
  obtain a w1 where a: "pass w = (a, w1)" by (cases "pass w")
  have "(case a of Inl e \<Rightarrow> (Inl e, w1) | Inr b \<Rightarrow> if b then (Inr (), w1) else loop w1) = (r, w')"
    using assms unfolding unfold [of w] by (simp add: bnd_apply a)
  then show ?thesis using a error stop again by (auto split: sum.splits if_splits)
qed

lemma loop_rule:
  assumes run: "loop w = (r, w')" and inv: "I w"
    and again: "\<And>w w1. I w \<Longrightarrow> pass w = (Inr False, w1) \<Longrightarrow> I w1"
    and error: "\<And>w e w1. I w \<Longrightarrow> pass w = (Inl e, w1) \<Longrightarrow> Q (Inl e) w1"
    and stop: "\<And>w w1. I w \<Longrightarrow> pass w = (Inr True, w1) \<Longrightarrow> Q (Inr ()) w1"
  shows "Q r w'"
  using run inv
proof (induction "remaining d w" arbitrary: w rule: less_induct)
  case less
  from less.prems(1) show ?case
  proof (cases rule: loop_cases)
    case (again w1)
    show ?thesis
      by (rule less.hyps [OF _ again(2) assms(3) [OF less.prems(2) again(1)]])
        (rule progress_remaining [OF step [OF again(1)]])
  qed (use error stop less.prems(2) in auto)
qed

lemma loop_keeps:
  assumes "effect_frame R" and "keeps R pass"
  shows "keeps R loop"
proof (rule keepsI)
  fix w :: world
  have trans: "R w v \<Longrightarrow> pass v = (x, v') \<Longrightarrow> R w v'" for v x v'
    using effect_frame.frame_trans [OF assms(1)] keeps_result [OF assms(2)] by blast
  have "R w w" by (rule effect_frame.frame_refl [OF assms(1)])
  then show "R w (snd (loop w))"
    by (intro loop_rule [of w "fst (loop w)" "snd (loop w)" "R w" "\<lambda>_. R w"]) (auto intro: trans)
qed

end

lemma poll_child_instant [instant_intros]: "keeps instant (poll_child b argv p)"
  unfolding poll_child_def after_exec_def child_status_def by (intro instant_intros)

lemma poll_child_later: "keeps later (poll_child b argv p)"
  unfolding poll_child_def child_status_def by (intro later_calls after_exec_later)

lemma poll_child_total: "\<exists>r w1. poll_child b argv p w = (Inr r, w1)"
  by (auto simp: poll_child_def child_status_def after_exec_def run_program_def fault_def answer_def bnd_apply sys_def
      split: list.split)

lemma poll_child_error:
  assumes "poll_child b argv p w = (Inr (Inl e), w1)"
  shows "length (w_script w1) < length (w_script w)"
proof -
  obtain f u u2 st where f: "fault w = (Inr f, u)" "after_exec b argv u = (Inr (), u2)"
      "child_status b p True u2 = (Inr st, w1)" "(case f of Some e \<Rightarrow> Inl e | None \<Rightarrow> Inr st) = Inl e"
    using assms by (auto simp: poll_child_def bnd_Inr_iff)
  have "later u u2" "later u2 w1" using keeps_result [OF after_exec_later f(2)]
      keeps_result [OF keeps_later [OF child_status_keeps] f(3)] .
  then show ?thesis using fault_tick [OF f(1)] f(4) by (auto simp: later_def split: option.splits)
qed

lemma poll_child_status:
  assumes "poll_child b argv p w = (Inr (Inr (Some st)), w1)"
  shows "if b then k_wait (w_kernel w) (w_tick w1) p = Some st else st = Exited 127"
proof -
  obtain f u u2 st' where f: "fault w = (Inr f, u)" "after_exec b argv u = (Inr (), u2)"
      "child_status b p True u2 = (Inr st', w1)" "(case f of Some e \<Rightarrow> Inl e | None \<Rightarrow> Inr st') = Inr (Some st)"
    using assms by (auto simp: poll_child_def bnd_Inr_iff)
  have "w_kernel u2 = w_kernel w" "w1 = u2"
    using keeps_result [OF after_exec_later f(2)] keeps_result [OF keeps_later [OF fault_keeps] f(1)] f(3)
    by (auto simp: later_def child_status_def answer_def)
  then show ?thesis using f(3, 4) by (auto simp: child_status_def answer_def split: option.splits if_splits)
qed

text \<open>The common shape of the two passes: a poll, and a pause where the child goes on and the deadline
  has not come.\<close>

lemma pause_progress:
  assumes "bnd (sys_sleep 50) (\<lambda>_. ret False) w1 = (r, w')" and "poll_child b argv p w = (Inr x, w1)" and "w_mono w1 < d"
  shows "r = Inr False \<and> progress d w w'
    \<and> ((\<forall>t. k_lag (w_kernel w) t \<le> L) \<longrightarrow> w_mono w' \<le> d + 49 + L)"
proof -
  obtain u where u: "sys_sleep 50 w1 = (Inr (), u)" "later w1 u" using sleep_ends by blast
  have i: "w_mono w1 = w_mono w" "w_kernel w1 = w_kernel w"
    using keeps_result [OF poll_child_instant assms(2)] by (simp_all add: instant_def)
  have "later w w1" by (rule keeps_result [OF poll_child_later assms(2)])
  then have "later w u" using u(2) by (rule lat.frame_trans)
  then show ?thesis
    using assms(1, 3) u sys_sleep_time [OF u(1), of L] i by (auto simp: bnd_apply progress_def)
qed

lemma interrupted_progress:
  assumes "poll_child b argv p w = (Inr (Inl e), w1)"
  shows "progress d w w1"
  using poll_child_error [OF assms] keeps_result [OF poll_child_later assms] by (simp add: progress_def)

lemma kill_worker_instant: "keeps instant (kill_worker b argv p)"
  unfolding kill_worker_def after_exec_def by (intro instant_intros option_keeps)

lemma kill_worker_ends: "kill_worker b argv p w \<noteq> (Inr False, w')"
  by (auto simp: kill_worker_def bnd_Inr_iff split: option.splits if_splits)

lemma kill_pass_cases:
  assumes "kill_pass b argv p kd w = (r, w')"
  obtains (interrupted) "poll_child b argv p w = (Inr (Inl EINTR), w')" "r = Inr False"
  | (pause) w1 x where "poll_child b argv p w = (Inr x, w1)" "w_mono w1 < kd" "bnd (sys_sleep 50) (\<lambda>_. ret False) w1 = (r, w')"
  | (ends) "r \<noteq> Inr False" "instant w w'"
proof -
  obtain x w1 where x: "poll_child b argv p w = (Inr x, w1)" using poll_child_total by blast
  have i: "instant w w1" by (rule keeps_result [OF poll_child_instant x])
  have k: "instant w w'" if "kill_worker b argv p w1 = (r, w')"
    using keeps_result [OF kill_worker_instant that] i by (rule ins.frame_trans [rotated])
  show ?thesis
    using assms x i interrupted pause [OF x] ends k kill_worker_ends [of b argv p w1 w']
    by (auto simp: kill_pass_def bnd_apply [of "poll_child b argv p"] bnd_apply [of "gets w_mono"] steady_now_def ThrowErrno_def
        split: sum.splits option.splits if_splits)
qed

lemma kill_pass_progress: "kill_pass b argv p kd w = (Inr False, w') \<Longrightarrow> progress kd w w'"
  by (erule kill_pass_cases) (auto dest: interrupted_progress pause_progress)

function kill_loop :: "bool \<Rightarrow> string list \<Rightarrow> pid_t \<Rightarrow> nat \<Rightarrow> unit io" where
  "kill_loop started argv child kill_deadline w =
     bnd (kill_pass started argv child kill_deadline) (\<lambda>stop w1.
       if stop then (Inr (), w1) else kill_loop started argv child kill_deadline w1) w"
  by pat_completeness auto
termination
  by (relation "measure (\<lambda>(b, argv, p, kd, w). remaining kd w)") (auto dest!: kill_pass_progress progress_remaining)

declare kill_loop.simps [simp del]

interpretation kill: pass_loop "kill_pass b argv p kd" "kill_loop b argv p kd" kd for b argv p kd
  by unfold_locales (rule kill_loop.simps, rule kill_pass_progress)


lemma kill_loop_time:
  assumes "kill_loop b argv p kd w = (r, w')" and "\<forall>t. k_lag (w_kernel w) t \<le> L"
  shows "w_mono w' \<le> max (w_mono w) (kd + 49 + L)"
proof -
  let ?I = "\<lambda>v. w_kernel v = w_kernel w \<and> w_mono v \<le> max (w_mono w) (kd + 49 + L)"
  have pass: "?I v'" if "?I v" "kill_pass b argv p kd v = (x, v')" for v x v'
    using that(2)
  proof (cases rule: kill_pass_cases)
    case interrupted
    then show ?thesis using keeps_result [OF poll_child_instant interrupted(1)] that(1) by (simp add: instant_def)
  next
    case (pause v1 y)
    then show ?thesis
      using pause_progress [OF pause(3, 1, 2), of L] that(1) assms(2) by (auto simp: progress_def later_def)
  qed (use that(1) in \<open>simp add: instant_def\<close>)
  have "?I w'"
  proof (rule kill.loop_rule [OF assms(1), of ?I "\<lambda>_. ?I"])
    show "?I w" by simp
  qed (rule pass, assumption+)+
  then show ?thesis by simp
qed

text \<open>What follows a timeout.\<close>

definition worker_timed_out :: "bool \<Rightarrow> string list \<Rightarrow> pid_t \<Rightarrow> int \<Rightarrow> bool io" where
  "worker_timed_out started argv child timeout =
     bnd (sys_kill (- sint child) 15) (\<lambda>_.
     bnd steady_now (\<lambda>now.
     bnd (kill_loop started argv child (now + 2000)) (\<lambda>_.
     raise (RuntimeError (''worker invocation timed out after '' @ show_int timeout @ ''s: '' @ JoinCommandLine argv)))))"

definition wait_pass :: "bool \<Rightarrow> string list \<Rightarrow> pid_t \<Rightarrow> int \<Rightarrow> nat \<Rightarrow> bool io" where
  "wait_pass started argv child timeout deadline =
     bnd (poll_child started argv child) (\<lambda>r. case r of
       Inl e \<Rightarrow> if e = EINTR then ret False else ThrowErrno ''waitpid'' e
     | Inr (Some status) \<Rightarrow>
         if status \<noteq> Exited 0 then raise (RuntimeError (''worker invocation failed: '' @ JoinCommandLine argv))
         else ret True
     | Inr None \<Rightarrow> bnd steady_now (\<lambda>now.
         if now \<ge> deadline then worker_timed_out started argv child timeout
         else bnd (sys_sleep 50) (\<lambda>_. ret False)))"

lemma worker_timed_out_Inl: "\<exists>e w'. worker_timed_out b argv p T w = (Inl e, w')"
proof -
  obtain u where u: "sys_kill (- sint p) 15 w = (Inr (), u)" using kill_ends by blast
  obtain x v where x: "kill_loop b argv p (w_mono u + 2000) u = (x, v)" by (cases "kill_loop b argv p (w_mono u + 2000) u")
  show ?thesis by (cases x) (simp_all add: worker_timed_out_def steady_now_def bnd_apply u x)
qed

lemma worker_timed_out_time:
  assumes "worker_timed_out b argv p T w = (r, w')" and "\<forall>t. k_lag (w_kernel w) t \<le> L"
  shows "w_mono w' \<le> w_mono w + 2049 + L"
proof -
  obtain u where u: "sys_kill (- sint p) 15 w = (Inr (), u)" using kill_ends by blast
  have i: "w_mono u = w_mono w" "w_kernel u = w_kernel w"
    using keeps_result [OF sys_kill_instant u] by (simp_all add: instant_def)
  obtain x v where x: "kill_loop b argv p (w_mono w + 2000) u = (x, v)" by (cases "kill_loop b argv p (w_mono w + 2000) u")
  then have "w' = v" using assms(1) u i by (auto simp: worker_timed_out_def steady_now_def bnd_apply split: sum.splits)
  then show ?thesis using kill_loop_time [OF x, of L] i assms(2) by simp
qed

lemma wait_pass_cases:
  assumes "wait_pass b argv p T d w = (r, w')"
  obtains (interrupted) "poll_child b argv p w = (Inr (Inl EINTR), w')" "r = Inr False"
  | (pause) w1 x where "poll_child b argv p w = (Inr x, w1)" "w_mono w1 < d" "bnd (sys_sleep 50) (\<lambda>_. ret False) w1 = (r, w')"
  | (error) e where "r = Inl e" "instant w w'"
  | (expired) e w1 where "r = Inl e" "instant w w1" "worker_timed_out b argv p T w1 = (r, w')"
  | (ended) "r = Inr True" "poll_child b argv p w = (Inr (Inr (Some (Exited 0))), w')"
proof -
  obtain x w1 where x: "poll_child b argv p w = (Inr x, w1)" using poll_child_total by blast
  have i: "instant w w1" by (rule keeps_result [OF poll_child_instant x])
  obtain te tw where t: "worker_timed_out b argv p T w1 = (Inl te, tw)" using worker_timed_out_Inl by blast
  show ?thesis
    using assms x i interrupted pause [OF x] error expired [of _ w1] ended t
    by (auto simp: wait_pass_def bnd_apply [of "poll_child b argv p"] bnd_apply [of "gets w_mono"] steady_now_def ThrowErrno_def
        split: sum.splits option.splits if_splits)
qed

lemma wait_pass_progress: "wait_pass b argv p T d w = (Inr False, w') \<Longrightarrow> progress d w w'"
  by (erule wait_pass_cases) (auto dest: interrupted_progress pause_progress)

function wait_loop :: "bool \<Rightarrow> string list \<Rightarrow> pid_t \<Rightarrow> int \<Rightarrow> nat \<Rightarrow> unit io" where
  "wait_loop started argv child timeout deadline w =
     bnd (wait_pass started argv child timeout deadline) (\<lambda>stop w1.
       if stop then (Inr (), w1) else wait_loop started argv child timeout deadline w1) w"
  by pat_completeness auto
termination
  by (relation "measure (\<lambda>(b, argv, p, T, d, w). remaining d w)") (auto dest!: wait_pass_progress progress_remaining)

declare wait_loop.simps [simp del]

interpretation wait: pass_loop "wait_pass b argv p T d" "wait_loop b argv p T d" d for b argv p T d
  by unfold_locales (rule wait_loop.simps, rule wait_pass_progress)

definition WaitForWorkerSuccess :: "string list \<Rightarrow> int \<Rightarrow> unit io" where
  "WaitForWorkerSuccess argv timeout =
     bnd (call_or_throw ''fork'') (\<lambda>_.
     bnd (answer k_fork) (\<lambda>child.
     bnd (fork_child (worker_child argv)) (\<lambda>started.
     bnd sys (\<lambda>_.
     bnd steady_now (\<lambda>now.
     wait_loop started argv child timeout (now + nat (timeout * 1000)))))))"

lemma wait_loop_result:
  assumes run: "wait_loop b argv p T d w = (r, w')"
  shows "((\<forall>t. k_lag (w_kernel w) t \<le> L) \<longrightarrow> w_mono w' \<le> max (w_mono w) (d + 49 + L) + 2049 + L)
    \<and> (r = Inr () \<longrightarrow> b \<and> k_wait (w_kernel w) (w_tick w') p = Some (Exited 0))"
proof -
  let ?B = "max (w_mono w) (d + 49 + L)"
  let ?lag = "\<forall>t. k_lag (w_kernel w) t \<le> L"
  let ?I = "\<lambda>v. w_kernel v = w_kernel w \<and> (?lag \<longrightarrow> w_mono v \<le> ?B)"
  let ?Q = "\<lambda>r v. (?lag \<longrightarrow> w_mono v \<le> ?B + 2049 + L) \<and> (r = Inr () \<longrightarrow> b \<and> k_wait (w_kernel w) (w_tick v) p = Some (Exited 0))"
  have pass: "if x = Inr False then ?I v' else ?Q (map_sum id (\<lambda>_. ()) x) v'" if I: "?I v" and x: "wait_pass b argv p T d v = (x, v')" for v x v'
    using x
  proof (cases rule: wait_pass_cases)
    case interrupted
    then show ?thesis using keeps_result [OF poll_child_instant interrupted(1)] I by (simp add: instant_def)
  next
    case (pause v1 y)
    then show ?thesis using pause_progress [OF pause(3, 1, 2), of L] I by (auto simp: progress_def later_def)
  next
    case (expired e v1)
    then show ?thesis using worker_timed_out_time [OF expired(3), of L] I by (auto simp: instant_def)
  next
    case ended
    then show ?thesis
      using keeps_result [OF poll_child_instant ended(2)] poll_child_status [OF ended(2)] I
      by (auto simp: instant_def split: if_splits)
  qed (use I in \<open>auto simp: instant_def\<close>)
  show ?thesis
  proof (rule wait.loop_rule [OF run, of ?I ?Q])
    show "?I w" by simp
    show "?I v'" if "?I v" "wait_pass b argv p T d v = (Inr False, v')" for v v' using pass [OF that] by simp
    show "?Q (Inl e) v'" if "?I v" "wait_pass b argv p T d v = (Inl e, v')" for v e v' using pass [OF that] by simp
    show "?Q (Inr ()) v'" if "?I v" "wait_pass b argv p T d v = (Inr True, v')" for v v' using pass [OF that] by simp
  qed
qed

lemma fork_child_instant [instant_intros]: "keeps instant (fork_child m)"
  by (rule keepsI) (simp add: fork_child_def instant_def split: prod.split)

lemma sys_total: "\<exists>s w1. sys w = (Inr s, w1)"
  by (cases "w_script w") (auto simp: sys_def)

lemma fork_worker_total: "\<exists>b w1. fork_child (worker_child argv) w = (Inr b, w1)"
  by (auto simp: fork_child_def worker_child_def fault_def log_event_def bnd_apply sys_def split: prod.splits sum.splits list.splits)

lemma WaitForWorkerSuccess_cases:
  assumes "WaitForWorkerSuccess argv T w = (r, w')"
  obtains (forkless) e where "r = Inl e" "instant w w'"
  | (forked) t b w1 where "instant w w1" "wait_loop b argv (k_fork (w_kernel w) t) T (w_mono w + nat (T * 1000)) w1 = (r, w')"
proof -
  obtain a w1 where a: "call_or_throw ''fork'' w = (a, w1)" by (cases "call_or_throw ''fork'' w")
  have i1: "instant w w1" by (rule keeps_result [OF call_or_throw_instant a])
  show ?thesis
  proof (cases a)
    case (Inl e)
    then show ?thesis using forkless [of e] assms a i1 by (simp add: WaitForWorkerSuccess_def bnd_apply)
  next
    case (Inr u)
    obtain b w2 where b: "fork_child (worker_child argv) w1 = (Inr b, w2)" using fork_worker_total by blast
    have i2: "instant w1 w2" by (rule keeps_result [OF fork_child_instant b])
    obtain s w3 where s: "sys w2 = (Inr s, w3)" using sys_total by blast
    have i3: "instant w2 w3" by (rule keeps_result [OF sys_instant s])
    have "instant w w3" using i1 i2 i3 by (blast intro: ins.frame_trans)
    moreover have "wait_loop b argv (k_fork (w_kernel w) (w_tick w1)) T (w_mono w + nat (T * 1000)) w3 = (r, w')"
      using assms a Inr b s i1 calculation
      by (simp add: WaitForWorkerSuccess_def bnd_apply answer_def steady_now_def instant_def)
    ultimately show ?thesis by (rule forked)
  qed
qed



text \<open>A worker that never ends, on a machine where nothing else happens: \<^verbatim>\<open>SIGTERM\<close> after the timeout,
  \<^verbatim>\<open>SIGKILL\<close> after the grace.\<close>

definition sample_hanging :: world where
  "sample_hanging = sample_world\<lparr>w_kernel := sample_kernel\<lparr>k_wait := (\<lambda>_ _. None), k_lag := (\<lambda>_. 400)\<rparr>\<rparr>"


section \<open>The allowlist\<close>

text \<open>One allowed option, with its value.\<close>

fun allowed_option :: "string list \<Rightarrow> bool" where
  "allowed_option [t] \<longleftrightarrow> t \<in> set plain_options \<or> prefix ''--ghost-limit='' t"
| "allowed_option [t, v] \<longleftrightarrow> t = ''--ghost-limit'' \<or> t = ''--external'' \<and> prefix ''tty['' v
     \<or> t = ''--inherit-fd'' \<and> prefix ''fd['' v"
| "allowed_option _ \<longleftrightarrow> False"

lemma ValidateExtraArgs_same: "ValidateExtraArgs xs = Inr ys \<Longrightarrow> ys = xs"
  by (induction xs arbitrary: ys rule: ValidateExtraArgs.induct)
    (auto simp: try_bind_eq_Inr split: if_splits list.splits)

lemma value_options:
  "t \<in> {''--ghost-limit'', ''--external'', ''--inherit-fd''} \<Longrightarrow> t \<notin> set plain_options \<and> \<not> prefix ''--ghost-limit='' t"
  by (auto simp: plain_options_def)

lemma ValidateExtraArgs_one:
  "allowed_option [t] \<Longrightarrow> ValidateExtraArgs (t # r) = try_bind (ValidateExtraArgs r) (\<lambda>r. Inr (t # r))"
  by (simp only: ValidateExtraArgs.simps allowed_option.simps if_True)

lemma ValidateExtraArgs_two:
  assumes "allowed_option [t, v]"
  shows "ValidateExtraArgs (t # v # r) = try_bind (ValidateExtraArgs r) (\<lambda>r. Inr (t # v # r))"
proof -
  have "t \<in> {''--ghost-limit'', ''--external'', ''--inherit-fd''}" using assms by auto
  then have "t \<notin> set plain_options" "\<not> prefix ''--ghost-limit='' t" using value_options by blast+
  then show ?thesis using assms
    by (subst ValidateExtraArgs.simps(2)) (auto simp del: ValidateExtraArgs.simps)
qed

lemma ValidateExtraArgs_cases:
  assumes "ValidateExtraArgs (t # r) = Inr ys"
  obtains (one) zs where "allowed_option [t]" "ValidateExtraArgs r = Inr zs"
  | (two) v r' zs where "r = v # r'" "allowed_option [t, v]" "ValidateExtraArgs r' = Inr zs"
  using assms by (auto simp: try_bind_eq_Inr split: if_splits list.splits)

lemma ValidateExtraArgs_split:
  "ValidateExtraArgs xs = Inr ys \<Longrightarrow> \<exists>os. xs = concat os \<and> list_all allowed_option os"
proof (induction xs arbitrary: ys rule: length_induct)
  case (1 xs)
  show ?case
  proof (cases xs)
    case Nil
    then show ?thesis by (intro exI [of _ "[]"]) simp
  next
    case (Cons t r)
    have "ValidateExtraArgs (t # r) = Inr ys" using "1.prems" Cons by simp
    then show ?thesis
    proof (cases rule: ValidateExtraArgs_cases)
      case (one zs)
      then obtain os where "r = concat os" "list_all allowed_option os" using "1.IH" Cons by auto
      then show ?thesis using one Cons by (intro exI [of _ "[t] # os"]) simp
    next
      case (two v r' zs)
      then have "length r' < length xs" using Cons by simp
      then obtain os where "r' = concat os" "list_all allowed_option os" using "1.IH" two(3) by blast
      then show ?thesis using two Cons by (intro exI [of _ "[t, v] # os"]) simp
    qed
  qed
qed

lemma ValidateExtraArgs_concat: "list_all allowed_option os \<Longrightarrow> ValidateExtraArgs (concat os) = Inr (concat os)"
proof (induction os)
  case (Cons o' os)
  then have IH: "ValidateExtraArgs (concat os) = Inr (concat os)" and "allowed_option o'" by simp_all
  then consider t where "o' = [t]" "allowed_option [t]" | t v where "o' = [t, v]" "allowed_option [t, v]"
    by (cases o' rule: allowed_option.cases) auto
  then show ?case
    by cases (simp_all only: ValidateExtraArgs_one ValidateExtraArgs_two IH try_bind_simps concat.simps append.simps)
qed simp


section \<open>The worker understands its command line\<close>

definition worker_config ::
  "DaemonConfig \<Rightarrow> path \<Rightarrow> JobRecord \<Rightarrow> CheckpointRecord \<Rightarrow> string \<Rightarrow> string list \<Rightarrow> bool \<Rightarrow> int \<Rightarrow> WorkerConfig" where
  "worker_config cfg root job c operation extra_args namespace_mode tty_fd =
     \<lparr>wc_operation = operation, wc_state_dir = root,
      wc_job_dir = path_append (JobsDir root (owner_uid job)) (job_id job),
      wc_checkpoint_dir = path_append (path_append (path_append (JobsDir root (owner_uid job)) (job_id job)) ''checkpoints'')
        (checkpoint_id c),
      wc_criu_bin = criu_bin cfg, wc_criu_ns_bin = criu_ns_bin cfg,
      wc_pid = (if operation = ''dump'' then job_pid job else 0),
      wc_namespace_dump = (operation = ''dump'' \<and> namespace_mode),
      wc_namespace_restore = (operation \<noteq> ''dump'' \<and> namespace_mode),
      wc_extra_args = extra_args, wc_tty_fd = (if tty_fd \<ge> 0 then tty_fd else - 1)\<rparr>"

lemma worker_flags_extra:
  "worker_flags (concat (map (\<lambda>a. [''--extra-arg'', a]) xs)) c = Inr (c\<lparr>wc_extra_args := wc_extra_args c @ xs\<rparr>)"
proof (induction xs arbitrary: c)
  case (Cons x xs)
  show ?case by (simp add: value_flags_def Cons.IH)
qed simp

lemma tty_roundtrip: "0 \<le> fd \<Longrightarrow> fd < 2 ^ 31 \<Longrightarrow> stol (show_int fd) = Inr fd \<and> sint (word_of_int fd :: 32 word) = fd"
  by (simp add: stol_def parse_signed_show_int signed_take_bit_int_eq_self_iff sint_sbintrunc')

lemma build_parse:
  assumes "BuildWorkerCommand cfg root job c operation extra_args namespace_mode tty_fd = Inr argv" and "tty_fd < 2 ^ 31"
  shows "Worker.ParseArgs argv = Inr (worker_config cfg root job c operation extra_args namespace_mode tty_fd)"
proof -
  have "IsSafeId (job_id job) \<and> IsSafeId (checkpoint_id c)"
    using assms(1) by (auto simp: BuildWorkerCommand_def try_bind_eq_Inr JobDir_Inr CheckpointDir_def)
  then show ?thesis
    using assms(1) tty_roundtrip [OF _ assms(2)]
    by (auto simp: BuildWorkerCommand_def try_bind_eq_Inr JobDir_Inr CheckpointDir_def CheckpointsDir_def
        Worker.ParseArgs_def value_flags_def worker_config_def empty_worker_config_def worker_flags_extra pid_roundtrip)
qed

text \<open>C10: What the broker tells the worker is what the worker understands: the command line built by
  \<^verbatim>\<open>BuildWorkerCommand\<close> parses, in the worker's \<^verbatim>\<open>ParseArgs\<close>, to the configuration with exactly the
  state, job and checkpoint directories, binaries, pid, mode, terminal and CRIU arguments of the
  request, whatever text these contain.\<close>

theorem worker_command_roundtrip:
  assumes "BuildWorkerCommand cfg root job c operation extra_args namespace_mode tty_fd = Inr argv" and "tty_fd < 2 ^ 31"
  shows "Worker.ParseArgs argv = Inr (worker_config cfg root job c operation extra_args namespace_mode tty_fd)"
  by (rule build_parse [OF assms])

theorem worker_command_roundtrip_witness:
  "\<exists>argv. BuildWorkerCommand default_config ''/s'' sample_job sample_checkpoint ''restore'' [''--pid'', ''--tcp-close''] True 5 = Inr argv
    \<and> Worker.ParseArgs argv = Inr (worker_config default_config ''/s'' sample_job sample_checkpoint ''restore'' [''--pid'', ''--tcp-close''] True 5)"
proof -
  have "succeeds (BuildWorkerCommand default_config ''/s'' sample_job sample_checkpoint ''restore'' [''--pid'', ''--tcp-close''] True 5)"
    by code_simp
  then obtain argv where "BuildWorkerCommand default_config ''/s'' sample_job sample_checkpoint ''restore'' [''--pid'', ''--tcp-close''] True 5 = Inr argv"
    by (auto simp: succeeds_iff)
  with worker_command_roundtrip [OF this] show ?thesis by simp
qed


section \<open>Jobs and their processes\<close>

definition liveness :: "JobRecord \<Rightarrow> string io" where
  "liveness job =
     bnd (ProcessMatchesPeerSecurity (job_pid job) (owner_uid job) (owner_gid job) (start_time_ticks job)) (\<lambda>r.
     if r = None then ret ''running''
     else bnd (ProcessIdentityMatches (job_pid job) (owner_uid job) (owner_gid job) (start_time_ticks job)) (\<lambda>same.
       if same then ret ''unsafe''
       else bnd (IsProcessAlive (job_pid job)) (\<lambda>alive. ret (if alive then ''stale'' else ''exited''))))"

definition UpdateJobLiveness :: "path \<Rightarrow> JobRecord \<Rightarrow> JobRecord io" where
  "UpdateJobLiveness root job =
     bnd (liveness job) (\<lambda>new_state.
     if job_state job \<noteq> new_state
     then bnd (SaveJob root (job\<lparr>job_state := new_state\<rparr>)) (\<lambda>_. ret (job\<lparr>job_state := new_state\<rparr>))
     else ret job)"

definition AdoptManagedPid :: "JobRecord \<Rightarrow> pid_t \<Rightarrow> JobRecord io" where
  "AdoptManagedPid job pid =
     bnd (ReadProcessIdentity pid) (\<lambda>i.
     bnd (ProcessMatchesPeerSecurity (id_pid i) (owner_uid job) (owner_gid job) (id_ticks i)) (\<lambda>r. case r of
       Some reason \<Rightarrow> raise (RuntimeError (''restored pid failed security validation: '' @ reason))
     | None \<Rightarrow> ret (job\<lparr>job_pid := id_pid i, start_time_ticks := id_ticks i, job_state := ''running''\<rparr>)))"

lemma liveness_keeps [frame_intros]: "keeps (outside K) (liveness job)"
  unfolding liveness_def by (intro frame_intros)

lemma IsProcessAlive_total: "\<exists>b w1. IsProcessAlive pid w = (Inr b, w1)"
  by (rule fault_cases [of w]) (auto simp: IsProcessAlive_def bnd_apply answer_def Let_def)

lemma liveness_total: "\<exists>s w1. liveness job w = (Inr s, w1)"
proof -
  obtain r w1 where r: "ProcessMatchesPeerSecurity (job_pid job) (owner_uid job) (owner_gid job) (start_time_ticks job) w = (Inr r, w1)"
    using ProcessMatchesPeerSecurity_Inr by blast
  obtain b w2 where b: "ProcessIdentityMatches (job_pid job) (owner_uid job) (owner_gid job) (start_time_ticks job) w1 = (Inr b, w2)"
    using ProcessIdentityMatches_Inr by blast
  obtain a w3 where "IsProcessAlive (job_pid job) w2 = (Inr a, w3)" using IsProcessAlive_total by blast
  then show ?thesis using r b by (simp add: liveness_def bnd_apply)
qed

lemma liveness_verdict:
  assumes "liveness job w = (Inr s, w1)"
  shows "s \<in> {''running'', ''unsafe'', ''stale'', ''exited''}"
    and "s = ''running'' \<longleftrightarrow>
      fst (ProcessMatchesPeerSecurity (job_pid job) (owner_uid job) (owner_gid job) (start_time_ticks job) w) = Inr None"
  using assms by (auto simp: liveness_def bnd_Inr_iff split: if_splits)

lemma UpdateJobLiveness_InrE:
  assumes "UpdateJobLiveness root job w = (Inr job', w')"
  obtains s w1 where "liveness job w = (Inr s, w1)" and "job' = job\<lparr>job_state := s\<rparr>"
    and "job_state job = s \<and> w' = w1 \<or> job_state job \<noteq> s \<and> SaveJob root job' w1 = (Inr (), w')"
  using assms by (auto simp: UpdateJobLiveness_def bnd_Inr_iff split: if_splits)

text \<open>C19: The state of a job is one of four, it is \<^verbatim>\<open>running\<close> exactly if the process was found with the
  recorded start time and in the unprivileged state of its owner, nothing else of the record
  changes; a state that changed is on disk, so that the record loads back with it, and otherwise no
  file is touched.\<close>

theorem job_state_machine:
  assumes run: "UpdateJobLiveness root job w = (Inr job', w')" and root: "take 1 (path_key root) \<noteq> [''proc'']"
    and calm: "faultless w'"
  shows "job' = job\<lparr>job_state := job_state job'\<rparr>
    \<and> job_state job' \<in> {''running'', ''unsafe'', ''stale'', ''exited''}
    \<and> (job_state job' = ''running'' \<longleftrightarrow>
        fst (ProcessMatchesPeerSecurity (job_pid job) (owner_uid job) (owner_gid job) (start_time_ticks job) w) = Inr None)
    \<and> (if job_state job' = job_state job then fs_get (w_files w') = fs_get (w_files w)
       else \<exists>v. LoadJob root (owner_uid job) (job_id job) w' = (Inr job', v))"
proof -
  obtain s w1 where s: "liveness job w = (Inr s, w1)" and job': "job' = job\<lparr>job_state := s\<rparr>"
    and save: "job_state job = s \<and> w' = w1 \<or> job_state job \<noteq> s \<and> SaveJob root job' w1 = (Inr (), w')"
    by (rule UpdateJobLiveness_InrE [OF run]) (rule that)
  have same: "fs_get (w_files w1) = fs_get (w_files w)"
    by (rule outside_none [OF keeps_result [OF liveness_keeps s]])
  have "\<exists>v. LoadJob root (owner_uid job) (job_id job) w' = (Inr job', v)" if "job_state job \<noteq> s"
    using load_saved_job [of root job' w1 w' w', OF _ refl calm root] save that job' by simp
  then show ?thesis using liveness_verdict [OF s] job' save same by auto
qed

theorem job_state_machine_witness:
  "job_state (projr (fst (UpdateJobLiveness ''/s'' sample_job sample_world))) = ''exited''
   \<and> (\<exists>v. LoadJob ''/s'' 7 ''job-1'' (snd (UpdateJobLiveness ''/s'' sample_job sample_world)) = (Inr (sample_job\<lparr>job_state := ''exited''\<rparr>), v))"
proof -
  let ?r = "UpdateJobLiveness ''/s'' sample_job sample_world"
  have f: "map_sum (\<lambda>_. ()) job_state (fst ?r) = Inr ''exited''" by code_simp
  then obtain job' where r: "?r = (Inr job', snd ?r)" and s: "job_state job' = ''exited''" by (cases ?r; cases "fst ?r") auto
  have 2: "faultless (snd ?r)" by code_simp
  have 3: "take 1 (path_key ''/s'') \<noteq> [''proc'']" by code_simp
  have 4: "fst ?r = Inr job'" using r by (metis fst_conv)
  have 5: "job_state sample_job = ''running''" "owner_uid sample_job = 7" "job_id sample_job = ''job-1''"
    by (simp_all add: sample_job_def)
  have job': "job' = sample_job\<lparr>job_state := ''exited''\<rparr>"
    and "\<exists>v. LoadJob ''/s'' 7 ''job-1'' (snd ?r) = (Inr job', v)"
    using job_state_machine [OF r 3 2] unfolding s 5 by - (elim conjE, assumption, elim conjE, simp)
  then show ?thesis unfolding 4 by (simp only: sum.sel s) simp
qed

text \<open>The value of \<^verbatim>\<open>--ghost-limit\<close> is passed on whatever it is, also when it looks like another option.\<close>

lemma ghost_limit_value_unchecked:
  "ValidateExtraArgs [''--ghost-limit'', ''--exec-cmd''] = Inr [''--ghost-limit'', ''--exec-cmd'']"
  by code_simp

section \<open>Evaluation\<close>

text \<open>Code equations that wait for the state an action runs on, so that an evaluation follows the run.\<close>

lemmas broker_code [code] =
  fun_cong [OF CreatePidOwnedJob_def] fun_cong [OF ExportCheckpointArtifacts_def] fun_cong [OF worker_child_def]
  fun_cong [OF poll_child_def] fun_cong [OF kill_worker_def] fun_cong [OF kill_pass_def]
  fun_cong [OF worker_timed_out_def] fun_cong [OF wait_pass_def] fun_cong [OF WaitForWorkerSuccess_def]
  fun_cong [OF liveness_def] fun_cong [OF UpdateJobLiveness_def] fun_cong [OF AdoptManagedPid_def]

end
