(* ===== verification/Requests.thy ===== *)
theory Requests
  imports Broker
begin

text \<open>
  The requests of the broker: \<^verbatim>\<open>HandleRequest\<close> of \<^verbatim>\<open>daemon.cc\<close>, one definition for each command. The
  peer's credentials and the descriptor that came with the request are arguments.

  The results: a request that is malformed has no effect at all; whatever a request does, the job
  records of other users and everything outside the state directory stay as they are and the only
  programs started are the peer's own and workers for the peer's own jobs; a worker that dumps a
  process starts only after that process passed the security check; a checkpoint that is reported
  as done is the job's latest on disk, and one that failed is recorded as failed; a restore adopts
  only a process that passed the security check.
\<close>

section \<open>Handlers\<close>

definition handle_run :: "path \<Rightarrow> PeerCred \<Rightarrow> Message \<Rightarrow> Message io" where
  "handle_run root peer request =
     bnd (lift_sum (ValidateAllowedFields request [''arg'', ''cwd''])) (\<lambda>_.
     let args = GetAll request ''arg''; cwd = Get request ''cwd'' in
     bnd (LaunchManagedJob peer args cwd) (\<lambda>l.
     bnd (CreateJob (peer_uid peer) (peer_gid peer) (launched_pid l) (launched_ticks l) (hd args) cwd
            (JoinCommandLine args)) (\<lambda>job.
     bnd (SaveJob root job) (\<lambda>_.
     ret (ok_response [(''job_id'', job_id job), (''pid'', PidToString (job_pid job))])))))"

definition load_own_job :: "path \<Rightarrow> PeerCred \<Rightarrow> Message \<Rightarrow> JobRecord io" where
  "load_own_job root peer request =
     (let jid = Get request ''job_id'' in
      bnd (lift_sum (RequireSafeId jid ''job_id'')) (\<lambda>_.
      bnd (LoadJob root (peer_uid peer) jid) (\<lambda>job.
      bnd (lift_sum (AuthorizeJobAccess job (peer_uid peer))) (\<lambda>_. ret job))))"

definition handle_status :: "path \<Rightarrow> PeerCred \<Rightarrow> Message \<Rightarrow> Message io" where
  "handle_status root peer request =
     bnd (lift_sum (ValidateAllowedFields request [''job_id''])) (\<lambda>_.
     bnd (load_own_job root peer request) (\<lambda>job.
     bnd (UpdateJobLiveness root job) (\<lambda>job.
     ret (StatusResponse job))))"

definition prune_quietly :: "DaemonConfig \<Rightarrow> path \<Rightarrow> JobRecord \<Rightarrow> CheckpointRecord \<Rightarrow> unit io" where
  "prune_quietly cfg root job c = catch_exn
     (bnd (PruneCheckpoints cfg root (job_id job) (checkpoint_id c)) (\<lambda>_. ret ()))
     (\<lambda>x. log_event (LogEv (''snapshotd: checkpoint prune failed: '' @ what x @ [NL])))"

text \<open>The \<^verbatim>\<open>catch\<close> clause around a worker: the record of the checkpoint gets the state, and the artifacts
  are exported all the same.\<close>

definition record_failure :: "path \<Rightarrow> JobRecord \<Rightarrow> CheckpointRecord \<Rightarrow> string \<Rightarrow> (CheckpointRecord \<times> path) io" where
  "record_failure root job c state =
     bnd (RefreshCheckpointSize root job (c\<lparr>ck_state := state\<rparr>)) (\<lambda>c.
     bnd (SaveCheckpoint root job c) (\<lambda>_.
     bnd (ExportCheckpointArtifacts root job c) (\<lambda>ed.
     ret (c, ed))))"

definition worker_failed ::
  "path \<Rightarrow> JobRecord \<Rightarrow> CheckpointRecord \<Rightarrow> string \<Rightarrow> (CheckpointRecord \<Rightarrow> path \<Rightarrow> exn) \<Rightarrow> 'a io" where
  "worker_failed root job c state error =
     bnd (record_failure root job c state) (\<lambda>(c, ed). raise (error c ed))"

definition dump_error :: "JobRecord \<Rightarrow> exn \<Rightarrow> CheckpointRecord \<Rightarrow> path \<Rightarrow> exn" where
  "dump_error job x c ed = RequestError ''checkpoint_failed'' (what x)
     [(''job_id'', job_id job), (''checkpoint_id'', checkpoint_id c),
      (''dump_log'', exported_log ed ''dump.log''), (''export_images'', path_append ed ''images'')]"

definition run_worker ::
  "DaemonConfig \<Rightarrow> path \<Rightarrow> JobRecord \<Rightarrow> CheckpointRecord \<Rightarrow> string \<Rightarrow> string list \<Rightarrow> bool \<Rightarrow> int \<Rightarrow> unit io" where
  "run_worker cfg root job c operation extra_args namespace_mode tty_fd =
     bnd (lift_sum (BuildWorkerCommand cfg root job c operation extra_args namespace_mode tty_fd)) (\<lambda>argv.
     WaitForWorkerSuccess argv (worker_timeout_seconds cfg))"

text \<open>The common end of \<^verbatim>\<open>checkpoint\<close> and \<^verbatim>\<open>checkpoint-pid\<close>.\<close>

definition dump_done :: "DaemonConfig \<Rightarrow> path \<Rightarrow> JobRecord \<Rightarrow> CheckpointRecord \<Rightarrow> Message io" where
  "dump_done cfg root job c =
     bnd (RefreshCheckpointSize root job (c\<lparr>ck_state := ''ready''\<rparr>)) (\<lambda>c.
     bnd (SaveCheckpoint root job c) (\<lambda>_.
     let job = job\<lparr>latest_checkpoint := checkpoint_id c\<rparr> in
     bnd (SaveJob root job) (\<lambda>_.
     bnd (ExportCheckpointArtifacts root job c) (\<lambda>ed.
     bnd (prune_quietly cfg root job c) (\<lambda>_.
     ret (CheckpointSuccessResponse job c ed))))))"

definition run_dump :: "DaemonConfig \<Rightarrow> path \<Rightarrow> JobRecord \<Rightarrow> CheckpointRecord \<Rightarrow> string list \<Rightarrow> bool \<Rightarrow> Message io" where
  "run_dump cfg root job c extra_args namespace_dump =
     bnd (catch_exn (run_worker cfg root job c ''dump'' extra_args namespace_dump (- 1))
       (\<lambda>x. worker_failed root job c ''failed'' (dump_error job x))) (\<lambda>_.
     dump_done cfg root job c)"

definition handle_checkpoint :: "DaemonConfig \<Rightarrow> path \<Rightarrow> PeerCred \<Rightarrow> Message \<Rightarrow> Message io" where
  "handle_checkpoint cfg root peer request =
     bnd (lift_sum (ValidateAllowedFields request [''job_id'', ''extra_arg'', ''namespace_dump''])) (\<lambda>_.
     bnd (load_own_job root peer request) (\<lambda>job.
     bnd (UpdateJobLiveness root job) (\<lambda>job.
     if job_state job \<noteq> ''running'' then raise (RuntimeError ''cannot checkpoint a non-running managed job'')
     else bnd (ProcessMatchesPeerSecurity (job_pid job) (owner_uid job) (owner_gid job) (start_time_ticks job)) (\<lambda>r. case r of
       Some reason \<Rightarrow> bnd (UpdateJobLiveness root job) (\<lambda>_.
         raise (RuntimeError (''managed job is not safe to checkpoint: '' @ reason)))
     | None \<Rightarrow>
         bnd (CreateCheckpoint root job) (\<lambda>c.
         bnd (SaveCheckpoint root job c) (\<lambda>_.
         bnd (lift_sum (ValidateExtraArgs (GetAll request ''extra_arg''))) (\<lambda>extra_args.
         run_dump cfg root job c extra_args (MessageFlagEnabled request ''namespace_dump''))))))))"

definition handle_checkpoint_pid :: "DaemonConfig \<Rightarrow> path \<Rightarrow> PeerCred \<Rightarrow> Message \<Rightarrow> Message io" where
  "handle_checkpoint_pid cfg root peer request =
     bnd (lift_sum (ValidateAllowedFields request [''pid'', ''extra_arg'', ''namespace_dump''])) (\<lambda>_.
     bnd (lift_sum (stol (Get request ''pid''))) (\<lambda>pid.
     bnd (CreatePidOwnedJob root peer (word_of_int pid)) (\<lambda>job.
     bnd (CreateCheckpoint root job) (\<lambda>c.
     bnd (SaveCheckpoint root job c) (\<lambda>_.
     bnd (lift_sum (ValidateExtraArgs (GetAll request ''extra_arg''))) (\<lambda>extra_args.
     bnd (ProcessMatchesPeerSecurity (job_pid job) (owner_uid job) (owner_gid job) (start_time_ticks job)) (\<lambda>r. case r of
       Some reason \<Rightarrow> raise (RuntimeError (''checkpoint target is not safe to checkpoint: '' @ reason))
     | None \<Rightarrow> run_dump cfg root job c extra_args (MessageFlagEnabled request ''namespace_dump''))))))))"

definition restore_error :: "JobRecord \<Rightarrow> exn \<Rightarrow> CheckpointRecord \<Rightarrow> path \<Rightarrow> exn" where
  "restore_error job x c ed = RequestError ''restore_failed'' (what x)
     [(''job_id'', job_id job), (''checkpoint_id'', checkpoint_id c), (''restore_log'', exported_log ed ''restore.log'')]"

text \<open>The pid file the worker left, if any, names the restored process.\<close>

definition adopt_restored :: "path \<Rightarrow> JobRecord \<Rightarrow> CheckpointRecord \<Rightarrow> (JobRecord \<times> CheckpointRecord) io" where
  "adopt_restored root job c =
     bnd (lift_sum (CheckpointDir root (owner_uid job) (job_id job) (checkpoint_id c))) (\<lambda>cd.
     let pidfile = path_append cd ''restore.pid'' in
     bnd (PathExists pidfile) (\<lambda>ex.
     if ex then
       bnd (ReadTextFile pidfile) (\<lambda>text.
       bnd (lift_sum (ParseKeyValueText (''pid='' @ text))) (\<lambda>m.
       bnd (lift_sum (stol (kv_find m ''pid''))) (\<lambda>pid.
       bnd (AdoptManagedPid job (word_of_int pid)) (\<lambda>job.
       bnd (SaveJob root job) (\<lambda>_.
       ret (job, c\<lparr>restored_pid := kv_find m ''pid''\<rparr>))))))
     else ret (job, c\<lparr>restored_pid := []\<rparr>)))"

definition handle_restore :: "DaemonConfig \<Rightarrow> path \<Rightarrow> PeerCred \<Rightarrow> int \<Rightarrow> Message \<Rightarrow> Message io" where
  "handle_restore cfg root peer client_tty_fd request =
     bnd (lift_sum (ValidateAllowedFields request [''job_id'', ''checkpoint_id'', ''extra_arg'', ''namespace_restore''])) (\<lambda>_.
     bnd (load_own_job root peer request) (\<lambda>job.
     bnd (lift_sum (ResolveCheckpointId job (Get request ''checkpoint_id''))) (\<lambda>cid.
     bnd (LoadCheckpoint root job cid) (\<lambda>c.
     bnd (lift_sum (ValidateExtraArgs (GetAll request ''extra_arg''))) (\<lambda>extra_args.
     bnd (catch_exn
        (run_worker cfg root job c ''restore'' extra_args (MessageFlagEnabled request ''namespace_restore'') client_tty_fd)
        (\<lambda>x. worker_failed root job c ''restore-failed'' (restore_error job x))) (\<lambda>_.
     bnd (adopt_restored root job c) (\<lambda>(job, c).
     bnd (TouchCheckpointRestoreUsage root job (c\<lparr>ck_state := ''restored''\<rparr>)) (\<lambda>c.
     bnd (SaveCheckpoint root job c) (\<lambda>_.
     bnd (ExportCheckpointArtifacts root job c) (\<lambda>ed.
     bnd (prune_quietly cfg root job c) (\<lambda>_.
     ret (ok_response [(''job_id'', job_id job), (''checkpoint_id'', checkpoint_id c),
       (''restored_pid'', restored_pid c), (''restore_log'', exported_log ed ''restore.log'')]))))))))))))"

definition HandleRequest :: "Message \<Rightarrow> PeerCred \<Rightarrow> DaemonConfig \<Rightarrow> path \<Rightarrow> int \<Rightarrow> Message io" where
  "HandleRequest request peer cfg root client_tty_fd =
     (if command request = ''run'' then handle_run root peer request
      else if command request = ''status'' then handle_status root peer request
      else if command request = ''checkpoint'' then handle_checkpoint cfg root peer request
      else if command request = ''checkpoint-pid'' then handle_checkpoint_pid cfg root peer request
      else if command request = ''restore'' then handle_restore cfg root peer client_tty_fd request
      else raise (RuntimeError (''unsupported request command: '' @ command request)))"


section \<open>Evaluation\<close>

text \<open>Code equations that wait for the state an action runs on, so that an evaluation follows the run.\<close>

lemmas requests_code [code] =
  fun_cong [OF handle_run_def] fun_cong [OF load_own_job_def] fun_cong [OF handle_status_def]
  fun_cong [OF prune_quietly_def] fun_cong [OF record_failure_def] fun_cong [OF worker_failed_def]
  fun_cong [OF run_worker_def] fun_cong [OF dump_done_def] fun_cong [OF run_dump_def]
  fun_cong [OF handle_checkpoint_def] fun_cong [OF handle_checkpoint_pid_def] fun_cong [OF adopt_restored_def]
  fun_cong [OF handle_restore_def] fun_cong [OF HandleRequest_def]

section \<open>What a request may touch\<close>

text \<open>A started worker may change what the worker theory proves of the worker: nothing outside the zone
  of the configuration it was given, and nothing at all if it rejects its command line.\<close>

definition workers_confined :: "kernel \<Rightarrow> bool" where
  "workers_confined ker \<longleftrightarrow> (\<forall>t argv tr k. (\<forall>c. Worker.ParseArgs argv = Inr c \<longrightarrow> \<not> worker_zone c k) \<longrightarrow>
     fs_get (k_spawn ker t argv tr) k = fs_get tr k)"

definition broker_ok :: "kernel \<Rightarrow> bool" where
  "broker_ok ker \<longleftrightarrow> k_euid ker = 0 \<and> workers_confined ker"

text \<open>The user's own tree, and what retention may touch: checkpoint metadata with the directories above
  it, and whole checkpoints and exports.\<close>

definition retention_zone :: "path \<Rightarrow> key \<Rightarrow> bool" where
  "retention_zone root k \<longleftrightarrow> metadata_zone root k
     \<or> (\<exists>v j c. prefix (checkpoint_key root v j c) k \<or> prefix (export_key root v j c) k)"

definition request_zone :: "path \<Rightarrow> uid_t \<Rightarrow> key \<Rightarrow> bool" where
  "request_zone root u k \<longleftrightarrow> user_zone root u k \<or> retention_zone root k"

definition worker_argv :: "DaemonConfig \<Rightarrow> path \<Rightarrow> uid_t \<Rightarrow> string list \<Rightarrow> bool" where
  "worker_argv cfg root u argv \<longleftrightarrow> (\<exists>job c operation extra ns fd. owner_uid job = u \<and> fd < 2 ^ 31
     \<and> ValidateExtraArgs extra = Inr extra \<and> BuildWorkerCommand cfg root job c operation extra ns fd = Inr argv)"

definition request_event :: "DaemonConfig \<Rightarrow> path \<Rightarrow> PeerCred \<Rightarrow> event \<Rightarrow> bool" where
  "request_event cfg root peer e \<longleftrightarrow> (case e of
     LaunchEv uid gid _ _ _ \<Rightarrow> uid = peer_uid peer \<and> gid = peer_gid peer
   | SpawnEv argv \<Rightarrow> worker_argv cfg root (peer_uid peer) argv
   | SignalEv _ _ \<Rightarrow> True | LogEv _ \<Rightarrow> True | _ \<Rightarrow> False)"

abbreviation request_frame :: "DaemonConfig \<Rightarrow> path \<Rightarrow> PeerCred \<Rightarrow> world \<Rightarrow> world \<Rightarrow> bool" where
  "request_frame cfg root peer \<equiv> affects broker_ok (request_zone root (peer_uid peer)) (request_event cfg root peer)"

lemma affects_stronger: "keeps (affects P K E) m \<Longrightarrow> (\<And>k. Q k \<Longrightarrow> P k) \<Longrightarrow> keeps (affects Q K E) m"
  unfolding keeps_def affects_def by blast

lemma in_user_zone:
  assumes "keeps (outside (user_zone root u)) m" and "\<And>k. user_zone root u k \<Longrightarrow> K k"
  shows "keeps (affects P K E) m"
  by (rule keeps_affects) (rule keeps_outside_mono [OF assms])

lemma user_zone_near: "near (user_key root u @ r) k \<Longrightarrow> user_zone root u k"
  using user_zone_below [of k root u r] append_prefixD [of "user_key root u" r k] by (auto simp: near_def user_zone_def)

lemma user_zone_above: "prefix k (user_key root u) \<Longrightarrow> user_zone root u k"
  by (simp add: user_zone_def near_def)

lemma worker_zone_user:
  assumes "BuildWorkerCommand cfg root job c operation extra ns fd = Inr argv" and "fd < 2 ^ 31"
    and "Worker.ParseArgs argv = Inr wc" and "worker_zone wc k"
  shows "user_zone root (owner_uid job) k"
proof -
  have wc: "wc = worker_config cfg root job c operation extra ns fd"
    using build_parse [OF assms(1, 2)] assms(3) by simp
  have safe: "IsSafeId (job_id job)" "IsSafeId (checkpoint_id c)"
    using assms(1) by (auto simp: BuildWorkerCommand_def try_bind_eq_Inr JobDir_Inr CheckpointDir_def)
  have keys: "path_key (wc_state_dir wc) = path_key root" "path_key (wc_job_dir wc) = user_key root (owner_uid job) @ [''jobs'', job_id job]"
    "path_key (wc_checkpoint_dir wc) = user_key root (owner_uid job) @ [''jobs'', job_id job, ''checkpoints'', checkpoint_id c]"
    using safe by (simp_all add: wc worker_config_def)
  have "prefix k (path_key root) \<Longrightarrow> user_zone root (owner_uid job) k"
    by (simp add: user_zone_def near_def user_key_def)
  then show ?thesis using assms(4) user_zone_below user_zone_near unfolding worker_zone_def keys by blast
qed

lemma after_exec_confined:
  assumes "\<And>c k. Worker.ParseArgs argv = Inr c \<Longrightarrow> worker_zone c k \<Longrightarrow> K k"
  shows "keeps (affects broker_ok K E) (after_exec b argv)"
proof -
  have "keeps (affects broker_ok K E) (run_program argv)"
    using assms by (auto intro!: keepsI simp: run_program_def affects_def broker_ok_def workers_confined_def) blast
  then show ?thesis unfolding after_exec_def by (intro aff_keeps)
qed


lemma sys_kill_event: "keeps (affects P K (request_event cfg root peer)) (sys_kill t s)"
  by (rule sys_kill_affects) (simp add: request_event_def)

lemma WaitForWorkerSuccess_affects:
  assumes spawn: "E (SpawnEv argv)" and sig: "\<And>t s. E (SignalEv t s)"
    and prog: "\<And>b. keeps (affects P K E) (after_exec b argv)"
  shows "keeps (affects P K E) (WaitForWorkerSuccess argv T)"
proof -
  let ?R = "affects P K E"
  have R: "effect_frame ?R" by (rule aff.effect_frame_axioms)
  note calls = keeps_affects [OF fault_keeps] keeps_affects [OF child_status_keeps] keeps_affects [OF ThrowErrno_keeps]
    keeps_affects [OF steady_now_keeps] keeps_affects [OF sys_sleep_keeps] keeps_affects [OF call_or_throw_keeps]
    keeps_affects [OF answer_keeps] keeps_affects [OF sys_keeps] prog
  have sk: "keeps ?R (sys_kill t s)" for t s by (rule sys_kill_affects) (rule sig)
  have poll: "keeps ?R (poll_child b argv p)" for b p
    unfolding poll_child_def by (intro aff_keeps calls)
  have "keeps ?R (kill_pass b argv p d)" for b p d
    unfolding kill_pass_def kill_worker_def
    by (intro aff.bnd_keeps poll) (auto split: sum.split option.split intro!: aff_keeps calls sk)
  then have kill: "keeps ?R (kill_loop b argv p d)" for b p d by (intro kill.loop_keeps R)
  have "keeps ?R (wait_pass b argv p T d)" for b p d
    unfolding wait_pass_def worker_timed_out_def
    by (intro aff.bnd_keeps poll) (auto split: sum.split option.split intro!: aff_keeps calls sk kill)
  then have wait: "keeps ?R (wait_loop b argv p T d)" for b p d by (intro wait.loop_keeps R)
  have child: "keeps ?R (fork_child (worker_child argv))"
    unfolding worker_child_def by (intro fork_child_frame aff_keeps calls log_event_affects spawn)
  show ?thesis unfolding WaitForWorkerSuccess_def by (intro aff_keeps calls child wait)
qed

text \<open>Exporting writes below the exports of the user and makes the directories above.\<close>

abbreviation export_zone :: "path \<Rightarrow> uid_t \<Rightarrow> key \<Rightarrow> bool" where
  "export_zone root u \<equiv> near (user_key root u @ [''exports''])"

lemma near_below: "near (a @ b) k \<Longrightarrow> near a k"
  using append_prefixD [of a b k] by (auto simp: near_def prefix_append)

lemma ExportCheckpointArtifacts_zone:
  "keeps (outside (export_zone root (owner_uid job))) (ExportCheckpointArtifacts root job c)"
  unfolding ExportCheckpointArtifacts_def
proof (intro out.lift_bnd_keeps)
  fix cd ed
  let ?u = "user_key root (owner_uid job)"
  assume "ExportCheckpointDir root (owner_uid job) (job_id job) (checkpoint_id c) = Inr ed"
  then have safe: "IsSafeId (job_id job)" and ed: "path_key ed = ?u @ [''exports'', job_id job, checkpoint_id c]"
    using ExportCheckpointDir_key by (auto simp: ExportCheckpointDir_def try_bind_eq_Inr export_key_def)
  have z: "export_zone root (owner_uid job) k" if "near (?u @ ''exports'' # r) k" for k r
    using near_below [of "?u @ [''exports'']" r k] that by simp
  have above: "export_zone root (owner_uid job) k" if "prefix k ?u" for k using that by (simp add: near_def)
  show "keeps (outside (export_zone root (owner_uid job)))
     (bnd (EnsureDir (UserDir root (owner_uid job)) 0x1ED) (\<lambda>_.
     bnd (EnsureDir (ExportsDir root (owner_uid job)) 0x1ED) (\<lambda>_.
     bnd (EnsureDir (path_append (ExportsDir root (owner_uid job)) (job_id job)) 0x1ED) (\<lambda>_.
     bnd (RemoveTree ed) (\<lambda>_.
     bnd (EnsureDir ed 0x1C0) (\<lambda>_.
     bnd (CopyTree (path_append cd ''images'') (path_append ed ''images'')) (\<lambda>_.
     bnd (CopyTree (path_append cd ''logs'') (path_append ed ''logs'')) (\<lambda>_.
     bnd (SetTreePermissions ed 0x1ED 0x1A4) (\<lambda>_.
     ret ed)))))))))"
    using safe above z [of "[job_id job, checkpoint_id c]"] z [of "[job_id job, checkpoint_id c, ''images'']"]
      z [of "[job_id job, checkpoint_id c, ''logs'']"] z [of "[]"] z [of "[job_id job]"]
    by (intro frame_intros) (simp_all add: ed near_def)
qed

lemma ExportCheckpointArtifacts_keeps:
  "keeps (outside (user_zone root (owner_uid job))) (ExportCheckpointArtifacts root job c)"
  by (rule keeps_outside_mono [OF ExportCheckpointArtifacts_zone]) (erule user_zone_near)


lemma PruneCheckpoints_keeps: "keeps (outside (retention_zone root)) (PruneCheckpoints cfg root pj pc)"
proof (rule keepsI)
  fix w :: world
  obtain r w' where r: "PruneCheckpoints cfg root pj pc w = (r, w')" by (cases "PruneCheckpoints cfg root pj pc w")
  obtain cs where "outside (\<lambda>k. metadata_zone root k \<or> removal_zone root cs k) w w'"
    using PruneCheckpoints_effect [OF r] by blast
  then have "outside (retention_zone root) w w'"
    by (rule outside_mono) (auto simp: retention_zone_def removal_zone_def)
  then show "outside (retention_zone root) w (snd (PruneCheckpoints cfg root pj pc w))" using r by simp
qed

lemma CreateJob_Inr:
  assumes "CreateJob u g p t e c l w = (Inr job, w')"
  shows "owner_uid job = u" "owner_gid job = g" "job_pid job = p" "start_time_ticks job = t"
  using assms by (auto simp: CreateJob_def bnd_Inr_iff)

lemma UpdateJobLiveness_keeps: "keeps (outside (user_zone root (owner_uid job))) (UpdateJobLiveness root job)"
  using keeps_user_zone(1) [of root "job\<lparr>job_state := s\<rparr>" for s]
  unfolding UpdateJobLiveness_def by (intro frame_intros) auto

lemma UpdateJobLiveness_owner:
  assumes "UpdateJobLiveness root job w = (Inr job', w')"
  shows "owner_uid job' = owner_uid job"
  by (rule UpdateJobLiveness_InrE [OF assms]) simp

lemma AdoptManagedPid_keeps [frame_intros]: "keeps (outside K) (AdoptManagedPid job pid)"
  unfolding AdoptManagedPid_def by (intro frame_intros)

lemma CreatePidOwnedJob_keeps: "keeps (outside (user_zone root (peer_uid peer))) (CreatePidOwnedJob root peer pid)"
proof -
  have save: "keeps (outside (user_zone root (peer_uid peer)))
      (bnd (CreateJob (peer_uid peer) g p t e d l) (\<lambda>job. bnd (SaveJob root job) (\<lambda>_. ret job)))" for g p t e d l
  proof (rule out.bnd_keeps_result [OF CreateJob_keeps])
    fix job s s1
    assume "CreateJob (peer_uid peer) g p t e d l s = (Inr job, s1)"
    then have "owner_uid job = peer_uid peer" by (rule CreateJob_Inr)
    then show "keeps (outside (user_zone root (peer_uid peer))) (bnd (SaveJob root job) (\<lambda>_. ret job))"
      using keeps_user_zone(1) [of root job] by (intro frame_intros) simp
  qed
  show ?thesis
    unfolding CreatePidOwnedJob_def ReadProcessExecutablePath_def ReadProcessWorkingDirectory_def
    by (intro save frame_intros)
qed

lemma CreatePidOwnedJob_Inr:
  assumes "CreatePidOwnedJob root peer pid w = (Inr job, w')"
  shows "owner_uid job = peer_uid peer"
  using assms by (auto simp: CreatePidOwnedJob_def bnd_Inr_iff split: if_splits option.splits dest: CreateJob_Inr)

lemma load_own_job_keeps [frame_intros]: "keeps (outside K) (load_own_job root peer request)"
  unfolding load_own_job_def Let_def by (intro frame_intros)

lemma load_own_job_Inr:
  assumes "load_own_job root peer request w = (Inr job, w')"
  shows "owner_uid job = peer_uid peer"
  using assms by (auto simp: load_own_job_def bnd_Inr_iff Let_def AuthorizeJobAccess_def split: if_splits)

text \<open>Everything a handler does apart from the worker and pruning happens in the tree of the job's owner.\<close>

lemma owner_steps:
  "keeps (outside (user_zone root (owner_uid job))) (worker_failed root job c st err)"
  "keeps (outside (user_zone root (owner_uid job))) (adopt_restored root job c)"
  "keeps (outside K) (TouchCheckpointRestoreUsage root job c)"
proof -
  show "keeps (outside (user_zone root (owner_uid job))) (worker_failed root job c st err)"
    unfolding worker_failed_def record_failure_def by (intro frame_intros keeps_user_zone ExportCheckpointArtifacts_keeps)
  show "keeps (outside K) (TouchCheckpointRestoreUsage root job c)"
    unfolding TouchCheckpointRestoreUsage_def CurrentTimestampString_def by (intro frame_intros)
  have adopt: "keeps (outside (user_zone root (owner_uid job))) (bnd (AdoptManagedPid job p) (\<lambda>job. bnd (SaveJob root job) (\<lambda>_. ret (job, x))))" for p x
  proof (rule out.bnd_keeps_result [OF AdoptManagedPid_keeps])
    fix job' s s1
    assume "AdoptManagedPid job p s = (Inr job', s1)"
    then have "owner_uid job' = owner_uid job" by (auto simp: AdoptManagedPid_def bnd_Inr_iff split: option.splits)
    then show "keeps (outside (user_zone root (owner_uid job))) (bnd (SaveJob root job') (\<lambda>_. ret (job', x)))"
      using keeps_user_zone(1) [of root job'] by (intro frame_intros) simp
  qed
  show "keeps (outside (user_zone root (owner_uid job))) (adopt_restored root job c)"
    unfolding adopt_restored_def Let_def by (intro adopt frame_intros)
qed

lemma adopt_restored_owner:
  assumes "adopt_restored root job c w = (Inr (job', c'), w')"
  shows "owner_uid job' = owner_uid job"
  using assms by (auto simp: adopt_restored_def AdoptManagedPid_def bnd_Inr_iff Let_def split: if_splits option.splits)


lemma own: "(\<And>k. user_zone root u k \<Longrightarrow> request_zone root u k)"
  by (simp add: request_zone_def)

lemma run_worker_affects:
  assumes "owner_uid job = peer_uid peer" and "ValidateExtraArgs extra = Inr extra" and "fd < 2 ^ 31"
  shows "keeps (request_frame cfg root peer) (run_worker cfg root job c operation extra ns fd)"
  unfolding run_worker_def
proof (rule aff.lift_bnd_keeps)
  fix argv
  assume b: "BuildWorkerCommand cfg root job c operation extra ns fd = Inr argv"
  show "keeps (request_frame cfg root peer) (WaitForWorkerSuccess argv (worker_timeout_seconds cfg))"
  proof (rule WaitForWorkerSuccess_affects)
    show "request_event cfg root peer (SpawnEv argv)"
      unfolding request_event_def worker_argv_def event.case
      by (intro exI conjI) (rule assms(1), rule assms(3), rule assms(2), rule b)
    show "request_event cfg root peer (SignalEv t s)" for t s by (simp add: request_event_def)
    have zone: "request_zone root (peer_uid peer) k" if "Worker.ParseArgs argv = Inr wc" "worker_zone wc k" for wc k
      using worker_zone_user [OF b assms(3) that] assms(1) own by simp
    show "keeps (request_frame cfg root peer) (after_exec started argv)" for started
      by (rule after_exec_confined) (rule zone)
  qed
qed

lemma prune_quietly_frame: "(\<And>m. E (LogEv m)) \<Longrightarrow> keeps (affects P (retention_zone root) E) (prune_quietly cfg root job c)"
  unfolding prune_quietly_def by (intro aff_keeps log_event_affects keeps_affects [OF PruneCheckpoints_keeps])

lemma prune_quietly_affects: "keeps (request_frame cfg root peer) (prune_quietly cfg' root job c)"
  by (rule affects_weaken [OF prune_quietly_frame]) (auto simp: request_zone_def request_event_def)

lemma in_own_tree:
  assumes "owner_uid job = peer_uid peer"
  shows "keeps (outside (user_zone root (owner_uid job))) m \<Longrightarrow> keeps (request_frame cfg root peer) m"
  using in_user_zone [of root "owner_uid job" m] own assms by metis

lemma dump_done_affects:
  assumes "owner_uid job = peer_uid peer"
  shows "keeps (request_frame cfg root peer) (dump_done cfg root job c)"
proof -
  note mine = in_own_tree [of _ peer]
  have "keeps (request_frame cfg root peer) (ExportCheckpointArtifacts root (job\<lparr>latest_checkpoint := l\<rparr>) c)"
    "keeps (request_frame cfg root peer) (SaveJob root (job\<lparr>latest_checkpoint := l\<rparr>))"
    "keeps (request_frame cfg root peer) (SaveCheckpoint root job c)" for l c
    using mine [OF _ ExportCheckpointArtifacts_keeps] mine [OF _ keeps_user_zone(1)] mine [OF _ keeps_user_zone(2)] assms by simp_all
  then show ?thesis
    unfolding dump_done_def Let_def
    by (intro aff_keeps prune_quietly_affects keeps_affects [OF RefreshCheckpointSize_keeps])
qed

lemma run_dump_affects:
  assumes "owner_uid job = peer_uid peer" and "ValidateExtraArgs extra = Inr extra"
  shows "keeps (request_frame cfg root peer) (run_dump cfg root job c extra ns)"
  unfolding run_dump_def
  by (intro aff_keeps run_worker_affects assms dump_done_affects in_own_tree [OF assms(1)] owner_steps) simp

lemma checked_args: "ValidateExtraArgs xs = Inr ys \<Longrightarrow> ValidateExtraArgs ys = Inr ys"
  using ValidateExtraArgs_same by metis

lemma own_job_affects:
  assumes "\<And>job. owner_uid job = peer_uid peer \<Longrightarrow> keeps (request_frame cfg root peer) (f job)"
  shows "keeps (request_frame cfg root peer) (bnd (load_own_job root peer request) f)"
  by (rule aff.bnd_keeps_result [OF keeps_affects [OF load_own_job_keeps]]) (rule assms, erule load_own_job_Inr)

lemma live_job_affects:
  assumes "owner_uid job = peer_uid peer"
    and "\<And>job. owner_uid job = peer_uid peer \<Longrightarrow> keeps (request_frame cfg root peer) (f job)"
  shows "keeps (request_frame cfg root peer) (bnd (UpdateJobLiveness root job) f)"
  by (rule aff.bnd_keeps_result [OF in_own_tree [OF assms(1) UpdateJobLiveness_keeps]])
    (rule assms(2), simp add: UpdateJobLiveness_owner assms(1))

lemma extra_args_affects:
  assumes "\<And>xs. ValidateExtraArgs xs = Inr xs \<Longrightarrow> keeps (request_frame cfg root peer) (f xs)"
  shows "keeps (request_frame cfg root peer) (bnd (lift_sum (ValidateExtraArgs xs)) f)"
  by (rule aff.lift_bnd_keeps) (rule assms, erule checked_args)

lemma handle_checkpoint_affects: "keeps (request_frame cfg root peer) (handle_checkpoint cfg root peer request)"
  unfolding handle_checkpoint_def
  by (intro own_job_affects live_job_affects extra_args_affects run_dump_affects aff_keeps option_keeps
      keeps_affects [OF ProcessMatchesPeerSecurity_keeps] in_own_tree [OF _ CreateCheckpoint_keeps]
      in_own_tree [OF _ keeps_user_zone(2)]; assumption)

lemma handle_checkpoint_pid_affects: "keeps (request_frame cfg root peer) (handle_checkpoint_pid cfg root peer request)"
proof -
  have pid: "keeps (request_frame cfg root peer) (bnd (CreatePidOwnedJob root peer pid) f)"
    if "\<And>job. owner_uid job = peer_uid peer \<Longrightarrow> keeps (request_frame cfg root peer) (f job)" for pid f
    by (rule aff.bnd_keeps_result [OF in_user_zone [OF CreatePidOwnedJob_keeps]]) (erule own, rule that, erule CreatePidOwnedJob_Inr)
  show ?thesis
    unfolding handle_checkpoint_pid_def
    by (intro pid extra_args_affects run_dump_affects aff_keeps option_keeps
        keeps_affects [OF ProcessMatchesPeerSecurity_keeps] in_own_tree [OF _ CreateCheckpoint_keeps]
        in_own_tree [OF _ keeps_user_zone(2)]; assumption)
qed

lemma handle_status_affects: "keeps (request_frame cfg root peer) (handle_status root peer request)"
  unfolding handle_status_def by (intro own_job_affects live_job_affects aff_keeps; assumption)

lemma handle_run_affects: "keeps (request_frame cfg root peer) (handle_run root peer request)"
proof -
  have launch: "keeps (request_frame cfg root peer) (LaunchManagedJob peer argv cwd)" for argv cwd
    by (rule affects_stronger [OF LaunchManagedJob_affects]) (auto simp: request_event_def broker_ok_def)
  have create: "keeps (request_frame cfg root peer) (bnd (CreateJob (peer_uid peer) g p t e d l) f)"
    if "\<And>job. owner_uid job = peer_uid peer \<Longrightarrow> keeps (request_frame cfg root peer) (f job)" for g p t e d l f
    by (rule aff.bnd_keeps_result [OF keeps_affects [OF CreateJob_keeps]]) (rule that, erule CreateJob_Inr)
  show ?thesis
    unfolding handle_run_def Let_def
    by (intro create aff_keeps launch in_own_tree [OF _ keeps_user_zone(1)]; assumption)
qed

lemma handle_restore_affects:
  assumes "fd < 2 ^ 31"
  shows "keeps (request_frame cfg root peer) (handle_restore cfg root peer fd request)"
proof -
  have adopt: "keeps (request_frame cfg root peer) (bnd (adopt_restored root job c) (\<lambda>(job, c). f job c))"
    if "owner_uid job = peer_uid peer"
      "\<And>job c. owner_uid job = peer_uid peer \<Longrightarrow> keeps (request_frame cfg root peer) (f job c)" for job c f
    by (rule aff.bnd_keeps_result [OF in_own_tree [OF that(1) owner_steps(2)]])
      (auto intro!: that(2) simp: adopt_restored_owner that(1) split: prod.split)
  show ?thesis
    unfolding handle_restore_def
    by (intro own_job_affects extra_args_affects adopt aff_keeps run_worker_affects in_own_tree [OF _ owner_steps(1)]
        keeps_affects [OF owner_steps(3)] keeps_affects [OF LoadCheckpoint_keeps] prune_quietly_affects assms
        in_own_tree [OF _ ExportCheckpointArtifacts_keeps] in_own_tree [OF _ keeps_user_zone(2)]; assumption)
qed

lemma HandleRequest_affects:
  assumes "fd < 2 ^ 31"
  shows "keeps (request_frame cfg root peer) (HandleRequest request peer cfg root fd)"
  unfolding HandleRequest_def
  by (intro aff_keeps handle_run_affects handle_status_affects handle_checkpoint_affects
      handle_checkpoint_pid_affects handle_restore_affects assms)


lemma other_meta_apart: "v \<noteq> u \<Longrightarrow> \<not> request_zone root u (job_key root v j @ [''job.meta''])"
  using user_zones_apart [of root u "job_key root v j @ [''job.meta'']" v]
  by (auto simp: request_zone_def retention_zone_def metadata_zone_def layout_keys)

lemma outside_root_apart: "\<not> near (path_key root) k \<Longrightarrow> \<not> request_zone root u k"
  unfolding request_zone_def retention_zone_def user_zone_def metadata_zone_def near_def layout_keys
  using append_prefixD by (auto simp: prefix_append) 


section \<open>Malformed requests\<close>

definition allowed_fields :: "string \<Rightarrow> string list" where
  "allowed_fields cmd =
     (if cmd = ''run'' then [''arg'', ''cwd'']
      else if cmd = ''status'' then [''job_id'']
      else if cmd = ''checkpoint'' then [''job_id'', ''extra_arg'', ''namespace_dump'']
      else if cmd = ''checkpoint-pid'' then [''pid'', ''extra_arg'', ''namespace_dump'']
      else if cmd = ''restore'' then [''job_id'', ''checkpoint_id'', ''extra_arg'', ''namespace_restore'']
      else [])"

definition malformed :: "Message \<Rightarrow> bool" where
  "malformed m \<longleftrightarrow>
     command m \<notin> {''run'', ''status'', ''checkpoint'', ''checkpoint-pid'', ''restore''}
     \<or> list_ex (\<lambda>(k, _). k \<notin> set (allowed_fields (command m))) (msg_fields m)
     \<or> command m \<in> {''status'', ''checkpoint'', ''restore''} \<and> \<not> IsSafeId (Get m ''job_id'')
     \<or> command m = ''run'' \<and> (GetAll m ''arg'' = [] \<or> \<not> IsAbsolutePath (hd (GetAll m ''arg'')) \<or> \<not> IsAbsolutePath (Get m ''cwd''))"

lemma check_fields_Inl:
  "list_ex (\<lambda>(k, _). k \<notin> set allowed) fs \<Longrightarrow> \<exists>m. check_fields fs allowed = Inl (RuntimeError m)"
  by (induction fs) auto

lemma check_fields_result: "check_fields fs allowed = Inr () \<or> (\<exists>m. check_fields fs allowed = Inl (RuntimeError m))"
proof (induction fs)
  case (Cons f fs)
  then show ?case by (cases f; cases "fst f \<in> set allowed") auto
qed simp

lemma load_own_job_unsafe:
  "\<not> IsSafeId (Get m ''job_id'') \<Longrightarrow> \<exists>x. load_own_job root peer m w = (Inl (RuntimeError x), w)"
  by (simp add: load_own_job_def RequireSafeId_def bnd_apply Let_def)

lemma LaunchManagedJob_malformed:
  "args = [] \<or> \<not> IsAbsolutePath (hd args) \<or> \<not> IsAbsolutePath cwd \<Longrightarrow> \<exists>x. LaunchManagedJob peer args cwd w = (Inl (RuntimeError x), w)"
  by (auto simp: LaunchManagedJob_def)

text \<open>C22: A malformed request has no effect: an unknown command, a field the command does not know, a
  job id that is not a safe path component or a program or directory that is not absolute is
  answered with an error before anything is read, written or started.\<close>

theorem malformed_request_refused:
  assumes "malformed request"
  shows "\<exists>m. HandleRequest request peer cfg root fd w = (Inl (RuntimeError m), w)"
proof -
  consider (unknown) "command request \<notin> {''run'', ''status'', ''checkpoint'', ''checkpoint-pid'', ''restore''}"
    | (field) m where "command request \<in> {''run'', ''status'', ''checkpoint'', ''checkpoint-pid'', ''restore''}"
        "check_fields (msg_fields request) (allowed_fields (command request)) = Inl (RuntimeError m)"
    | (content) "command request \<in> {''status'', ''checkpoint'', ''restore''} \<and> \<not> IsSafeId (Get request ''job_id'')
        \<or> command request = ''run'' \<and> (GetAll request ''arg'' = [] \<or> \<not> IsAbsolutePath (hd (GetAll request ''arg'')) \<or> \<not> IsAbsolutePath (Get request ''cwd''))"
        "check_fields (msg_fields request) (allowed_fields (command request)) = Inr ()"
    using assms check_fields_Inl check_fields_result unfolding malformed_def by blast
  then show ?thesis
  proof cases
    case unknown
    then show ?thesis by (simp add: HandleRequest_def)
  next
    case (field m)
    then show ?thesis
      by (auto simp: HandleRequest_def handle_run_def handle_status_def handle_checkpoint_def handle_checkpoint_pid_def
          handle_restore_def ValidateAllowedFields_def allowed_fields_def bnd_apply)
  next
    case content
    then show ?thesis
      using load_own_job_unsafe [of request root peer w] LaunchManagedJob_malformed [of "GetAll request ''arg''" "Get request ''cwd''" peer w]
      by (auto simp: HandleRequest_def handle_run_def handle_status_def handle_checkpoint_def
          handle_restore_def ValidateAllowedFields_def allowed_fields_def bnd_apply Let_def)
  qed
qed


section \<open>The dump of a process\<close>

text \<open>A step that starts nothing: if the rest has the property, and it holds where nothing was started,
  then the whole has it.\<close>

lemma quiet_post:
  assumes "keeps (outside K) m" and "outside (\<lambda>_. True) w s" and "\<And>e s1. outside (\<lambda>_. True) w s1 \<Longrightarrow> Q (Inl e, s1)"
    and "\<And>x s1. m s = (Inr x, s1) \<Longrightarrow> outside (\<lambda>_. True) w s1 \<Longrightarrow> Q (f x s1)"
  shows "Q (bnd m f s)"
proof (rule bnd_post)
  have o: "outside (\<lambda>_. True) w s1" if "m s = (r, s1)" for r s1
    using out.frame_trans [OF assms(2) outside_mono [OF keeps_result [OF assms(1) that]]] by blast
  show "Q (Inl e, s1)" if "m s = (Inl e, s1)" for e s1 using assms(3) o [OF that] .
  show "Q (f x s1)" if "m s = (Inr x, s1)" for x s1 using assms(4) that o [OF that] .
qed

definition only_spawns :: "(string list \<Rightarrow> bool) \<Rightarrow> event \<Rightarrow> bool" where
  "only_spawns A e = (case e of SpawnEv argv \<Rightarrow> A argv | _ \<Rightarrow> True)"

abbreviation spawn_frame :: "(string list \<Rightarrow> bool) \<Rightarrow> world \<Rightarrow> world \<Rightarrow> bool" where
  "spawn_frame A \<equiv> affects (\<lambda>_. True) (\<lambda>_. True) (only_spawns A)"

lemma run_worker_spawns:
  "keeps (spawn_frame (\<lambda>a. BuildWorkerCommand cfg root job c operation extra ns fd = Inr a))
     (run_worker cfg root job c operation extra ns fd)"
  unfolding run_worker_def
proof (rule aff.lift_bnd_keeps)
  fix argv
  assume b: "BuildWorkerCommand cfg root job c operation extra ns fd = Inr argv"
  have "keeps (affects (\<lambda>_. True) (\<lambda>_. True) E) (after_exec started argv)" for started E
    unfolding after_exec_def run_program_def by (auto intro!: keepsI simp: affects_def)
  then show "keeps (spawn_frame (\<lambda>a. BuildWorkerCommand cfg root job c operation extra ns fd = Inr a))
      (WaitForWorkerSuccess argv (worker_timeout_seconds cfg))"
    by (intro WaitForWorkerSuccess_affects) (simp_all add: only_spawns_def b)
qed

lemma quiet_spawns: "keeps (outside K) m \<Longrightarrow> keeps (spawn_frame A) m"
  by (rule keeps_affects) (erule keeps_outside_mono, simp)

lemma run_dump_spawns:
  "keeps (spawn_frame (\<lambda>a. BuildWorkerCommand cfg root job c ''dump'' extra ns (- 1) = Inr a))
     (run_dump cfg root job c extra ns)"
proof -
  have prune: "keeps (spawn_frame A) (prune_quietly cfg root job c)" for A job c
    unfolding prune_quietly_def
    by (intro aff_keeps log_event_affects quiet_spawns [OF PruneCheckpoints_keeps]) (simp add: only_spawns_def)
  have tail: "keeps (spawn_frame A) (dump_done cfg root job c)" for A
    unfolding dump_done_def Let_def
    by (intro aff_keeps prune quiet_spawns [OF RefreshCheckpointSize_keeps] quiet_spawns [OF keeps_user_zone(1)]
        quiet_spawns [OF keeps_user_zone(2)] quiet_spawns [OF ExportCheckpointArtifacts_keeps])
  show ?thesis
    unfolding run_dump_def by (intro aff_keeps run_worker_spawns tail quiet_spawns [OF owner_steps(1)])
qed

text \<open>The worker \<open>argv\<close> dumps a process of the peer that passed the security check before anything was
  started.\<close>

definition dump_checked :: "DaemonConfig \<Rightarrow> path \<Rightarrow> PeerCred \<Rightarrow> world \<Rightarrow> string list \<Rightarrow> bool" where
  "dump_checked cfg root peer w argv \<longleftrightarrow> (\<exists>job c extra ns w1 w2.
     owner_uid job = peer_uid peer \<and> BuildWorkerCommand cfg root job c ''dump'' extra ns (- 1) = Inr argv
     \<and> ProcessMatchesPeerSecurity (job_pid job) (owner_uid job) (owner_gid job) (start_time_ticks job) w1 = (Inr None, w2)
     \<and> w_kernel w1 = w_kernel w \<and> w_tick w \<le> w_tick w1 \<and> w_trace w2 = w_trace w)"

definition spawns_checked :: "(world \<Rightarrow> string list \<Rightarrow> bool) \<Rightarrow> world \<Rightarrow> (exn + 'a) \<times> world \<Rightarrow> bool" where
  "spawns_checked A w z \<longleftrightarrow> (\<forall>evs. w_trace (snd z) = w_trace w @ evs \<longrightarrow> list_all (only_spawns (A w)) evs)"

lemma spawns_checked_quiet: "outside (\<lambda>_. True) w s1 \<Longrightarrow> spawns_checked A w (x, s1)"
  by (simp add: spawns_checked_def outside_def)

lemma checked_step:
  assumes "keeps (outside K) m" and "outside (\<lambda>_. True) w s"
    and "\<And>x s1. m s = (Inr x, s1) \<Longrightarrow> outside (\<lambda>_. True) w s1 \<Longrightarrow> spawns_checked A w (f x s1)"
  shows "spawns_checked A w (bnd m f s)"
  by (rule quiet_post [OF assms(1, 2)]) (auto intro: spawns_checked_quiet assms(3))

lemma run_dump_checked:
  assumes "outside (\<lambda>_. True) w s1" and "ProcessMatchesPeerSecurity (job_pid job) (owner_uid job) (owner_gid job) (start_time_ticks job) s1 = (Inr None, s2)"
    and "outside (\<lambda>_. True) w s" and "owner_uid job = peer_uid peer"
  shows "spawns_checked (dump_checked cfg root peer) w (run_dump cfg root job c extra ns s)"
proof -
  let ?A = "\<lambda>a. BuildWorkerCommand cfg root job c ''dump'' extra ns (- 1) = Inr a"
  have o2: "outside (\<lambda>_. True) w s2" using out.frame_trans [OF assms(1) keeps_result [OF ProcessMatchesPeerSecurity_keeps assms(2)]] .
  have checked: "dump_checked cfg root peer w a" if "?A a" for a
    unfolding dump_checked_def
    by (intro exI conjI, rule assms(4), rule that, rule assms(2)) (use assms(1) o2 in \<open>simp_all add: outside_def\<close>)
  have "spawn_frame ?A s (snd (run_dump cfg root job c extra ns s))" by (rule keepsD [OF run_dump_spawns])
  then obtain evs where "w_trace (snd (run_dump cfg root job c extra ns s)) = w_trace w @ evs" "\<forall>e\<in>set evs. only_spawns ?A e"
    using affects_trace [of "\<lambda>_. True" "\<lambda>_. True" "only_spawns ?A" s] assms(3) by (auto simp: outside_def)
  then show ?thesis
    using checked by (auto simp: spawns_checked_def list_all_iff only_spawns_def split: event.splits)
qed


lemma checked_dump:
  assumes "outside (\<lambda>_. True) w u" and "owner_uid job = peer_uid peer" and "outside (\<lambda>_. True) w s"
    and "ProcessMatchesPeerSecurity (job_pid job) (owner_uid job) (owner_gid job) (start_time_ticks job) u = (Inr None, s)"
  shows "spawns_checked (dump_checked cfg root peer) w (bnd (CreateCheckpoint root job) (\<lambda>c. bnd (SaveCheckpoint root job c) (\<lambda>_.
      bnd (lift_sum (ValidateExtraArgs xs)) (\<lambda>extra_args. run_dump cfg root job c extra_args ns))) s)"
  by (intro checked_step [OF CreateCheckpoint_keeps] checked_step [OF keeps_user_zone(2)]
      checked_step [OF out.lift_sum_keeps] run_dump_checked [OF assms(1, 4) _ assms(2)] assms(3); assumption)

lemma checkpoint_checked: "spawns_checked (dump_checked cfg root peer) w (handle_checkpoint cfg root peer request w)"
  unfolding handle_checkpoint_def
proof (rule checked_step [OF out.lift_sum_keeps out.frame_refl], rule checked_step [OF load_own_job_keeps], assumption,
    rule checked_step [OF UpdateJobLiveness_keeps], assumption)
  let ?Q = "spawns_checked (dump_checked cfg root peer) w"
  fix s1 job0 s2 job s3
  assume j0: "load_own_job root peer request s1 = (Inr job0, s2)" and j: "UpdateJobLiveness root job0 s2 = (Inr job, s3)"
    and o3: "outside (\<lambda>_. True) w s3"
  have own: "owner_uid job = peer_uid peer" using load_own_job_Inr [OF j0] UpdateJobLiveness_owner [OF j] by simp
  let ?check = "ProcessMatchesPeerSecurity (job_pid job) (owner_uid job) (owner_gid job) (start_time_ticks job)"
  let ?rest = "\<lambda>r. case r of
      Some reason \<Rightarrow> bnd (UpdateJobLiveness root job) (\<lambda>_.
        raise (RuntimeError (''managed job is not safe to checkpoint: '' @ reason)))
    | None \<Rightarrow> bnd (CreateCheckpoint root job) (\<lambda>c. bnd (SaveCheckpoint root job c) (\<lambda>_.
        bnd (lift_sum (ValidateExtraArgs (GetAll request ''extra_arg''))) (\<lambda>extra_args.
        run_dump cfg root job c extra_args (MessageFlagEnabled request ''namespace_dump''))))"
  have "?Q (bnd ?check ?rest s3)"
  proof (rule checked_step [OF ProcessMatchesPeerSecurity_keeps o3])
    fix r s4
    assume c: "?check s3 = (Inr r, s4)" and o4: "outside (\<lambda>_. True) w s4"
    have refused: "?Q (bnd (UpdateJobLiveness root job) (\<lambda>_. raise e) s4)" for e :: exn
      by (rule checked_step [OF UpdateJobLiveness_keeps o4]) (simp add: spawns_checked_quiet)
    show "?Q (?rest r s4)"
      using checked_dump [OF o3 own o4] c refused by (cases r) auto
  qed
  then show "?Q ((if job_state job \<noteq> ''running'' then raise (RuntimeError ''cannot checkpoint a non-running managed job'')
      else bnd ?check ?rest) s3)"
    by (simp add: spawns_checked_quiet [OF o3])
qed

lemma checkpoint_pid_checked: "spawns_checked (dump_checked cfg root peer) w (handle_checkpoint_pid cfg root peer request w)"
  unfolding handle_checkpoint_pid_def
proof (rule checked_step [OF out.lift_sum_keeps out.frame_refl],
    rule checked_step [OF out.lift_sum_keeps], assumption,
    rule checked_step [OF CreatePidOwnedJob_keeps], assumption)
  fix pid s1 s2 and job :: JobRecord
  let ?Q = "spawns_checked (dump_checked cfg root peer) w"
  let ?check = "ProcessMatchesPeerSecurity (job_pid job) (owner_uid job) (owner_gid job) (start_time_ticks job)"
  assume j: "CreatePidOwnedJob root peer (word_of_int pid) s1 = (Inr job, s2)" and o2: "outside (\<lambda>_. True) w s2"
  have own: "owner_uid job = peer_uid peer" using j by (rule CreatePidOwnedJob_Inr)
  have check: "?Q (bnd ?check (\<lambda>r. case r of
       Some reason \<Rightarrow> raise (RuntimeError (''checkpoint target is not safe to checkpoint: '' @ reason))
     | None \<Rightarrow> run_dump cfg root job c extra (MessageFlagEnabled request ''namespace_dump'')) s)" if o: "outside (\<lambda>_. True) w s" for c extra s
  proof (rule checked_step [OF ProcessMatchesPeerSecurity_keeps o])
    fix r s'
    assume "?check s = (Inr r, s')" and "outside (\<lambda>_. True) w s'"
    then show "?Q ((case r of Some reason \<Rightarrow> raise (RuntimeError (''checkpoint target is not safe to checkpoint: '' @ reason))
     | None \<Rightarrow> run_dump cfg root job c extra (MessageFlagEnabled request ''namespace_dump'')) s')"
      using run_dump_checked [OF o _ _ own] by (cases r) (auto simp: spawns_checked_quiet)
  qed
  show "?Q (bnd (CreateCheckpoint root job) (\<lambda>c. bnd (SaveCheckpoint root job c) (\<lambda>_.
      bnd (lift_sum (ValidateExtraArgs (GetAll request ''extra_arg''))) (\<lambda>extra_args. bnd ?check (\<lambda>r. case r of
       Some reason \<Rightarrow> raise (RuntimeError (''checkpoint target is not safe to checkpoint: '' @ reason))
     | None \<Rightarrow> run_dump cfg root job c extra_args (MessageFlagEnabled request ''namespace_dump''))))) s2)"
    by (intro checked_step [OF CreateCheckpoint_keeps] checked_step [OF keeps_user_zone(2)]
        checked_step [OF out.lift_sum_keeps] check o2; assumption)
qed

text \<open>C3: A process is dumped only after it was checked: every worker that a \<^verbatim>\<open>checkpoint\<close> or
  \<^verbatim>\<open>checkpoint-pid\<close> request starts, whatever fails, dumps the process of a job of the peer that was
  found with its recorded start time, uids, gids and without capabilities during this request,
  before anything else was started.\<close>

theorem dump_after_check:
  assumes "HandleRequest request peer cfg root fd w = (r, w')" and "command request \<in> {''checkpoint'', ''checkpoint-pid''}"
    and "w_trace w' = w_trace w @ evs" and "SpawnEv argv \<in> set evs"
  shows "\<exists>job c extra ns w1 w2. owner_uid job = peer_uid peer
     \<and> BuildWorkerCommand cfg root job c ''dump'' extra ns (- 1) = Inr argv
     \<and> ProcessMatchesPeerSecurity (job_pid job) (owner_uid job) (owner_gid job) (start_time_ticks job) w1 = (Inr None, w2)
     \<and> w_kernel w1 = w_kernel w \<and> w_tick w \<le> w_tick w1 \<and> w_trace w2 = w_trace w"
proof -
  have "spawns_checked (dump_checked cfg root peer) w (r, w')"
    using assms(2) checkpoint_checked [of cfg root peer w request] checkpoint_pid_checked [of cfg root peer w request]
    unfolding assms(1) [symmetric] HandleRequest_def by auto
  then have "dump_checked cfg root peer w argv"
    using assms(3, 4) by (auto simp: spawns_checked_def list_all_iff only_spawns_def)
  then show ?thesis unfolding dump_checked_def .
qed


section \<open>What is on disk after a request\<close>

abbreviation meta_key :: "path \<Rightarrow> JobRecord \<Rightarrow> key" where
  "meta_key root job \<equiv> job_key root (owner_uid job) (job_id job) @ [''job.meta'']"

lemma meta_apart:
  "\<not> export_zone root u (job_key root v j @ [''job.meta''])"
  "\<not> retention_zone root (job_key root v j @ [''job.meta''])"
  "\<not> prefix (job_key root v j @ [''job.meta'']) (checkpoint_key root v' j' c @ [''checkpoint.meta''])"
  "\<not> export_zone root u (checkpoint_key root v j c @ [''checkpoint.meta''])"
  by (auto simp: near_def retention_zone_def metadata_zone_def layout_keys prefix_append Cons_prefix_Cons)

lemma prune_keeps_meta:
  assumes "prune_quietly cfg root job c w = (r, w')"
  shows "fs_get (w_files w') (job_key root v j @ [''job.meta'']) = fs_get (w_files w) (job_key root v j @ [''job.meta''])"
    and "w_kernel w' = w_kernel w"
proof -
  have a: "affects (\<lambda>_. True) (retention_zone root) (\<lambda>_. True) w w'"
    by (rule keeps_result [OF prune_quietly_frame assms]) simp
  show "fs_get (w_files w') (job_key root v j @ [''job.meta'']) = fs_get (w_files w) (job_key root v j @ [''job.meta''])"
    by (rule affects_files [OF a]) (simp_all add: meta_apart)
  show "w_kernel w' = w_kernel w" using a by (simp add: affects_def)
qed

lemma export_keeps_meta:
  assumes "ExportCheckpointArtifacts root job c w = (r, w')"
  shows "fs_get (w_files w') (job_key root v j @ [''job.meta'']) = fs_get (w_files w) (job_key root v j @ [''job.meta''])"
    and "fs_get (w_files w') (checkpoint_key root v j d @ [''checkpoint.meta'']) = fs_get (w_files w) (checkpoint_key root v j d @ [''checkpoint.meta''])"
  using outside_files [OF keeps_result [OF ExportCheckpointArtifacts_zone assms]] meta_apart by blast+

lemma save_checkpoint_keeps_meta:
  assumes "SaveCheckpoint root job c w = (r, w')"
  shows "fs_get (w_files w') (job_key root v j @ [''job.meta'']) = fs_get (w_files w) (job_key root v j @ [''job.meta''])"
proof -
  have "keeps (outside (\<lambda>k. prefix k (checkpoint_key root (owner_uid job) (job_id job) (checkpoint_id c) @ [''checkpoint.meta''])))
      (SaveCheckpoint root job c)"
    by (rule SaveCheckpoint_keeps) simp
  from outside_files [OF keeps_result [OF this assms]] show ?thesis using meta_apart(3) by blast
qed

lemma dump_done_InrE:
  assumes "dump_done cfg root job c w = (Inr resp, w')"
  obtains c' s1 s2 ed where "checkpoint_id c' = checkpoint_id c"
    and "SaveJob root (job\<lparr>latest_checkpoint := checkpoint_id c\<rparr>) s1 = (Inr (), s2)"
    and "fs_get (w_files w') (meta_key root job) = fs_get (w_files s2) (meta_key root job)"
    and "resp = CheckpointSuccessResponse (job\<lparr>latest_checkpoint := checkpoint_id c\<rparr>) c' ed"
proof -
  let ?job = "job\<lparr>latest_checkpoint := checkpoint_id c\<rparr>"
  obtain c' a b d e ed where a: "RefreshCheckpointSize root job (c\<lparr>ck_state := ''ready''\<rparr>) w = (Inr c', a)"
    and b: "SaveCheckpoint root job c' a = (Inr (), b)" and d: "SaveJob root (job\<lparr>latest_checkpoint := checkpoint_id c'\<rparr>) b = (Inr (), d)"
    and e: "ExportCheckpointArtifacts root (job\<lparr>latest_checkpoint := checkpoint_id c'\<rparr>) c' d = (Inr ed, e)"
    and f: "prune_quietly cfg root (job\<lparr>latest_checkpoint := checkpoint_id c'\<rparr>) c' e = (Inr (), w')"
    and resp: "resp = CheckpointSuccessResponse (job\<lparr>latest_checkpoint := checkpoint_id c'\<rparr>) c' ed"
    using assms by (auto simp: dump_done_def bnd_Inr_iff Let_def)
  have "checkpoint_id c' = checkpoint_id c" using a by (auto simp: RefreshCheckpointSize_def bnd_Inr_iff)
  then show ?thesis using that d resp export_keeps_meta(1) [OF e] prune_keeps_meta(1) [OF f] by simp
qed

lemma run_dump_InrE:
  assumes "run_dump cfg root job c extra ns w = (Inr resp, w')"
  obtains w1 where "run_worker cfg root job c ''dump'' extra ns (- 1) w = (Inr (), w1)" and "dump_done cfg root job c w1 = (Inr resp, w')"
  using assms by (auto simp: run_dump_def catch_exn_def bnd_def worker_failed_def split: prod.splits sum.splits)

lemma handle_dump_InrE:
  assumes "HandleRequest request peer cfg root fd w = (Inr resp, w')" and "command request \<in> {''checkpoint'', ''checkpoint-pid''}"
  obtains job c extra ns w1 where "owner_uid job = peer_uid peer" and "w_kernel w1 = w_kernel w"
    and "run_dump cfg root job c extra ns w1 = (Inr resp, w')"
proof -
  have "command request = ''checkpoint'' \<or> command request = ''checkpoint-pid''" using assms(2) by simp
  then show ?thesis
  proof
    assume "command request = ''checkpoint''"
    then have h: "handle_checkpoint cfg root peer request w = (Inr resp, w')" using assms(1) by (simp add: HandleRequest_def)
    obtain job0 job c extra a b d e f where a: "load_own_job root peer request w = (Inr job0, a)"
      and b: "UpdateJobLiveness root job0 a = (Inr job, b)"
      and d: "ProcessMatchesPeerSecurity (job_pid job) (owner_uid job) (owner_gid job) (start_time_ticks job) b = (Inr None, d)"
      and e: "CreateCheckpoint root job d = (Inr c, e)" and f: "SaveCheckpoint root job c e = (Inr (), f)"
      and g: "run_dump cfg root job c extra (MessageFlagEnabled request ''namespace_dump'') f = (Inr resp, w')"
      using h by (auto simp: handle_checkpoint_def bnd_Inr_iff split: if_splits option.splits)
    have "w_kernel f = w_kernel w"
      using outside_kernel [OF keeps_result [OF load_own_job_keeps a]] outside_kernel [OF keeps_result [OF UpdateJobLiveness_keeps b]]
        outside_kernel [OF keeps_result [OF ProcessMatchesPeerSecurity_keeps d]] outside_kernel [OF keeps_result [OF CreateCheckpoint_keeps e]]
        outside_kernel [OF keeps_result [OF keeps_user_zone(2) f]] by simp
    moreover have "owner_uid job = peer_uid peer" using load_own_job_Inr [OF a] UpdateJobLiveness_owner [OF b] by simp
    ultimately show ?thesis using that g by blast
  next
    assume "command request = ''checkpoint-pid''"
    then have h: "handle_checkpoint_pid cfg root peer request w = (Inr resp, w')" using assms(1) by (simp add: HandleRequest_def)
    obtain pid job c extra b d e f where b: "CreatePidOwnedJob root peer pid w = (Inr job, b)"
      and d: "CreateCheckpoint root job b = (Inr c, d)" and e: "SaveCheckpoint root job c d = (Inr (), e)"
      and f: "ProcessMatchesPeerSecurity (job_pid job) (owner_uid job) (owner_gid job) (start_time_ticks job) e = (Inr None, f)"
      and g: "run_dump cfg root job c extra (MessageFlagEnabled request ''namespace_dump'') f = (Inr resp, w')"
      using h by (auto simp: handle_checkpoint_pid_def bnd_Inr_iff split: if_splits option.splits)
    have "w_kernel f = w_kernel w"
      using outside_kernel [OF keeps_result [OF CreatePidOwnedJob_keeps b]] outside_kernel [OF keeps_result [OF CreateCheckpoint_keeps d]]
        outside_kernel [OF keeps_result [OF keeps_user_zone(2) e]] outside_kernel [OF keeps_result [OF ProcessMatchesPeerSecurity_keeps f]] by simp
    then show ?thesis using that g CreatePidOwnedJob_Inr [OF b] by blast
  qed
qed

lemma worker_success:
  assumes "run_worker cfg root job c operation extra ns fd w = (Inr (), w')"
  shows "\<exists>t t'. k_wait (w_kernel w) t (k_fork (w_kernel w) t') = Some (Exited 0)"
proof -
  obtain argv where "WaitForWorkerSuccess argv (worker_timeout_seconds cfg) w = (Inr (), w')"
    using assms by (auto simp: run_worker_def bnd_Inr_iff)
  then show ?thesis
  proof (cases rule: WaitForWorkerSuccess_cases)
    case (forked t b w1)
    then show ?thesis using wait_loop_result [OF forked(2), of 0] by (auto simp: instant_def)
  qed simp
qed

text \<open>C9: A checkpoint that is reported as done is done: the worker exited with 0, and the job of the
  response, loaded for the peer from disk after the request and the pruning it ended with, has the
  checkpoint of the response as its latest.\<close>

theorem checkpoint_is_latest:
  assumes run: "HandleRequest request peer cfg root fd w = (Inr resp, w')"
    and cmd: "command request \<in> {''checkpoint'', ''checkpoint-pid''}"
    and calm: "faultless w'" and root: "take 1 (path_key root) \<noteq> [''proc'']"
  shows "command resp = ''ok''
    \<and> (\<exists>t t'. k_wait (w_kernel w) t (k_fork (w_kernel w) t') = Some (Exited 0))
    \<and> (\<exists>job v. LoadJob root (peer_uid peer) (Get resp ''job_id'') w' = (Inr job, v)
        \<and> latest_checkpoint job = Get resp ''checkpoint_id'' \<and> owner_uid job = peer_uid peer)"
proof -
  obtain job c extra ns w1 where own: "owner_uid job = peer_uid peer" and k: "w_kernel w1 = w_kernel w"
    and dump: "run_dump cfg root job c extra ns w1 = (Inr resp, w')"
    by (rule handle_dump_InrE [OF run cmd]) (rule that)
  obtain w2 where worker: "run_worker cfg root job c ''dump'' extra ns (- 1) w1 = (Inr (), w2)"
    and tail: "dump_done cfg root job c w2 = (Inr resp, w')"
    by (rule run_dump_InrE [OF dump]) (rule that)
  let ?job = "job\<lparr>latest_checkpoint := checkpoint_id c\<rparr>"
  obtain c' s1 s2 ed where c': "checkpoint_id c' = checkpoint_id c" and save: "SaveJob root ?job s1 = (Inr (), s2)"
    and same: "fs_get (w_files w') (meta_key root job) = fs_get (w_files s2) (meta_key root job)"
    and resp: "resp = CheckpointSuccessResponse ?job c' ed"
    by (rule dump_done_InrE [OF tail]) (rule that)
  have "\<exists>v. LoadJob root (owner_uid ?job) (job_id ?job) w' = (Inr ?job, v)"
    by (rule load_saved_job [OF save _ calm root]) (use same in simp)
  moreover have "command resp = ''ok''" "Get resp ''job_id'' = job_id job" "Get resp ''checkpoint_id'' = checkpoint_id c"
    using c' by (simp_all add: resp CheckpointSuccessResponse_def ok_response_def Get_def)
  ultimately show ?thesis using worker_success [OF worker] own k by auto
qed


lemma record_failure_InrE:
  assumes "record_failure root job c state w = (Inr (c', ed), w')"
  obtains s1 s2 where "checkpoint_id c' = checkpoint_id c" and "ck_state c' = state"
    and "SaveCheckpoint root job c' s1 = (Inr (), s2)"
    and "fs_get (w_files w') (checkpoint_key root (owner_uid job) (job_id job) (checkpoint_id c') @ [''checkpoint.meta''])
      = fs_get (w_files s2) (checkpoint_key root (owner_uid job) (job_id job) (checkpoint_id c') @ [''checkpoint.meta''])"
proof -
  obtain s1 s2 where a: "RefreshCheckpointSize root job (c\<lparr>ck_state := state\<rparr>) w = (Inr c', s1)"
    and b: "SaveCheckpoint root job c' s1 = (Inr (), s2)" and d: "ExportCheckpointArtifacts root job c' s2 = (Inr ed, w')"
    using assms by (auto simp: record_failure_def bnd_Inr_iff)
  have "checkpoint_id c' = checkpoint_id c" "ck_state c' = state"
    using a by (auto simp: RefreshCheckpointSize_def bnd_Inr_iff)
  then show ?thesis using that b export_keeps_meta(2) [OF d] by blast
qed

lemma record_failure_keeps_meta:
  assumes "record_failure root job c state w = (r, w')"
  shows "fs_get (w_files w') (job_key root v j @ [''job.meta'']) = fs_get (w_files w) (job_key root v j @ [''job.meta''])"
proof -
  let ?K = "\<lambda>k. k \<noteq> job_key root v j @ [''job.meta'']"
  have save: "keeps (outside ?K) (SaveCheckpoint root job c')" for c'
    by (rule SaveCheckpoint_keeps) (metis meta_apart(3))
  have export: "keeps (outside ?K) (ExportCheckpointArtifacts root job c')" for c'
    by (rule keeps_outside_mono [OF ExportCheckpointArtifacts_zone]) (use meta_apart(1) in blast)
  have "keeps (outside ?K) (record_failure root job c state)"
    unfolding record_failure_def by (intro save export frame_intros)
  from outside_files [OF keeps_result [OF this assms]] show ?thesis by blast
qed

text \<open>C18: A dump that failed is reported and recorded, and never becomes the latest: when the worker
  could not be started, failed or timed out, the request ends with an exception and the job record
  stays as it was; unless recording itself fails, the exception is the \<^verbatim>\<open>checkpoint_failed\<close> error that
  names the checkpoint, and its record on disk has the state \<^verbatim>\<open>failed\<close>.\<close>

theorem failed_dump_recorded:
  assumes worker: "run_worker cfg root job c ''dump'' extra ns (- 1) w = (Inl x, w1)"
    and run: "run_dump cfg root job c extra ns w = (r, w')"
    and calm: "faultless w'" and root: "take 1 (path_key root) \<noteq> [''proc'']"
  shows "isl r
    \<and> fs_get (w_files w') (meta_key root job) = fs_get (w_files w1) (meta_key root job)
    \<and> (case record_failure root job c ''failed'' w1 of
         (Inl e, _) \<Rightarrow> r = Inl e
       | (Inr (c', ed), _) \<Rightarrow> r = Inl (dump_error job x c' ed) \<and> ck_state c' = ''failed''
           \<and> (\<exists>v. LoadCheckpoint root job (checkpoint_id c) w' = (Inr c', v)))"
proof -
  obtain q w2 where q: "record_failure root job c ''failed'' w1 = (q, w2)" by (cases "record_failure root job c ''failed'' w1")
  have r: "w' = w2 \<and> r = (case q of Inl e \<Rightarrow> Inl e | Inr (c', ed) \<Rightarrow> Inl (dump_error job x c' ed))"
    using run worker q by (auto simp: run_dump_def catch_exn_def bnd_def worker_failed_def split: sum.splits prod.splits)
  have meta: "fs_get (w_files w') (meta_key root job) = fs_get (w_files w1) (meta_key root job)"
    using record_failure_keeps_meta [OF q] r by simp
  show ?thesis
  proof (cases q)
    case (Inl e)
    then show ?thesis using meta r q by simp
  next
    case (Inr p)
    obtain c' ed where p: "p = (c', ed)" by (cases p)
    obtain s1 s2 where c': "checkpoint_id c' = checkpoint_id c" "ck_state c' = ''failed''"
      and save: "SaveCheckpoint root job c' s1 = (Inr (), s2)"
      and same: "fs_get (w_files w2) (checkpoint_key root (owner_uid job) (job_id job) (checkpoint_id c') @ [''checkpoint.meta''])
        = fs_get (w_files s2) (checkpoint_key root (owner_uid job) (job_id job) (checkpoint_id c') @ [''checkpoint.meta''])"
      by (rule record_failure_InrE [OF q [unfolded Inr p]]) (rule that)
    have "\<exists>v. LoadCheckpoint root job (checkpoint_id c') w' = (Inr c', v)"
      by (rule load_saved_checkpoint [OF save _ calm root]) (use same r in simp)
    then show ?thesis using meta r q Inr p c' by simp
  qed
qed

section \<open>The restored process\<close>

lemma adopt_restored_InrE:
  assumes "adopt_restored root job c w = (Inr (job', c'), w')" and "restored_pid c' \<noteq> []"
  obtains s1 s2 s3 where "w_kernel s1 = w_kernel w"
    and "ProcessMatchesPeerSecurity (job_pid job') (owner_uid job') (owner_gid job') (start_time_ticks job') s1 = (Inr None, s2)"
    and "SaveJob root job' s3 = (Inr (), w')" and "job_state job' = ''running''" and "owner_uid job' = owner_uid job"
proof -
  obtain p a str b pid e where a: "PathExists p w = (Inr True, a)" and b: "ReadTextFile p a = (Inr str, b)"
    and adopt: "AdoptManagedPid job pid b = (Inr job', e)" and save: "SaveJob root job' e = (Inr (), w')"
    using assms by (auto simp: adopt_restored_def bnd_Inr_iff Let_def split: if_splits)
  obtain i s1 where i: "ReadProcessIdentity pid b = (Inr i, s1)"
    and check: "ProcessMatchesPeerSecurity (id_pid i) (owner_uid job) (owner_gid job) (id_ticks i) s1 = (Inr None, e)"
    and job': "job' = job\<lparr>job_pid := id_pid i, start_time_ticks := id_ticks i, job_state := ''running''\<rparr>"
    using adopt by (auto simp: AdoptManagedPid_def bnd_Inr_iff split: option.splits)
  have "w_kernel s1 = w_kernel w"
    using outside_kernel [OF keeps_result [OF PathExists_keeps a]] outside_kernel [OF keeps_result [OF ReadTextFile_keeps b]]
      outside_kernel [OF keeps_result [OF ReadProcessIdentity_keeps i]] by simp
  then show ?thesis using that check save job' by simp
qed

lemma handle_restore_InrE:
  assumes "handle_restore cfg root peer fd request w = (Inr resp, w')"
  obtains job c job' c' s1 s2 where "owner_uid job = peer_uid peer" and "w_kernel s1 = w_kernel w"
    and "adopt_restored root job c s1 = (Inr (job', c'), s2)"
    and "fs_get (w_files w') (meta_key root job') = fs_get (w_files s2) (meta_key root job')"
    and "command resp = ''ok''" and "Get resp ''job_id'' = job_id job'" and "Get resp ''restored_pid'' = restored_pid c'"
proof -
  obtain job c cid extra a b d e f g h job' c' c'' ed
    where a: "load_own_job root peer request w = (Inr job, a)" and b: "LoadCheckpoint root job cid a = (Inr c, b)"
      and d: "catch_exn (run_worker cfg root job c ''restore'' extra (MessageFlagEnabled request ''namespace_restore'') fd)
        (\<lambda>x. worker_failed root job c ''restore-failed'' (restore_error job x)) b = (Inr (), d)"
      and e: "adopt_restored root job c d = (Inr (job', c'), e)"
      and f: "TouchCheckpointRestoreUsage root job' (c'\<lparr>ck_state := ''restored''\<rparr>) e = (Inr c'', f)"
      and g: "SaveCheckpoint root job' c'' f = (Inr (), g)" and h: "ExportCheckpointArtifacts root job' c'' g = (Inr ed, h)"
      and p: "prune_quietly cfg root job' c'' h = (Inr (), w')"
      and resp: "resp = ok_response [(''job_id'', job_id job'), (''checkpoint_id'', checkpoint_id c''),
        (''restored_pid'', restored_pid c''), (''restore_log'', exported_log ed ''restore.log'')]"
    using assms by (auto simp: handle_restore_def bnd_Inr_iff)
  have kd: "w_kernel d = w_kernel b"
  proof -
    have "keeps (spawn_frame (\<lambda>_. True)) (run_worker cfg root job c ''restore'' extra (MessageFlagEnabled request ''namespace_restore'') fd)"
      by (rule affects_weaken [OF run_worker_spawns]) (simp_all add: only_spawns_def split: event.split)
    then have "keeps (spawn_frame (\<lambda>_. True)) (catch_exn (run_worker cfg root job c ''restore'' extra (MessageFlagEnabled request ''namespace_restore'') fd)
        (\<lambda>x. worker_failed root job c ''restore-failed'' (restore_error job x)))"
      by (intro aff_keeps quiet_spawns [OF owner_steps(1)])
    from keeps_result [OF this d] show ?thesis by (simp add: affects_def)
  qed
  have k: "w_kernel d = w_kernel w"
    using outside_kernel [OF keeps_result [OF load_own_job_keeps a]] outside_kernel [OF keeps_result [OF LoadCheckpoint_keeps b]] kd by simp
  have m: "fs_get (w_files w') (meta_key root job') = fs_get (w_files e) (meta_key root job')"
    using outside_none [OF keeps_result [OF owner_steps(3) f]] save_checkpoint_keeps_meta [OF g]
      export_keeps_meta(1) [OF h] prune_keeps_meta(1) [OF p] by simp
  have "restored_pid c'' = restored_pid c'"
    using f by (auto simp: TouchCheckpointRestoreUsage_def RefreshCheckpointSize_def bnd_Inr_iff)
  then have "command resp = ''ok''" "Get resp ''job_id'' = job_id job'" "Get resp ''restored_pid'' = restored_pid c'"
    by (simp_all add: resp ok_response_def Get_def)
  then show ?thesis using that [OF load_own_job_Inr [OF a] k e m] by blast
qed

text \<open>C6: A restore adopts only a process that was checked: when a restore is reported as done with a
  restored pid, the job of the response is on disk, for the peer, in the state \<^verbatim>\<open>running\<close>, and its
  process and start time are those of a process that during this request was found in exactly the
  unprivileged state of the job's owner.\<close>

theorem restore_adopts_checked:
  assumes run: "HandleRequest request peer cfg root fd w = (Inr resp, w')" and cmd: "command request = ''restore''"
    and pid: "Get resp ''restored_pid'' \<noteq> []"
    and calm: "faultless w'" and root: "take 1 (path_key root) \<noteq> [''proc'']"
  shows "\<exists>job v w1 w2. LoadJob root (peer_uid peer) (Get resp ''job_id'') w' = (Inr job, v) \<and> job_state job = ''running''
    \<and> owner_uid job = peer_uid peer \<and> w_kernel w1 = w_kernel w
    \<and> ProcessMatchesPeerSecurity (job_pid job) (owner_uid job) (owner_gid job) (start_time_ticks job) w1 = (Inr None, w2)"
proof -
  have h: "handle_restore cfg root peer fd request w = (Inr resp, w')" using run cmd by (simp add: HandleRequest_def)
  obtain job0 c job c' s1 s2 where own: "owner_uid job0 = peer_uid peer" and k: "w_kernel s1 = w_kernel w"
    and adopt: "adopt_restored root job0 c s1 = (Inr (job, c'), s2)"
    and same: "fs_get (w_files w') (meta_key root job) = fs_get (w_files s2) (meta_key root job)"
    and resp: "Get resp ''job_id'' = job_id job" "Get resp ''restored_pid'' = restored_pid c'"
    by (rule handle_restore_InrE [OF h]) (rule that)
  have ne: "restored_pid c' \<noteq> []" using pid resp by simp
  obtain v1 v2 v3 where kv: "w_kernel v1 = w_kernel s1"
    and check: "ProcessMatchesPeerSecurity (job_pid job) (owner_uid job) (owner_gid job) (start_time_ticks job) v1 = (Inr None, v2)"
    and save: "SaveJob root job v3 = (Inr (), s2)" and st: "job_state job = ''running''" "owner_uid job = owner_uid job0"
    by (rule adopt_restored_InrE [OF adopt ne]) (rule that)
  have "\<exists>v. LoadJob root (owner_uid job) (job_id job) w' = (Inr job, v)"
    by (rule load_saved_job [OF save _ calm root]) (use same in simp)
  then obtain v where "LoadJob root (peer_uid peer) (Get resp ''job_id'') w' = (Inr job, v)" using resp st own by auto
  then show ?thesis using st own kv k check
    by (intro exI [of _ job] exI [of _ v] exI [of _ v1] exI [of _ v2] conjI) simp_all
qed

section \<open>Sample requests\<close>

text \<open>User 7 has the job \<^verbatim>\<open>j\<close> with the live process 42. A directory of user 0 whose name is not a job id
  makes every pruning fail, which the broker only logs; a worker leaves nothing but directories.\<close>

definition small_job :: JobRecord where
  "small_job = sample_job\<lparr>job_id := ''j'', executable := ''/x'', command_line := ''x'', latest_checkpoint := []\<rparr>"

definition small_checkpoint :: CheckpointRecord where
  "small_checkpoint = \<lparr>checkpoint_id = ''c'', ck_job_id = ''j'', ck_state = ''created'', ck_created_at = ''6'',
     last_restored_at = [], restore_count = ''0'', size_bytes = ''0'', dump_log = ''d'', restore_log = ''r'', restored_pid = []\<rparr>"

definition small_config :: DaemonConfig where
  "small_config = sample_config\<lparr>worker_path := ''/w'', criu_bin := ''/c'', criu_ns_bin := ''/n'', worker_timeout_seconds := 1\<rparr>"

definition small_proc :: "nat \<Rightarrow> key \<Rightarrow> string option" where
  "small_proc t k = k_proc (w_kernel sample_proc) t k"

definition small_spawn :: "nat \<Rightarrow> string list \<Rightarrow> tree \<Rightarrow> tree" where
  "small_spawn t argv tr = filter (\<lambda>(k, n). n_kind n = Directory \<and> length k < 6) tr"

definition small_broker :: world where
  "small_broker = sample_proc\<lparr>w_kernel := (w_kernel sample_proc)\<lparr>k_proc := small_proc, k_spawn := small_spawn\<rparr>,
     w_files := (let j = [''s'', ''7'', ''jobs'', ''j''] in
     [([''s''], sample_dir), ([''s'', ''0''], sample_dir), ([''s'', ''0'', ''jobs''], sample_dir), ([''s'', ''0'', ''jobs'', ''~''], sample_dir),
      ([''s'', ''7''], sample_dir), ([''s'', ''7'', ''jobs''], sample_dir), (j, sample_dir),
      (j @ [''job.meta''], sample_file (job_data small_job))])\<rparr>"

definition small_restore :: world where
  "small_restore = sample_proc\<lparr>w_kernel := (w_kernel sample_proc)\<lparr>k_proc := small_proc\<rparr>,
     w_files := w_files small_broker @ (let c = [''s'', ''7'', ''jobs'', ''j'', ''checkpoints''] in
     [(c, sample_dir), (c @ [''c''], sample_dir),
      (c @ [''c'', ''checkpoint.meta''], sample_file (checkpoint_data small_checkpoint)),
      (c @ [''c'', ''restore.pid''], sample_dir\<lparr>n_kind := Regular, n_data := ''42'' @ [NL]\<rparr>)])\<rparr>"

text \<open>A machine on which no process can be forked.\<close>

definition sample_refused :: world where
  "sample_refused = sample_world\<lparr>w_script := [Fail 11]\<rparr>"

abbreviation dump_request :: Message where
  "dump_request \<equiv> \<lparr>command = ''checkpoint'', msg_fields = [(''job_id'', ''j'')]\<rparr>"

abbreviation restore_request :: Message where
  "restore_request \<equiv> \<lparr>command = ''restore'', msg_fields = [(''job_id'', ''j''), (''checkpoint_id'', ''c'')]\<rparr>"

abbreviation run_request :: Message where
  "run_request \<equiv> \<lparr>command = ''run'', msg_fields = [(''arg'', ''/bin/job''), (''cwd'', ''/'')]\<rparr>"

section \<open>Witnesses\<close>


theorem malformed_request_refused_witness:
  "\<exists>m. HandleRequest \<lparr>command = ''status'', msg_fields = [(''job_id'', ''../9'')]\<rparr> sample_peer small_config ''/s'' (- 1) sample_launch
     = (Inl (RuntimeError m), sample_launch)"
  by (rule malformed_request_refused) code_simp


definition core :: "world \<Rightarrow> tree \<times> sysres list \<times> nat \<times> nat \<times> event list" where
  "core w = (w_files w, w_script w, w_tick w, w_mono w, w_trace w)"

text \<open>An action that leaves the kernel alone is evaluated by the executable parts of the state.\<close>

lemma landing:
  assumes "keeps (outside K) m" and "fst (m w) = r \<and> core (snd (m w)) = core w'" and "w_kernel w' = w_kernel w"
  shows "m w = (r, w')"
proof -
  have "w_kernel (snd (m w)) = w_kernel w" using outside_kernel [OF keepsD [OF assms(1), of w]] by simp
  then show ?thesis using assms(2,3) by (cases "m w") (auto simp: core_def intro: world.equality)
qed

lemma small_job_fields [simp]:
  "job_state small_job = ''running''" "job_pid small_job = 42" "owner_uid small_job = 7" "owner_gid small_job = 7"
  "start_time_ticks small_job = ''99''"
  by (simp_all add: small_job_def sample_job_def)

lemma dump_request_begins:
  "load_own_job ''/s'' sample_peer dump_request small_broker = (Inr small_job, small_broker\<lparr>w_tick := 2\<rparr>)"
  "UpdateJobLiveness ''/s'' small_job (small_broker\<lparr>w_tick := 2\<rparr>) = (Inr small_job, small_broker\<lparr>w_tick := 7\<rparr>)"
  "ProcessMatchesPeerSecurity 42 7 7 ''99'' (small_broker\<lparr>w_tick := 7\<rparr>) = (Inr None, small_broker\<lparr>w_tick := 12\<rparr>)"
proof (rule landing [OF load_own_job_keeps], goal_cases)
  case 1
  show ?case by code_simp
next
  case 2
  show ?case by simp
next
  case 3
  show ?case by (rule landing [OF UpdateJobLiveness_keeps], code_simp, simp)
next
  case 4
  show ?case by (rule landing [OF ProcessMatchesPeerSecurity_keeps], code_simp, simp)
qed

text \<open>The checkpoint and the files when the worker starts.\<close>

definition dumped :: CheckpointRecord where
  "dumped = (let logs = ''/s/7/jobs/j/checkpoints/ckpt-0d0e0f1011121314/logs/'' in
     small_checkpoint\<lparr>checkpoint_id := ''ckpt-0d0e0f1011121314'', ck_created_at := ''1021'',
       dump_log := logs @ ''dump.log'', restore_log := logs @ ''restore.log''\<rparr>)"

definition small_dumping :: world where
  "small_dumping = small_broker\<lparr>w_tick := 62, w_files :=
     (let cs = [''s'', ''7'', ''jobs'', ''j'', ''checkpoints'']; c = cs @ [''ckpt-0d0e0f1011121314''] in
      [(c @ [''checkpoint.meta''], sample_file (checkpoint_data dumped)), (c, sample_dir), (c @ [''logs''], sample_dir),
       (c @ [''work''], sample_dir), (c @ [''images''], sample_dir), (cs, sample_dir), (butlast cs, sample_dir),
       ([''s'', ''7'', ''jobs''], sample_dir), ([''s'', ''7''], sample_dir\<lparr>n_mode := 0x1ED\<rparr>), ([''s''], sample_dir),
       ([''s'', ''0''], sample_dir), ([''s'', ''0'', ''jobs''], sample_dir), ([''s'', ''0'', ''jobs'', ''~''], sample_dir),
       (butlast cs @ [''job.meta''], sample_file (job_data small_job))])\<rparr>"

lemma dump_request_creates:
  "bnd (CreateCheckpoint ''/s'' small_job) (\<lambda>c. bnd (SaveCheckpoint ''/s'' small_job c) (\<lambda>_. ret c)) (small_broker\<lparr>w_tick := 12\<rparr>)
   = (Inr dumped, small_dumping)"
proof (rule landing)
  show "keeps (outside (user_zone ''/s'' (owner_uid small_job)))
      (bnd (CreateCheckpoint ''/s'' small_job) (\<lambda>c. bnd (SaveCheckpoint ''/s'' small_job c) (\<lambda>_. ret c)))"
    by (intro frame_intros CreateCheckpoint_keeps keeps_user_zone(2))
qed (code_simp, simp add: small_dumping_def)

lemma dump_request_steps:
  "HandleRequest dump_request sample_peer small_config ''/s'' (- 1) small_broker =
   run_dump small_config ''/s'' small_job dumped [] False small_dumping"
proof -
  have "HandleRequest dump_request sample_peer small_config ''/s'' (- 1) small_broker =
    bnd (CreateCheckpoint ''/s'' small_job) (\<lambda>c. bnd (SaveCheckpoint ''/s'' small_job c) (\<lambda>_.
      run_dump small_config ''/s'' small_job c [] False)) (small_broker\<lparr>w_tick := 12\<rparr>)"
    by (simp add: HandleRequest_def handle_checkpoint_def bnd_apply dump_request_begins ValidateAllowedFields_def lift_sum_def
        ValidateExtraArgs.simps GetAll_def MessageFlagEnabled_def Get_def split: sum.splits prod.splits)
  moreover obtain w1 where "CreateCheckpoint ''/s'' small_job (small_broker\<lparr>w_tick := 12\<rparr>) = (Inr dumped, w1)"
    "SaveCheckpoint ''/s'' small_job dumped w1 = (Inr (), small_dumping)"
    using dump_request_creates by (auto simp: bnd_Inr_iff)
  ultimately show ?thesis by (simp add: bnd_apply)
qed

fun is_spawn :: "event \<Rightarrow> bool" where
  "is_spawn (SpawnEv _) = True"
| "is_spawn _ = False"

lemma dump_request_done:
  "case HandleRequest dump_request sample_peer small_config ''/s'' (- 1) small_broker of (r, w') \<Rightarrow>
     (case r of Inr _ \<Rightarrow> True | Inl _ \<Rightarrow> False) \<and> w_script w' = [] \<and> list_ex is_spawn (w_trace w')"
  unfolding dump_request_steps by code_simp

theorem dump_after_check_witness:
  "\<exists>argv job c extra ns w1 w2. SpawnEv argv \<in> set (w_trace (snd (HandleRequest dump_request sample_peer small_config ''/s'' (- 1) small_broker)))
     \<and> owner_uid job = 7 \<and> BuildWorkerCommand small_config ''/s'' job c ''dump'' extra ns (- 1) = Inr argv
     \<and> ProcessMatchesPeerSecurity (job_pid job) (owner_uid job) (owner_gid job) (start_time_ticks job) w1 = (Inr None, w2)"
proof -
  let ?r = "HandleRequest dump_request sample_peer small_config ''/s'' (- 1) small_broker"
  obtain argv where argv: "SpawnEv argv \<in> set (w_trace (snd ?r))"
    using dump_request_done by (auto simp: list_ex_iff split: prod.splits elim!: is_spawn.elims)
  have run: "?r = (fst ?r, snd ?r)" by simp
  have tr: "w_trace (snd ?r) = w_trace small_broker @ w_trace (snd ?r)"
    by (simp add: small_broker_def sample_proc_def sample_world_def)
  from dump_after_check [OF run _ tr argv] argv show ?thesis by (simp add: sample_peer_def) blast
qed

theorem checkpoint_is_latest_witness:
  "\<exists>resp w' job v. HandleRequest dump_request sample_peer small_config ''/s'' (- 1) small_broker = (Inr resp, w')
     \<and> LoadJob ''/s'' 7 (Get resp ''job_id'') w' = (Inr job, v) \<and> latest_checkpoint job = Get resp ''checkpoint_id''"
proof -
  obtain resp w' where run: "HandleRequest dump_request sample_peer small_config ''/s'' (- 1) small_broker = (Inr resp, w')"
    and calm: "faultless w'"
    using dump_request_done by (auto simp: faultless_def split: prod.splits sum.splits)
  have root: "take 1 (path_key ''/s'') \<noteq> [''proc'']" by code_simp
  from checkpoint_is_latest [OF run _ calm root] run show ?thesis by (auto simp: sample_peer_def)
qed

theorem failed_dump_recorded_witness:
  "\<exists>x w1 c' v. run_worker small_config ''/s'' small_job small_checkpoint ''dump'' [] False (- 1) sample_refused = (Inl x, w1)
     \<and> LoadCheckpoint ''/s'' small_job ''c'' (snd (run_dump small_config ''/s'' small_job small_checkpoint [] False sample_refused)) = (Inr c', v)
     \<and> ck_state c' = ''failed''"
proof -
  let ?w = "run_worker small_config ''/s'' small_job small_checkpoint ''dump'' [] False (- 1) sample_refused"
  let ?d = "run_dump small_config ''/s'' small_job small_checkpoint [] False sample_refused"
  have bad: "isl (fst ?w)" by code_simp
  have rec: "case record_failure ''/s'' small_job small_checkpoint ''failed'' (snd ?w) of (r, w) \<Rightarrow> (case r of Inr _ \<Rightarrow> True | Inl _ \<Rightarrow> False) \<and> w_script w = []" by code_simp
  obtain x w1 where w: "?w = (Inl x, w1)" using bad by (cases ?w) (auto simp: isl_def)
  obtain c' ed w2 where r: "record_failure ''/s'' small_job small_checkpoint ''failed'' w1 = (Inr (c', ed), w2)" and s: "w_script w2 = []"
    using rec w by (auto split: prod.splits sum.splits)
  have d: "?d = (fst ?d, snd ?d)" by simp
  have "snd ?d = w2" using w r by (simp add: run_dump_def catch_exn_def bnd_def worker_failed_def raise_def)
  then have calm: "faultless (snd ?d)" using s by (simp add: faultless_def)
  have root: "take 1 (path_key ''/s'') \<noteq> [''proc'']" by code_simp
  from failed_dump_recorded [OF w d calm root] r w show ?thesis by (auto simp: small_checkpoint_def)
qed

lemma restore_request_begins:
  "load_own_job ''/s'' sample_peer restore_request small_restore = (Inr small_job, small_restore\<lparr>w_tick := 2\<rparr>)"
  "LoadCheckpoint ''/s'' small_job ''c'' (small_restore\<lparr>w_tick := 2\<rparr>) = (Inr small_checkpoint, small_restore\<lparr>w_tick := 4\<rparr>)"
  by (rule landing [OF load_own_job_keeps], code_simp, simp) (rule landing [OF LoadCheckpoint_keeps], code_simp, simp)

lemma restore_request_steps:
  "HandleRequest restore_request sample_peer small_config ''/s'' (- 1) small_restore =
   bnd (catch_exn (run_worker small_config ''/s'' small_job small_checkpoint ''restore'' [] False (- 1))
        (\<lambda>x. worker_failed ''/s'' small_job small_checkpoint ''restore-failed'' (restore_error small_job x))) (\<lambda>_.
     bnd (adopt_restored ''/s'' small_job small_checkpoint) (\<lambda>(job, c).
     bnd (TouchCheckpointRestoreUsage ''/s'' job (c\<lparr>ck_state := ''restored''\<rparr>)) (\<lambda>c.
     bnd (SaveCheckpoint ''/s'' job c) (\<lambda>_.
     bnd (ExportCheckpointArtifacts ''/s'' job c) (\<lambda>ed.
     bnd (prune_quietly small_config ''/s'' job c) (\<lambda>_.
     ret (ok_response [(''job_id'', job_id job), (''checkpoint_id'', checkpoint_id c),
       (''restored_pid'', restored_pid c), (''restore_log'', exported_log ed ''restore.log'')]))))))) (small_restore\<lparr>w_tick := 4\<rparr>)"
proof -
  have "ResolveCheckpointId small_job ''c'' = Inr ''c''" by code_simp
  then show ?thesis
    by (simp add: HandleRequest_def handle_restore_def bnd_apply restore_request_begins ValidateAllowedFields_def lift_sum_def
        ValidateExtraArgs.simps GetAll_def MessageFlagEnabled_def Get_def split: sum.splits prod.splits)
qed

lemma restore_request_done:
  "case HandleRequest restore_request sample_peer small_config ''/s'' (- 1) small_restore of (r, w') \<Rightarrow>
     w_script w' = [] \<and> (case r of Inr resp \<Rightarrow> Get resp ''restored_pid'' = ''42'' | Inl _ \<Rightarrow> False)"
  unfolding restore_request_steps by code_simp

theorem restore_adopts_checked_witness:
  "\<exists>resp w' job v. HandleRequest restore_request sample_peer small_config ''/s'' (- 1) small_restore = (Inr resp, w')
     \<and> LoadJob ''/s'' 7 (Get resp ''job_id'') w' = (Inr job, v) \<and> job_state job = ''running''"
proof -
  obtain resp w' where run: "HandleRequest restore_request sample_peer small_config ''/s'' (- 1) small_restore = (Inr resp, w')"
    and pid: "Get resp ''restored_pid'' \<noteq> []" and calm: "faultless w'"
    using restore_request_done by (auto simp: faultless_def split: prod.splits sum.splits)
  have root: "take 1 (path_key ''/s'') \<noteq> [''proc'']" by code_simp
  from restore_adopts_checked [OF run _ pid calm root] run show ?thesis by (auto simp: sample_peer_def)
qed

text \<open>An argument with a newline: the program has been started when saving its record fails, so it runs
  without a job.\<close>

lemma newline_leaves_orphan:
  "case HandleRequest \<lparr>command = ''run'', msg_fields = [(''arg'', ''/bin/job''), (''arg'', [NL]), (''cwd'', ''/'')]\<rparr>
      sample_peer small_config ''/s'' (- 1) sample_launch of (r, w') \<Rightarrow>
    r = Inl (RuntimeError ''invalid key/value content'') \<and> length (w_trace w') = 1
    \<and> list_all (\<lambda>(k, _). k \<noteq> [] \<longrightarrow> last k \<noteq> ''job.meta'') (w_files w')"
  by code_simp

end
