(* ===== verification/Daemon.thy ===== *)
theory Daemon
  imports Requests
begin

text \<open>
  The daemon around the requests (\<^verbatim>\<open>daemon.cc\<close>, \<^verbatim>\<open>snapshotd_main.cc\<close>): socket activation, the control
  socket, the poll loop, one connection at a time, and shutdown.

  A connection has a socket of its own, so that its handler works on a pair of the machine and the
  socket. What happens to the listening socket is a list of arrivals, one for each turn of the loop:
  the loop test sees the termination flag set by \<^verbatim>\<open>SIGTERM\<close> or \<^verbatim>\<open>SIGINT\<close>, \<^verbatim>\<open>poll\<close> fails, times out,
  or finds a client. When the list ends the daemon is still serving. Threads do not occur.

  The results: a connection is answered exactly once and owns no descriptor afterwards; over a whole
  run of the loop the registry of jobs changes only by steps of users that were served.
\<close>

section \<open>Environment and listening socket\<close>

abbreviation (input) ENOSYS :: int where "ENOSYS \<equiv> 38"
abbreviation (input) EINVAL :: int where "EINVAL \<equiv> 22"
abbreviation (input) EADDRINUSE :: int where "EADDRINUSE \<equiv> 98"

type_synonym environ = "string \<Rightarrow> string option"

definition GetEnv :: "environ \<Rightarrow> string \<Rightarrow> string \<Rightarrow> string" where
  "GetEnv env name default_value = (case env name of None \<Rightarrow> default_value | Some v \<Rightarrow> v)"

definition UseSystemdSocketActivation :: "environ \<Rightarrow> pid_t \<Rightarrow> exn + bool" where
  "UseSystemdSocketActivation env getpid =
     (let listen_pid = GetEnv env ''LISTEN_PID'' []; listen_fds = GetEnv env ''LISTEN_FDS'' [] in
      if listen_pid = [] \<or> listen_fds = [] then Inr False
      else try_bind (stol listen_pid) (\<lambda>pid.
        if word_of_int pid \<noteq> getpid then Inr False
        else try_bind (stoi listen_fds) (\<lambda>n. Inr (n \<ge> 1))))"

text \<open>\<^verbatim>\<open>bind\<close> of a Unix socket makes its file.\<close>

definition sys_bind :: "path \<Rightarrow> int io" where
  "sys_bind p = or_fault (\<lambda>w.
     if fs_get (w_files w) (path_key p) \<noteq> None then (Inr EADDRINUSE, w)
     else create_node Socket p 0x1FF w)"

definition kSunPathBytes :: nat where
  "kSunPathBytes = 108"

definition close_and_throw :: "string \<Rightarrow> int \<Rightarrow> 'a io" where
  "close_and_throw context e =
     bnd (ErrnoMessage context e) (\<lambda>m. bnd sys_close (\<lambda>_. raise (RuntimeError m)))"

definition CreateSocket :: "path \<Rightarrow> int io" where
  "CreateSocket addr =
     bnd (call_or_throw ''socket(AF_UNIX)'') (\<lambda>_.
     bnd (answer k_fd) (\<lambda>fd.
     let parent = parent_path addr in
     bnd (if parent = [] then ret True else PathExists parent) (\<lambda>ex.
     bnd (if \<not> ex then EnsureDir parent 0x1F8 else ret ()) (\<lambda>_.
     bnd (sys_unlink addr) (\<lambda>_.
     if length addr \<ge> kSunPathBytes
     then bnd sys_close (\<lambda>_. raise (RuntimeError ''socket path too long''))
     else bnd (sys_bind addr) (\<lambda>e.
       if e \<noteq> 0 then close_and_throw (''bind('' @ addr @ '')'') e
       else bnd (sys_chmod addr 0x1B0) (\<lambda>e.
         if e \<noteq> 0 then close_and_throw (''chmod('' @ addr @ '')'') e
         else bnd (or_fault (ret 0)) (\<lambda>e.
           if e \<noteq> 0 then close_and_throw (''listen('' @ addr @ '')'') e
           else ret fd))))))))"

section \<open>One connection\<close>

record connection =
  conn_fd :: int
  conn_peer :: PeerCred
  conn_sock :: sock

type_synonym 'a exchange = "(world \<times> sock, 'a) action"

definition on_world :: "'a io \<Rightarrow> 'a exchange" where
  "on_world m = (\<lambda>(w, s). case m w of (r, w') \<Rightarrow> (r, (w', s)))"

definition on_sock :: "(sock, 'a) action \<Rightarrow> 'a exchange" where
  "on_sock m = (\<lambda>(w, s). case m s of (r, s') \<Rightarrow> (r, (w, s')))"

definition GetPeerCred :: "connection \<Rightarrow> PeerCred io" where
  "GetPeerCred c = bnd (call_or_throw ''getsockopt(SO_PEERCRED)'') (\<lambda>_. ret (conn_peer c))"

definition IsBenignResponseWriteError :: "int \<Rightarrow> bool" where
  "IsBenignResponseWriteError e \<longleftrightarrow> e = EPIPE \<or> e = ECONNRESET \<or> e = ENOTCONN"

definition log_error :: "string \<Rightarrow> exn \<Rightarrow> unit exchange" where
  "log_error context x = on_world (log_event (LogEv (context @ what x @ [NL])))"

definition TrySendResponse :: "Message \<Rightarrow> unit exchange" where
  "TrySendResponse response = catch_exn (on_sock (SendMessage response)) (\<lambda>x. case x of
     ErrnoRuntimeError _ e \<Rightarrow>
       if IsBenignResponseWriteError e then ret ()
       else log_error ''snapshotd: unexpected control-socket write failure: '' x
   | _ \<Rightarrow> log_error ''snapshotd: unexpected control-socket response failure: '' x)"

definition answer_client :: "DaemonConfig \<Rightarrow> connection \<Rightarrow> unit exchange" where
  "answer_client cfg c = catch_exn
     (bnd (on_world (GetPeerCred c)) (\<lambda>peer.
      bnd (on_sock ReceiveMessageWithFd) (\<lambda>request.
      bnd (on_sock (gets s_fd)) (\<lambda>ancillary_fd.
      bnd (on_world (HandleRequest request peer cfg (state_dir cfg) ancillary_fd)) (\<lambda>response.
      TrySendResponse response)))))
     (\<lambda>x. TrySendResponse (ErrorResponse x))"

definition close_descriptor :: "int \<Rightarrow> unit exchange" where
  "close_descriptor fd = bnd (on_world sys_close) (\<lambda>_.
     on_sock (modify (\<lambda>s. s\<lparr>s_closed := s_closed s @ [fd]\<rparr>)))"

definition serve_connection :: "DaemonConfig \<Rightarrow> connection \<Rightarrow> sock io" where
  "serve_connection cfg c = (\<lambda>w. case
     bnd (answer_client cfg c) (\<lambda>_.
     bnd (on_sock (gets s_fd)) (\<lambda>ancillary_fd.
     bnd (if ancillary_fd \<ge> 0 then close_descriptor ancillary_fd else ret ()) (\<lambda>_.
     close_descriptor (conn_fd c)))) (w, (conn_sock c)\<lparr>s_fd := - 1\<rparr>) of
       (Inl x, (w', s)) \<Rightarrow> (Inl x, w')
     | (Inr _, (w', s)) \<Rightarrow> (Inr s, w'))"

section \<open>The loop\<close>

datatype arrival = Terminated | PollFailed int | PollTimeout | Incoming connection

definition accept_failed :: "int \<Rightarrow> bool io" where
  "accept_failed e = (if e = EINTR then ret False else ThrowErrno ''accept'' e)"

definition accept_client :: "bool io" where
  "accept_client = bnd fault (\<lambda>f. case f of
     None \<Rightarrow> ret True
   | Some e \<Rightarrow>
       if e = ENOSYS \<or> e = EINVAL
       then bnd fault (\<lambda>f. case f of None \<Rightarrow> bnd SetCloseOnExec (\<lambda>_. ret True) | Some e \<Rightarrow> accept_failed e)
       else accept_failed e)"

text \<open>The result says whether the loop ended, with the sockets of the connections that were served.\<close>

fun daemon_loop :: "DaemonConfig \<Rightarrow> arrival list \<Rightarrow> (bool \<times> sock list) io" where
  "daemon_loop cfg [] = ret (False, [])"
| "daemon_loop cfg (Terminated # as) = ret (True, [])"
| "daemon_loop cfg (PollFailed e # as) =
     (if e = EINTR then daemon_loop cfg as else ThrowErrno ''poll'' e)"
| "daemon_loop cfg (PollTimeout # as) = daemon_loop cfg as"
| "daemon_loop cfg (Incoming c # as) =
     bnd accept_client (\<lambda>ok.
     if \<not> ok then daemon_loop cfg as
     else bnd (serve_connection cfg c) (\<lambda>s.
       bnd (daemon_loop cfg as) (\<lambda>(ended, served). ret (ended, s # served))))"

text \<open>\<^verbatim>\<open>RunDaemon\<close> with the arrivals so far: \<open>None\<close> while it is serving, else its return value.\<close>

definition RunDaemon :: "environ \<Rightarrow> pid_t \<Rightarrow> arrival list \<Rightarrow> DaemonConfig \<Rightarrow> (int option \<times> sock list) io" where
  "RunDaemon env getpid as cfg =
     bnd (Initialize (state_dir cfg)) (\<lambda>_.
     bnd (lift_sum (UseSystemdSocketActivation env getpid)) (\<lambda>inherited_socket.
     bnd (if inherited_socket then ret 3 else CreateSocket (socket_path cfg)) (\<lambda>listen_fd.
     bnd SetCloseOnExec (\<lambda>_.
     bnd (if ready_file cfg \<noteq> [] then WriteTextFile (ready_file cfg) (''ready'' @ [NL]) 0x1A4 0x1ED else ret ()) (\<lambda>_.
     bnd (daemon_loop cfg as) (\<lambda>(ended, served).
     if \<not> ended then ret (None, served)
     else bnd (if inherited_socket then ret ()
               else bnd sys_close (\<lambda>_. bnd (sys_unlink (socket_path cfg)) (\<lambda>_. ret ()))) (\<lambda>_.
       ret (Some 0, served))))))))"

definition RunDaemonMain :: "environ \<Rightarrow> pid_t \<Rightarrow> arrival list \<Rightarrow> string list \<Rightarrow> (int option \<times> sock list) io" where
  "RunDaemonMain env getpid as argv = bnd (Config.ParseArgs argv) (\<lambda>cfg. RunDaemon env getpid as cfg)"

definition snapshotd_main :: "environ \<Rightarrow> pid_t \<Rightarrow> arrival list \<Rightarrow> string list \<Rightarrow> int option io" where
  "snapshotd_main env getpid as argv = catch_exn
     (bnd (RunDaemonMain env getpid as argv) (\<lambda>(code, _). ret code))
     (\<lambda>x. bnd (log_event (LogEv (what x @ [NL]))) (\<lambda>_. ret (Some 1)))"

section \<open>Evaluation\<close>

lemmas daemon_code [code] =
  fun_cong [OF sys_bind_def] fun_cong [OF close_and_throw_def] fun_cong [OF CreateSocket_def]
  fun_cong [OF GetPeerCred_def] fun_cong [OF log_error_def] fun_cong [OF TrySendResponse_def]
  fun_cong [OF answer_client_def] fun_cong [OF close_descriptor_def] fun_cong [OF accept_failed_def]
  fun_cong [OF accept_client_def] fun_cong [OF RunDaemon_def] fun_cong [OF RunDaemonMain_def]
  fun_cong [OF snapshotd_main_def]

section \<open>Sending and receiving\<close>

text \<open>The bytes of a message, if it can be sent at all.\<close>

definition frame :: "Message \<Rightarrow> string" where
  "frame m = (case EncodeMessage m of
     Inl _ \<Rightarrow> []
   | Inr p \<Rightarrow> if length p > kMaxControlMessageBytes then [] else le32 (of_nat (length p)) @ p)"

lemma WriteAll_prefix:
  obtains p sc where "snd (WriteAll b s) = s\<lparr>s_out := s_out s @ p, s_script := sc\<rparr>"
    and "prefix p b" and "fst (WriteAll b s) = Inr () \<longrightarrow> p = b"
proof -
  obtain e q sc where w: "write_loop (s_script s) [] b = (e, q, sc)" by (cases "write_loop (s_script s) [] b")
  have "prefix q b \<and> (e = None \<longrightarrow> q = b)"
    using w write_loop_complete [of "s_script s" "[]" b q sc] write_loop_partial [of "s_script s" "[]" b _ q sc]
    by (cases e) auto
  then show thesis using that w by (auto simp: WriteAll_def split: option.splits)
qed

lemma SendMessage_prefix:
  obtains p sc where "snd (SendMessage m s) = s\<lparr>s_out := s_out s @ p, s_script := sc\<rparr>" and "prefix p (frame m)"
proof (cases "\<exists>p. EncodeMessage m = Inr p \<and> length p \<le> kMaxControlMessageBytes")
  case False
  then have "snd (SendMessage m s) = s" by (cases "EncodeMessage m") (auto simp: SendMessage_def bnd_apply)
  then show thesis using that [where p = "[]" and sc = "s_script s"] by simp
next
  case True
  then obtain p where p: "EncodeMessage m = Inr p" "length p \<le> kMaxControlMessageBytes" by blast
  let ?h = "le32 (of_nat (length p))"
  have frame: "frame m = ?h @ p" using p by (simp add: frame_def)
  obtain a sc where a: "snd (WriteAll ?h s) = s\<lparr>s_out := s_out s @ a, s_script := sc\<rparr>"
    "prefix a ?h" "fst (WriteAll ?h s) = Inr () \<longrightarrow> a = ?h"
    by (rule WriteAll_prefix)
  let ?s = "s\<lparr>s_out := s_out s @ a, s_script := sc\<rparr>"
  obtain b sc' where b: "snd (WriteAll p ?s) = ?s\<lparr>s_out := s_out ?s @ b, s_script := sc'\<rparr>" "prefix b p"
    by (rule WriteAll_prefix)
  show thesis
  proof (cases "fst (WriteAll ?h s)")
    case (Inl x)
    then have "snd (SendMessage m s) = ?s" using p a
      by (cases "WriteAll ?h s") (simp add: SendMessage_def bnd_apply)
    then show thesis using that [where p = a and sc = sc] a frame by (simp add: prefix_appendI)
  next
    case (Inr u)
    then have "SendMessage m s = (if p \<noteq> [] then WriteAll p else ret ()) ?s" using p a
      by (cases "WriteAll ?h s") (simp add: SendMessage_def bnd_apply)
    then show thesis
      using that [where p = "?h @ b" and sc = sc'] that [where p = ?h and sc = sc] a b Inr frame by (cases "p = []") auto
  qed
qed

lemma write_loop_benign_suffix: "benign sc \<Longrightarrow> \<exists>sc'. write_loop sc out rem = (None, out @ rem, sc') \<and> benign sc'"
  using write_loop_benign [of sc out rem] write_loop_suffix [of sc out rem] by (fastforce simp: benign_def dest: set_mono_suffix)

lemma SendMessage_whole:
  assumes "benign (s_script s)" and "EncodeMessage m = Inr p" and "length p \<le> kMaxControlMessageBytes"
  shows "\<exists>sc. SendMessage m s = (Inr (), s\<lparr>s_out := s_out s @ frame m, s_script := sc\<rparr>) \<and> benign sc"
proof -
  have w: "\<exists>sc. WriteAll b s = (Inr (), s\<lparr>s_out := s_out s @ b, s_script := sc\<rparr>) \<and> benign sc" if "benign (s_script s)" for b s
    using write_loop_benign_suffix [OF that, of "[]" b] by (auto simp: WriteAll_def)
  obtain sc where "WriteAll (le32 (of_nat (length p))) s = (Inr (), s\<lparr>s_out := s_out s @ le32 (of_nat (length p)), s_script := sc\<rparr>)" "benign sc"
    using w [OF assms(1)] by blast
  then show ?thesis
    using assms w [of "s\<lparr>s_out := s_out s @ le32 (of_nat (length p)), s_script := sc\<rparr>" p]
    by (auto simp: SendMessage_def bnd_apply frame_def)
qed

text \<open>What the kernel installed in the receiver while the header was read.\<close>

definition received_fds :: "sock \<Rightarrow> int list" where
  "received_fds s = (case recv_header (s\<lparr>s_fd := - 1\<rparr>) of (_, s') \<Rightarrow> if s_fd s' \<ge> 0 then [s_fd s'] else [])"

lemma ReadAll_same: "ReadAll n s = (r, s') \<Longrightarrow> s_out s' = s_out s \<and> s_fd s' = s_fd s \<and> s_closed s' = s_closed s"
  by (auto simp: ReadAll_def split: prod.splits)

lemma payload_same:
  assumes "bnd (if n > 0 then ReadAll n else ret []) (\<lambda>p. lift_sum (DecodeMessage p)) s = (r, s')"
  shows "s_out s' = s_out s \<and> s_fd s' = s_fd s \<and> s_closed s' = s_closed s"
  using assms ReadAll_same [of n s] by (cases "ReadAll n s") (auto simp: bnd_apply lift_sum_def split: if_splits sum.splits)

lemma recv_header_same:
  "recv_header s = (r, s') \<Longrightarrow> s_out s' = s_out s \<and> s_closed s' = s_closed s \<and> s_fd s' \<in> insert (s_fd s) (set_option (s_anc_in s))"
  by (auto simp: recv_header_def recvmsg_loop_read incoming_fd_def split: prod.splits option.splits if_splits)

lemma ReceiveMessageWithFd_owns:
  assumes "ReceiveMessageWithFd s = (r, s')"
  shows "s_out s' = s_out s" and "s_closed s' @ (if s_fd s' \<ge> 0 then [s_fd s'] else []) = s_closed s @ received_fds s"
    and "s_fd s' \<in> insert (- 1) (set_option (s_anc_in s))"
proof -
  obtain h s1 where h: "recv_header (s\<lparr>s_fd := - 1\<rparr>) = (h, s1)" by (cases "recv_header (s\<lparr>s_fd := - 1\<rparr>)")
  note same = recv_header_same [OF h]
  have rest: "s_out s' = s_out s1 \<and> s_closed s' @ (if s_fd s' \<ge> 0 then [s_fd s'] else []) = s_closed s1 @ received_fds s
    \<and> s_fd s' \<in> {- 1, s_fd s1}"
  proof (cases h)
    case (Inl x)
    then show ?thesis using assms h by (auto simp: ReceiveMessageWithFd_def bnd_apply received_fds_def modify_def)
  next
    case (Inr hd)
    then show ?thesis
      using assms h payload_same [of "unat (of_le32 hd)" s1 r s']
      by (auto simp: ReceiveMessageWithFd_def bnd_apply received_fds_def modify_def close_received_fd_def raise_def split: if_splits)
  qed
  show "s_out s' = s_out s" "s_closed s' @ (if s_fd s' \<ge> 0 then [s_fd s'] else []) = s_closed s @ received_fds s"
    "s_fd s' \<in> insert (- 1) (set_option (s_anc_in s))"
    using rest same by auto
qed

section \<open>Connections are answered once\<close>

text \<open>The answer to a connection, with machine and socket before it is sent.\<close>

definition handled :: "DaemonConfig \<Rightarrow> connection \<Rightarrow> sock \<Rightarrow> world \<Rightarrow> Message \<times> world \<times> sock" where
  "handled cfg c s w = (case GetPeerCred c w of
     (Inl x, w1) \<Rightarrow> (ErrorResponse x, w1, s)
   | (Inr peer, w1) \<Rightarrow> (case ReceiveMessageWithFd s of
       (Inl x, s1) \<Rightarrow> (ErrorResponse x, w1, s1)
     | (Inr request, s1) \<Rightarrow> (case HandleRequest request peer cfg (state_dir cfg) (s_fd s1) w1 of
         (Inl x, w2) \<Rightarrow> (ErrorResponse x, w2, s1)
       | (Inr m, w2) \<Rightarrow> (m, w2, s1))))"

lemma TrySendResponse_ends:
  obtains w' where "TrySendResponse m (w, s) = (Inr (), (w', snd (SendMessage m s)))"
    and "w' = w \<or> (\<exists>t. w' = w\<lparr>w_trace := w_trace w @ [LogEv t]\<rparr>)"
proof -
  obtain r t where send: "SendMessage m s = (r, t)" by (cases "SendMessage m s")
  have log: "log_error ctx x (w, t) = (Inr (), (w\<lparr>w_trace := w_trace w @ [LogEv (ctx @ what x @ [NL])]\<rparr>, t))" for ctx x
    by (simp add: log_error_def on_world_def log_event_def modify_def)
  show thesis
  proof (cases r)
    case (Inl x)
    then have "TrySendResponse m (w, s) = (case x of
        ErrnoRuntimeError _ e \<Rightarrow> if IsBenignResponseWriteError e then ret ()
          else log_error ''snapshotd: unexpected control-socket write failure: '' x
      | _ \<Rightarrow> log_error ''snapshotd: unexpected control-socket response failure: '' x) (w, t)"
      using send by (simp add: TrySendResponse_def catch_exn_def on_sock_def)
    then show thesis using that send by (cases x) (auto simp: log ret_def split: if_splits)
  next
    case (Inr u)
    then show thesis using that [of w] send by (simp add: TrySendResponse_def catch_exn_def on_sock_def)
  qed
qed

lemma TrySendResponse_Inl [simp]: "TrySendResponse m v \<noteq> (Inl x, v')"
  by (cases v) (rule TrySendResponse_ends [of m "fst v" "snd v"], simp)

lemma answer_client_handled:
  assumes "handled cfg c s w = (m, w1, s1)"
  shows "answer_client cfg c (w, s) = TrySendResponse m (w1, s1)"
  using assms
  by (auto simp: handled_def answer_client_def catch_exn_def bnd_def on_world_def on_sock_def gets_def
      split: prod.splits sum.splits)

definition closing :: "connection \<Rightarrow> int \<Rightarrow> unit exchange" where
  "closing c fd = bnd (if fd \<ge> 0 then close_descriptor fd else ret ()) (\<lambda>_. close_descriptor (conn_fd c))"

lemma sys_close_ends: "\<exists>e w'. sys_close w = (Inr e, w') \<and> outside (\<lambda>_. False) w w'"
proof -
  obtain e w' where "sys_close w = (Inr e, w')" using or_fault_ends [of "ret 0" w] by (auto simp: sys_close_def ret_def)
  then show ?thesis using keeps_result [OF sys_close_keeps] by blast
qed

lemma close_descriptor_ends:
  obtains w' where "close_descriptor fd (w, s) = (Inr (), (w', s\<lparr>s_closed := s_closed s @ [fd]\<rparr>))"
    and "outside (\<lambda>_. False) w w'"
  using sys_close_ends [of w] by (auto simp: close_descriptor_def bnd_def on_world_def on_sock_def modify_def intro: that)

lemma closing_ends:
  obtains w' where "closing c fd (w, s) =
      (Inr (), (w', s\<lparr>s_closed := s_closed s @ (if fd \<ge> 0 then [fd] else []) @ [conn_fd c]\<rparr>))"
    and "outside (\<lambda>_. False) w w'"
proof (cases "fd \<ge> 0")
  case True
  obtain w1 where 1: "close_descriptor fd (w, s) = (Inr (), (w1, s\<lparr>s_closed := s_closed s @ [fd]\<rparr>))" "outside (\<lambda>_. False) w w1"
    by (rule close_descriptor_ends)
  let ?s = "s\<lparr>s_closed := s_closed s @ [fd]\<rparr>"
  obtain w2 where 2: "close_descriptor (conn_fd c) (w1, ?s) = (Inr (), (w2, ?s\<lparr>s_closed := s_closed ?s @ [conn_fd c]\<rparr>))"
    "outside (\<lambda>_. False) w1 w2"
    by (rule close_descriptor_ends)
  show thesis using that [of w2] 1 2 True out.frame_trans by (simp add: closing_def bnd_apply)
next
  case False
  obtain w1 where "close_descriptor (conn_fd c) (w, s) = (Inr (), (w1, s\<lparr>s_closed := s_closed s @ [conn_fd c]\<rparr>))"
    "outside (\<lambda>_. False) w w1"
    by (rule close_descriptor_ends)
  then show thesis using that [of w1] False by (simp add: closing_def bnd_apply ret_def)
qed

lemma serve_connection_handled:
  assumes "handled cfg c ((conn_sock c)\<lparr>s_fd := - 1\<rparr>) w = (m, w1, s1)"
  obtains w2 w3 where "let s2 = snd (SendMessage m s1) in serve_connection cfg c w =
      (Inr (s2\<lparr>s_closed := s_closed s2 @ (if s_fd s2 \<ge> 0 then [s_fd s2] else []) @ [conn_fd c]\<rparr>), w3)"
    and "w2 = w1 \<or> (\<exists>t. w2 = w1\<lparr>w_trace := w_trace w1 @ [LogEv t]\<rparr>)" and "outside (\<lambda>_. False) w2 w3"
proof -
  obtain w2 where 2: "TrySendResponse m (w1, s1) = (Inr (), (w2, snd (SendMessage m s1)))"
    and log: "w2 = w1 \<or> (\<exists>t. w2 = w1\<lparr>w_trace := w_trace w1 @ [LogEv t]\<rparr>)"
    by (rule TrySendResponse_ends)
  let ?s = "snd (SendMessage m s1)"
  obtain w3 where 3: "closing c (s_fd ?s) (w2, ?s) =
      (Inr (), (w3, ?s\<lparr>s_closed := s_closed ?s @ (if s_fd ?s \<ge> 0 then [s_fd ?s] else []) @ [conn_fd c]\<rparr>))"
    and o: "outside (\<lambda>_. False) w2 w3"
    by (rule closing_ends)
  have "serve_connection cfg c w =
      (Inr (?s\<lparr>s_closed := s_closed ?s @ (if s_fd ?s \<ge> 0 then [s_fd ?s] else []) @ [conn_fd c]\<rparr>), w3)"
    using answer_client_handled [OF assms] 2 3
    by (simp add: serve_connection_def bnd_apply on_sock_def gets_def closing_def)
  then show thesis using that log o by (simp add: Let_def)
qed

lemma handled_socket:
  assumes "handled cfg c s w = (m, w1, s1)" and "s_fd s = - 1"
  shows "s_out s1 = s_out s"
    and "s_closed s1 @ (if s_fd s1 \<ge> 0 then [s_fd s1] else []) = s_closed s @ (if isl (fst (GetPeerCred c w)) then [] else received_fds s)"
proof -
  obtain r s' where recv: "ReceiveMessageWithFd s = (r, s')" by (cases "ReceiveMessageWithFd s")
  have "(if isl (fst (GetPeerCred c w)) then s1 = s else s1 = s')"
    using assms(1) recv by (auto simp: handled_def split: prod.splits sum.splits)
  then show "s_out s1 = s_out s"
    and "s_closed s1 @ (if s_fd s1 \<ge> 0 then [s_fd s1] else []) = s_closed s @ (if isl (fst (GetPeerCred c w)) then [] else received_fds s)"
    using ReceiveMessageWithFd_owns [OF recv] assms(2) by (auto split: if_splits)
qed

lemma connection_sent:
  assumes "handled cfg c ((conn_sock c)\<lparr>s_fd := - 1\<rparr>) w = (m, w1, s1)"
  shows "\<exists>s w'. serve_connection cfg c w = (Inr s, w')
    \<and> (\<exists>p. s_out s = s_out (conn_sock c) @ p \<and> prefix p (frame m))
    \<and> (benign (s_script s1) \<and> \<not> isl (EncodeMessage m) \<and> length (projr (EncodeMessage m)) \<le> kMaxControlMessageBytes
        \<longrightarrow> s_out s = s_out (conn_sock c) @ frame m)
    \<and> s_closed s = s_closed (conn_sock c)
        @ (if isl (fst (GetPeerCred c w)) then [] else received_fds (conn_sock c)) @ [conn_fd c]"
proof -
  have before: "s_out s1 = s_out (conn_sock c)"
    "s_closed s1 @ (if s_fd s1 \<ge> 0 then [s_fd s1] else [])
      = s_closed (conn_sock c) @ (if isl (fst (GetPeerCred c w)) then [] else received_fds (conn_sock c))"
    using handled_socket [OF assms] by (simp_all add: received_fds_def)
  obtain p sc where send: "snd (SendMessage m s1) = s1\<lparr>s_out := s_out s1 @ p, s_script := sc\<rparr>" and p: "prefix p (frame m)"
    by (rule SendMessage_prefix)
  have whole: "p = frame m"
    if "benign (s_script s1)" "\<not> isl (EncodeMessage m)" "length (projr (EncodeMessage m)) \<le> kMaxControlMessageBytes"
  proof -
    have "EncodeMessage m = Inr (projr (EncodeMessage m))" using that(2) by (cases "EncodeMessage m") auto
    from SendMessage_whole [OF that(1) this that(3)] send show ?thesis
      by (metis append_same_eq same_append_eq snd_conv sock.select_convs(2) sock.surjective sock.update_convs(2,3))
  qed
  show ?thesis
    by (rule serve_connection_handled [OF assms])
      (use send p whole before in \<open>auto simp: Let_def simp flip: append_assoc\<close>)
qed

text \<open>C12: Every accepted connection is answered exactly once and leaves nothing open: whatever the client
  sent and whatever the request did, serving it does not throw; the bytes written to the client
  are one frame, that of the response or of the error response, or a part of it if the write
  failed, and all of it if the socket had no fault and the response can be encoded; and after it
  exactly the descriptor the client had attached, if any was received, and the connection itself
  have been closed, each once.\<close>

theorem connection_answered_once:
  assumes "handled cfg c ((conn_sock c)\<lparr>s_fd := - 1\<rparr>) w = (m, w1, s1)"
  shows "\<exists>s w'. serve_connection cfg c w = (Inr s, w')
    \<and> (\<exists>p. s_out s = s_out (conn_sock c) @ p \<and> prefix p (frame m))
    \<and> (benign (s_script s1) \<and> \<not> isl (EncodeMessage m) \<and> length (projr (EncodeMessage m)) \<le> kMaxControlMessageBytes
        \<longrightarrow> s_out s = s_out (conn_sock c) @ frame m)
    \<and> s_closed s = s_closed (conn_sock c)
        @ (if isl (fst (GetPeerCred c w)) then [] else received_fds (conn_sock c)) @ [conn_fd c]"
  by (rule connection_sent [OF assms])

section \<open>The registry of jobs\<close>

text \<open>What the users see of the daemon: for each of them the records of the jobs on disk. A request by
  one user is a step that may change that user's row.\<close>

type_synonym registry = "uid_t \<Rightarrow> string \<Rightarrow> node option"

definition registry_of :: "path \<Rightarrow> world \<Rightarrow> registry" where
  "registry_of root w = (\<lambda>v j. fs_get (w_files w) (job_key root v j @ [''job.meta'']))"

inductive registry_run :: "uid_t list \<Rightarrow> registry \<Rightarrow> registry \<Rightarrow> bool" where
  idle: "registry_run [] R R"
| request: "(\<And>v. v \<noteq> u \<Longrightarrow> R' v = R v) \<Longrightarrow> registry_run us R' R'' \<Longrightarrow> registry_run (u # us) R R''"

lemma registry_run_others: "registry_run us R R' \<Longrightarrow> v \<notin> set us \<Longrightarrow> R' v = R v"
  by (induction rule: registry_run.induct) auto

lemma same_registry_run: "registry_run us R R' \<Longrightarrow> Q = R \<Longrightarrow> registry_run us Q R'"
  by simp

text \<open>Descriptors are \<^verbatim>\<open>int\<close> values.\<close>

definition arrival_ok :: "arrival \<Rightarrow> bool" where
  "arrival_ok a = (case a of Incoming c \<Rightarrow> (case s_anc_in (conn_sock c) of None \<Rightarrow> True | Some d \<Rightarrow> d < 2 ^ 31) | _ \<Rightarrow> True)"

fun peer_of :: "arrival \<Rightarrow> PeerCred option" where
  "peer_of (Incoming c) = Some (conn_peer c)"
| "peer_of _ = None"

abbreviation peers :: "arrival list \<Rightarrow> PeerCred list" where
  "peers as \<equiv> List.map_filter peer_of as"

lemma GetPeerCred_keeps: "keeps (outside K) (GetPeerCred c)"
  unfolding GetPeerCred_def by (intro frame_intros)

lemma GetPeerCred_Inr: "GetPeerCred c w = (Inr p, w') \<Longrightarrow> p = conn_peer c"
  by (auto simp: GetPeerCred_def bnd_Inr_iff)

lemma log_line_affects: "E (LogEv t) \<Longrightarrow> affects P K E w (w\<lparr>w_trace := w_trace w @ [LogEv t]\<rparr>)"
  by (simp add: affects_def)

lemma serve_connection_affects:
  assumes "arrival_ok (Incoming c)" and "serve_connection cfg c w = (r, w')"
  shows "request_frame cfg (state_dir cfg) (conn_peer c) w w'"
proof -
  let ?s = "(conn_sock c)\<lparr>s_fd := - 1\<rparr>" and ?F = "request_frame cfg (state_dir cfg) (conn_peer c)"
  obtain m w1 s1 where h: "handled cfg c ?s w = (m, w1, s1)" by (cases "handled cfg c ?s w") auto
  obtain w2 w3 where served: "let s2 = snd (SendMessage m s1) in serve_connection cfg c w =
      (Inr (s2\<lparr>s_closed := s_closed s2 @ (if s_fd s2 \<ge> 0 then [s_fd s2] else []) @ [conn_fd c]\<rparr>), w3)"
    and log: "w2 = w1 \<or> (\<exists>t. w2 = w1\<lparr>w_trace := w_trace w1 @ [LogEv t]\<rparr>)" and o: "outside (\<lambda>_. False) w2 w3"
    by (rule serve_connection_handled [OF h])
  have w3: "w' = w3" using served assms(2) by (simp add: Let_def)
  have "?F w w1"
  proof -
    obtain g w0 where g: "GetPeerCred c w = (g, w0)" by (cases "GetPeerCred c w")
    obtain r s' where recv: "ReceiveMessageWithFd ?s = (r, s')" by (cases "ReceiveMessageWithFd ?s")
    have fd: "s_fd s' < 2 ^ 31"
      using ReceiveMessageWithFd_owns(3) [OF recv] assms(1) by (auto simp: arrival_ok_def split: option.splits)
    have "w1 = w0 \<or> (\<exists>req v. HandleRequest req (conn_peer c) cfg (state_dir cfg) (s_fd s') w0 = (v, w1))"
      using h g recv GetPeerCred_Inr [of c w] by (auto simp: handled_def split: prod.splits sum.splits)
    moreover have "?F w w0" by (rule keeps_result [OF keeps_affects [OF GetPeerCred_keeps] g])
    ultimately show ?thesis
      using keeps_result [OF HandleRequest_affects [OF fd]] aff.frame_trans by blast
  qed
  moreover have "?F w1 w2" using log aff.frame_refl log_line_affects by (auto simp: request_event_def)
  moreover have "?F w2 w3" by (rule outside_affects) (rule outside_mono [OF o], simp)
  ultimately show ?thesis unfolding w3 using aff.frame_trans by blast
qed

lemma accept_client_keeps: "keeps (outside K) accept_client"
  unfolding accept_client_def accept_failed_def by (intro frame_intros SetCloseOnExec_keeps)

text \<open>What a run may have done: steps of a subsequence of the arriving users, nothing outside the state
  directory, and only events of the arriving users.\<close>

definition run_refines :: "DaemonConfig \<Rightarrow> PeerCred list \<Rightarrow> world \<Rightarrow> world \<Rightarrow> bool" where
  "run_refines cfg ps w w' \<longleftrightarrow> w_kernel w' = w_kernel w
    \<and> (\<exists>us. subseq us (map peer_uid ps) \<and> registry_run us (registry_of (state_dir cfg) w) (registry_of (state_dir cfg) w'))
    \<and> (\<forall>k. \<not> near (path_key (state_dir cfg)) k \<longrightarrow> fs_get (w_files w') k = fs_get (w_files w) k)
    \<and> (\<exists>evs. w_trace w' = w_trace w @ evs \<and> list_all (\<lambda>e. list_ex (\<lambda>p. request_event cfg (state_dir cfg) p e) ps) evs)"

lemma run_refines_idle: "outside (\<lambda>_. False) w w' \<Longrightarrow> run_refines cfg ps w w'"
  unfolding run_refines_def
  by (intro conjI exI [of _ "[]"]) (auto simp: outside_def registry_of_def intro: registry_run.idle)

lemma run_refines_more: "run_refines cfg ps w w' \<Longrightarrow> run_refines cfg (p # ps) w w'"
  unfolding run_refines_def by (auto simp: list_all_iff intro: subseq_Cons2_iff)

lemma run_refines_request:
  assumes step: "request_frame cfg (state_dir cfg) p w w1" and ok: "broker_ok (w_kernel w)" and rest: "run_refines cfg ps w1 w'"
  shows "run_refines cfg (p # ps) w w'"
proof -
  let ?root = "state_dir cfg"
  obtain us where us: "subseq us (map peer_uid ps)" "registry_run us (registry_of ?root w1) (registry_of ?root w')"
    using rest by (auto simp: run_refines_def)
  have "registry_of ?root w1 v = registry_of ?root w v" if "v \<noteq> peer_uid p" for v
    using affects_files [OF step ok other_meta_apart [OF that]] by (simp add: registry_of_def)
  then have "registry_run (peer_uid p # us) (registry_of ?root w) (registry_of ?root w')" by (blast intro: registry_run.request us(2))
  moreover have "subseq (peer_uid p # us) (map peer_uid (p # ps))" using us(1) by simp
  moreover obtain e1 where "w_trace w1 = w_trace w @ e1" "\<forall>e\<in>set e1. request_event cfg ?root p e"
    using affects_trace [OF step ok] by blast
  moreover obtain e2 where "w_trace w' = w_trace w1 @ e2" "list_all (\<lambda>e. list_ex (\<lambda>p. request_event cfg ?root p e) ps) e2"
    using rest by (auto simp: run_refines_def)
  moreover have "w_kernel w' = w_kernel w" using step rest by (simp add: affects_def run_refines_def)
  moreover have "fs_get (w_files w') k = fs_get (w_files w) k" if "\<not> near (path_key ?root) k" for k
    using affects_files [OF step ok outside_root_apart [OF that]] rest that by (simp add: run_refines_def)
  ultimately show ?thesis
    unfolding run_refines_def
    by (intro conjI exI [of _ "peer_uid p # us"] exI [of _ "e1 @ e2"] allI impI) (auto simp: list_all_iff)
qed

lemma run_refines_after_idle: "outside (\<lambda>_. False) w w1 \<Longrightarrow> run_refines cfg ps w1 w' \<Longrightarrow> run_refines cfg ps w w'"
  by (auto simp: run_refines_def outside_def registry_of_def)

lemma daemon_loop_refines:
  assumes "daemon_loop cfg as w = (r, w')" and "broker_ok (w_kernel w)" and "list_all arrival_ok as"
  shows "run_refines cfg (peers as) w w'"
  using assms
proof (induction cfg as arbitrary: w r rule: daemon_loop.induct)
  case (5 cfg c as)
  obtain a w1 where a: "accept_client w = (a, w1)" by (cases "accept_client w")
  have o: "outside (\<lambda>_. False) w w1" by (rule keeps_result [OF accept_client_keeps a])
  then have ok: "broker_ok (w_kernel w1)" using 5 outside_kernel by metis
  have peers: "peers (Incoming c # as) = conn_peer c # peers as" by (simp add: map_filter_simps)
  consider (failed) x where "a = Inl x" | (interrupted) "a = Inr False" | (accepted) "a = Inr True" by (cases a) auto
  then show ?case
  proof cases
    case failed
    then have "w' = w1" using 5 a by (simp add: bnd_apply)
    then show ?thesis using run_refines_idle [OF o] by simp
  next
    case interrupted
    then have "daemon_loop cfg as w1 = (r, w')" using 5 a by (simp add: bnd_apply)
    then have "run_refines cfg (peers as) w1 w'" using 5 interrupted ok by simp
    then show ?thesis unfolding peers using run_refines_after_idle [OF o] run_refines_more by blast
  next
    case accepted
    obtain v w2 where serve: "serve_connection cfg c w1 = (v, w2)" by (cases "serve_connection cfg c w1")
    have step: "request_frame cfg (state_dir cfg) (conn_peer c) w1 w2"
      by (rule serve_connection_affects [OF _ serve]) (use 5 in simp)
    have "run_refines cfg (peers as) w2 w'"
    proof (cases v)
      case (Inl x)
      then have "w' = w2" using 5 a accepted serve by (simp add: bnd_apply)
      then show ?thesis using run_refines_idle out.frame_refl by blast
    next
      case (Inr s)
      obtain q w3 where loop: "daemon_loop cfg as w2 = (q, w3)" by (cases "daemon_loop cfg as w2")
      have "w' = w3" using 5 a accepted serve Inr loop by (auto simp: bnd_apply split: sum.splits prod.splits)
      moreover have "broker_ok (w_kernel w2)" using step ok by (simp add: affects_def)
      ultimately show ?thesis using 5 accepted Inr loop by simp
    qed
    then show ?thesis unfolding peers using run_refines_after_idle [OF o] run_refines_request [OF step ok] by blast
  qed
qed (auto simp: map_filter_simps ThrowErrno_def split: if_splits intro: run_refines_idle out.frame_refl)


section \<open>Worked runs\<close>

text \<open>User 7 connects, asks for a job and has attached descriptor 5; then the daemon is told to stop.\<close>

definition sample_connection :: connection where
  "sample_connection = \<lparr>conn_fd = 4, conn_peer = sample_peer, conn_sock = idle_sock\<lparr>s_anc_in := Some 5,
     s_in := [CHR 0x17, NUL, NUL, NUL] @ ''run'' @ [NUL] @ ''arg=/bin/job'' @ [NUL] @ ''cwd=/'' @ [NUL]\<rparr>\<rparr>"

definition sample_daemon :: DaemonConfig where
  "sample_daemon = small_config\<lparr>state_dir := ''/s''\<rparr>"

lemma sample_launch_ok: "broker_ok (w_kernel sample_launch)"
  by (simp add: sample_launch_def sample_proc_def broker_ok_def workers_confined_def sample_kernel_def)


theorem connection_answered_once_witness:
  "\<exists>s w'. serve_connection sample_daemon sample_connection sample_launch = (Inr s, w') \<and> s_closed s = [5, 4]"
proof -
  let ?s = "(conn_sock sample_connection)\<lparr>s_fd := - 1\<rparr>"
  obtain m w1 s1 where h: "handled sample_daemon sample_connection ?s sample_launch = (m, w1, s1)"
    by (cases "handled sample_daemon sample_connection ?s sample_launch") auto
  have "s_closed (conn_sock sample_connection) @ (if isl (fst (GetPeerCred sample_connection sample_launch)) then []
      else received_fds (conn_sock sample_connection)) @ [conn_fd sample_connection] = [5, 4]" by code_simp
  with connection_answered_once [OF h] show ?thesis by metis
qed

end
