(* ===== verification/Client.thy ===== *)
theory Client
  imports Daemon
begin

text \<open>
  The unprivileged side: the client of the control socket (\<^verbatim>\<open>client.cc\<close>) and the command line tool
  (\<^verbatim>\<open>snapshotctl_main.cc\<close>), with the parts of \<^verbatim>\<open>util.cc\<close> only they use.

  The answers of the host the client runs on are a record. The client works on its own end of the
  connection; what the other end does between the request and the response is a function on that
  end, the parameter \<open>server\<close>. The last section takes the daemon for it.

  The results: what the tool sends is never refused as malformed, and a call through the client, the
  wire and the daemon has exactly the result of the request handler, with exceptions carried over
  by their text.
\<close>

section \<open>The host of the client\<close>

record host =
  h_env :: environ
  h_getcwd :: "int + string"
  h_canon :: "path \<Rightarrow> string + path"
  h_access :: "path \<Rightarrow> bool"
  h_socket :: int
  h_connect :: "path \<Rightarrow> int"
  h_fd :: int
  h_tty :: int
  h_strerror :: "int \<Rightarrow> string"

definition GetCurrentWorkingDirectory :: "host \<Rightarrow> exn + string" where
  "GetCurrentWorkingDirectory h = (case h_getcwd h of
     Inl e \<Rightarrow> Inl (errno_error (h_strerror h) ''getcwd'' e) | Inr d \<Rightarrow> Inr d)"

definition resolve_path :: "host \<Rightarrow> string \<Rightarrow> path \<Rightarrow> exn + string" where
  "resolve_path h exe p = (case h_canon h p of
     Inl m \<Rightarrow> Inl (RuntimeError (''failed to resolve executable '' @ exe @ '': '' @ m))
   | Inr q \<Rightarrow> Inr q)"

text \<open>\<^verbatim>\<open>fs::absolute\<close> throws when the working directory cannot be read.\<close>

definition fs_absolute :: "host \<Rightarrow> path \<Rightarrow> exn + path" where
  "fs_absolute h p = (case h_getcwd h of
     Inl e \<Rightarrow> Inl (FilesystemError (''cannot make absolute path: '' @ h_strerror h e)) | Inr d \<Rightarrow> Inr (path_append d p))"

fun search_path :: "host \<Rightarrow> string \<Rightarrow> string list \<Rightarrow> exn + string" where
  "search_path h exe [] = Inl (RuntimeError (''could not resolve executable on PATH: '' @ exe))"
| "search_path h exe (entry # entries) =
     (if entry = [] then search_path h exe entries
      else let p = path_append entry exe in
        if h_access h p then (case h_canon h p of Inr q \<Rightarrow> Inr q | Inl _ \<Rightarrow> search_path h exe entries)
        else search_path h exe entries)"

definition ResolveExecutable :: "host \<Rightarrow> string \<Rightarrow> string \<Rightarrow> exn + string" where
  "ResolveExecutable h exe path_env =
     (if exe = [] then Inl (RuntimeError ''missing executable'')
      else if IsAbsolutePath exe then resolve_path h exe exe
      else if SLASH \<in> set exe then try_bind (fs_absolute h exe) (resolve_path h exe)
      else search_path h exe (getlines (CHR '':'') path_env))"

section \<open>The client\<close>

definition close_end :: "host \<Rightarrow> (sock, unit) action" where
  "close_end h = modify (\<lambda>s. s\<lparr>s_closed := s_closed s @ [h_fd h]\<rparr>)"

text \<open>Connect, talk, and close whatever happens.\<close>

definition with_connection :: "host \<Rightarrow> path \<Rightarrow> (sock, 'a) action \<Rightarrow> (sock, 'a) action" where
  "with_connection h addr talk =
     (if h_socket h \<noteq> 0 then raise (errno_error (h_strerror h) ''socket(AF_UNIX)'' (h_socket h))
      else if length addr \<ge> kSunPathBytes
      then bnd (close_end h) (\<lambda>_. raise (RuntimeError ''socket path too long''))
      else if h_connect h addr \<noteq> 0
      then bnd (close_end h) (\<lambda>_.
        raise (RuntimeError (''connect('' @ addr @ ''): '' @ h_strerror h (h_connect h addr))))
      else catch_exn
        (bnd talk (\<lambda>response. bnd (close_end h) (\<lambda>_. ret response)))
        (\<lambda>x. bnd (close_end h) (\<lambda>_. raise x)))"

definition Request :: "host \<Rightarrow> (sock \<Rightarrow> sock) \<Rightarrow> path \<Rightarrow> Message \<Rightarrow> (sock, Message) action" where
  "Request h server addr request = with_connection h addr
     (bnd (SendMessage request) (\<lambda>_. bnd (modify server) (\<lambda>_. ReceiveMessage)))"

definition RequestWithFd :: "host \<Rightarrow> (sock \<Rightarrow> sock) \<Rightarrow> path \<Rightarrow> Message \<Rightarrow> int \<Rightarrow> (sock, Message) action" where
  "RequestWithFd h server addr request ancillary_fd = with_connection h addr
     (bnd (SendMessageWithFd request ancillary_fd) (\<lambda>_. bnd (modify server) (\<lambda>_. ReceiveMessage)))"

section \<open>The command line tool\<close>

definition check_response :: "Message \<Rightarrow> exn + Message" where
  "check_response response =
     (if command response = ''error''
      then Inl (RuntimeError (GetOr response ''message'' ''unknown control error'')) else Inr response)"

text \<open>Both forms of \<^verbatim>\<open>CheckedRequest\<close>; the one without a descriptor is the other with \<open>-1\<close>.\<close>

definition CheckedRequest :: "host \<Rightarrow> (sock \<Rightarrow> sock) \<Rightarrow> path \<Rightarrow> Message \<Rightarrow> int \<Rightarrow> (sock, Message) action" where
  "CheckedRequest h server addr request ancillary_fd =
     bnd (if ancillary_fd \<ge> 0 then RequestWithFd h server addr request ancillary_fd else Request h server addr request)
       (\<lambda>response. lift_sum (check_response response))"

definition PrintResponse :: "Message \<Rightarrow> string" where
  "PrintResponse response = concat (map (\<lambda>(k, v). k @ [EQ] @ v @ [NL]) (msg_fields response))"

definition PrintUsage :: string where
  "PrintUsage = ''usage: snapshotctl [--socket-path PATH] <run|status|checkpoint|restore> ...'' @ [NL]
     @ ''  restore [--namespace-restore] <job-id> [checkpoint-id]'' @ [NL]"

fun socket_options :: "path \<Rightarrow> string list \<Rightarrow> exn + (path \<times> string list)" where
  "socket_options addr (arg # rest) =
     (if arg = ''--socket-path''
      then (case rest of
          [] \<Rightarrow> Inl (RuntimeError ''missing value for --socket-path'')
        | v # rest' \<Rightarrow> socket_options v rest')
      else Inr (addr, arg # rest))"
| "socket_options addr [] = Inr (addr, [])"

definition run_message :: "host \<Rightarrow> string list \<Rightarrow> exn + Message" where
  "run_message h args =
     (let args = (if args \<noteq> [] \<and> hd args = ''--'' then tl args else args) in
      case args of
        [] \<Rightarrow> Inl (RuntimeError ''run requires a command after --'')
      | program # rest \<Rightarrow>
          try_bind (ResolveExecutable h program (GetEnv (h_env h) ''PATH'' [])) (\<lambda>exe.
          try_bind (GetCurrentWorkingDirectory h) (\<lambda>cwd.
          Inr (foldl (\<lambda>m a. AddField ''arg'' a m)
            (AddField ''arg'' exe (AddField ''cwd'' cwd \<lparr>command = ''run'', msg_fields = []\<rparr>)) rest))))"

definition job_message :: "string \<Rightarrow> string list \<Rightarrow> exn + Message" where
  "job_message cmd args = (case args of
     [] \<Rightarrow> Inl (RuntimeError (cmd @ '' requires <job-id>''))
   | jid # _ \<Rightarrow> Inr (AddField ''job_id'' jid \<lparr>command = cmd, msg_fields = []\<rparr>))"

definition restore_message :: "string list \<Rightarrow> exn + Message" where
  "restore_message args =
     (let flag = (args \<noteq> [] \<and> hd args = ''--namespace-restore'') in
      case dropWhile (\<lambda>a. a = ''--namespace-restore'') args of
        [] \<Rightarrow> Inl (RuntimeError ''restore requires <job-id>'')
      | jid # rest \<Rightarrow>
          let m = AddField ''job_id'' jid \<lparr>command = ''restore'', msg_fields = []\<rparr>;
              m = (if flag then AddField ''namespace_restore'' ''1'' m else m);
              m = (case rest of [] \<Rightarrow> m | cid # _ \<Rightarrow> AddField ''checkpoint_id'' cid m) in
          if length rest > 1 then Inl (RuntimeError ''restore accepts at most one optional checkpoint id'')
          else Inr m)"

definition OpenControllingTtyForRestore :: "host \<Rightarrow> int" where
  "OpenControllingTtyForRestore h = (if h_tty h \<ge> 0 then h_tty h else - 1)"

definition close_tty :: "int \<Rightarrow> (sock, unit) action" where
  "close_tty tty = (if tty \<ge> 0 then modify (\<lambda>s. s\<lparr>s_closed := s_closed s @ [tty]\<rparr>) else ret ())"

definition restore_call :: "host \<Rightarrow> (sock \<Rightarrow> sock) \<Rightarrow> path \<Rightarrow> Message \<Rightarrow> (sock, string) action" where
  "restore_call h server addr request =
     (let tty = OpenControllingTtyForRestore h in
      bnd (catch_exn (CheckedRequest h server addr request tty) (\<lambda>x. bnd (close_tty tty) (\<lambda>_. raise x))) (\<lambda>response.
      bnd (close_tty tty) (\<lambda>_. ret (PrintResponse response))))"

definition snapshotctl_command :: "host \<Rightarrow> (sock \<Rightarrow> sock) \<Rightarrow> path \<Rightarrow> string \<Rightarrow> string list \<Rightarrow> (sock, string) action" where
  "snapshotctl_command h server addr cmd args =
     (if cmd = ''run''
      then bnd (lift_sum (run_message h args)) (\<lambda>m.
        bnd (CheckedRequest h server addr m (- 1)) (\<lambda>r. ret (PrintResponse r)))
      else if cmd = ''status'' \<or> cmd = ''checkpoint''
      then bnd (lift_sum (job_message cmd args)) (\<lambda>m.
        bnd (CheckedRequest h server addr m (- 1)) (\<lambda>r. ret (PrintResponse r)))
      else if cmd = ''restore''
      then bnd (lift_sum (restore_message args)) (\<lambda>m. restore_call h server addr m)
      else raise (RuntimeError (''unknown snapshotctl command: '' @ cmd)))"

text \<open>The exit code with what was written to standard output and standard error; \<open>argv\<close> are the
  arguments after the program name.\<close>

definition snapshotctl_main :: "host \<Rightarrow> (sock \<Rightarrow> sock) \<Rightarrow> string list \<Rightarrow> (sock, int \<times> string \<times> string) action" where
  "snapshotctl_main h server argv = catch_exn
     (bnd (lift_sum (socket_options ''/run/snapshotd.sock'' argv)) (\<lambda>(addr, rest).
      case rest of
        [] \<Rightarrow> ret (1, [], PrintUsage)
      | cmd # args \<Rightarrow> bnd (snapshotctl_command h server addr cmd args) (\<lambda>printed. ret (0, printed, []))))
     (\<lambda>x. ret (1, [], what x @ [NL]))"

section \<open>What the tool sends\<close>

definition cli_message :: "host \<Rightarrow> string \<Rightarrow> string list \<Rightarrow> exn + Message" where
  "cli_message h cmd args =
     (if cmd = ''run'' then run_message h args
      else if cmd = ''status'' \<or> cmd = ''checkpoint'' then job_message cmd args
      else if cmd = ''restore'' then restore_message args
      else Inl (RuntimeError (''unknown snapshotctl command: '' @ cmd)))"

text \<open>Documented behaviour of \<^verbatim>\<open>getcwd\<close> and \<^verbatim>\<open>fs::weakly_canonical\<close>: the working directory is an absolute
  path, and the canonical form of an absolute path or of a path to an existing file is absolute.\<close>

definition host_ok :: "host \<Rightarrow> bool" where
  "host_ok h \<longleftrightarrow> (\<forall>d. h_getcwd h = Inr d \<longrightarrow> IsAbsolutePath d)
     \<and> (\<forall>p q. h_canon h p = Inr q \<and> (IsAbsolutePath p \<or> h_access h p) \<longrightarrow> IsAbsolutePath q)"

lemma path_append_absolute: "IsAbsolutePath d \<Longrightarrow> IsAbsolutePath (path_append d p)"
  by (auto simp: path_append_def IsAbsolutePath_def is_absolute_def split: if_splits list.splits)

lemma search_path_absolute:
  assumes "host_ok h" and "search_path h exe entries = Inr q"
  shows "IsAbsolutePath q"
  using assms(2) by (induction entries) (use assms(1) in \<open>auto simp: Let_def host_ok_def split: if_splits sum.splits\<close>)

lemma ResolveExecutable_absolute:
  assumes "host_ok h" and "ResolveExecutable h exe env = Inr q"
  shows "IsAbsolutePath q"
proof -
  have canon: "IsAbsolutePath q" if "resolve_path h e p = Inr q" "IsAbsolutePath p" for e p
    using that assms(1) by (auto simp: resolve_path_def host_ok_def split: sum.splits)
  have "IsAbsolutePath p" if "fs_absolute h exe = Inr p" for p
    using that assms(1) path_append_absolute by (auto simp: fs_absolute_def host_ok_def split: sum.splits)
  then show ?thesis
    using assms(2) canon search_path_absolute [OF assms(1)]
    by (auto simp: ResolveExecutable_def try_bind_eq_Inr split: if_splits)
qed

lemma add_args_fields: "msg_fields (foldl (\<lambda>m a. AddField ''arg'' a m) m rest) = msg_fields m @ map (Pair ''arg'') rest"
  "command (foldl (\<lambda>m a. AddField ''arg'' a m) m rest) = command m"
  by (induction rest arbitrary: m) simp_all

lemma run_message_Inr:
  assumes "run_message h args = Inr m" and "host_ok h"
  obtains exe cwd rest where "m = \<lparr>command = ''run'', msg_fields = (''cwd'', cwd) # (''arg'', exe) # map (Pair ''arg'') rest\<rparr>"
    and "IsAbsolutePath exe" and "IsAbsolutePath cwd"
proof -
  obtain program rest exe cwd where exe: "ResolveExecutable h program (GetEnv (h_env h) ''PATH'' []) = Inr exe"
    and cwd: "GetCurrentWorkingDirectory h = Inr cwd"
    and m: "m = foldl (\<lambda>m a. AddField ''arg'' a m)
      (AddField ''arg'' exe (AddField ''cwd'' cwd \<lparr>command = ''run'', msg_fields = []\<rparr>)) rest"
    using assms(1) by (auto simp: run_message_def Let_def try_bind_eq_Inr split: list.splits)
  have "IsAbsolutePath cwd" using cwd assms(2) by (auto simp: GetCurrentWorkingDirectory_def host_ok_def split: sum.splits)
  moreover have "m = \<lparr>command = ''run'', msg_fields = (''cwd'', cwd) # (''arg'', exe) # map (Pair ''arg'') rest\<rparr>"
    unfolding m by (rule Message.equality) (simp_all add: add_args_fields)
  ultimately show thesis using that ResolveExecutable_absolute [OF assms(2) exe] by blast
qed

lemma job_message_fields: "job_message cmd args = Inr m \<Longrightarrow> command m = cmd \<and> map fst (msg_fields m) = [''job_id'']"
  by (auto simp: job_message_def split: list.splits)

lemma restore_message_fields:
  "restore_message args = Inr m \<Longrightarrow>
     command m = ''restore'' \<and> set (map fst (msg_fields m)) \<subseteq> {''job_id'', ''namespace_restore'', ''checkpoint_id''}"
  by (auto simp: restore_message_def Let_def split: list.splits if_splits)

text \<open>C40: The tool speaks the daemon's language: whatever it is called with, a request it sends has a
  known command, only fields the daemon allows for this command, and for \<^verbatim>\<open>run\<close> an absolute program
  and working directory, so that, if the job id is a safe one, the daemon does not refuse it as malformed.\<close>

theorem cli_requests_well_formed:
  assumes "cli_message h cmd args = Inr m" and "host_ok h"
    and "cmd \<noteq> ''run'' \<longrightarrow> IsSafeId (Get m ''job_id'')"
  shows "command m = cmd \<and> \<not> malformed m"
proof (cases "cmd = ''run''")
  case True
  then obtain exe cwd rest where m: "m = \<lparr>command = ''run'', msg_fields = (''cwd'', cwd) # (''arg'', exe) # map (Pair ''arg'') rest\<rparr>"
    and "IsAbsolutePath exe" "IsAbsolutePath cwd"
    using assms(1) by (auto simp: cli_message_def intro: run_message_Inr [OF _ assms(2)])
  moreover have "GetAll m ''arg'' = exe # rest" by (simp add: m GetAll_def filter_map comp_def)
  ultimately show ?thesis using True by (auto simp: malformed_def allowed_fields_def Get_def list_ex_iff)
next
  case False
  then have "(cmd = ''status'' \<or> cmd = ''checkpoint'') \<and> job_message cmd args = Inr m \<or> cmd = ''restore'' \<and> restore_message args = Inr m"
    using assms(1) unfolding cli_message_def by (simp split: if_splits)
  then have "command m = cmd \<and> cmd \<in> {''status'', ''checkpoint'', ''restore''}
    \<and> set (map fst (msg_fields m)) \<subseteq> set (allowed_fields cmd)"
    using job_message_fields restore_message_fields by (elim disjE conjE) (force simp: allowed_fields_def)+
  then show ?thesis using assms(3) False by (auto simp: malformed_def list_ex_iff subset_iff)
qed

section \<open>A call through the wire\<close>

text \<open>The daemon at the other end: it receives what this end has sent, with the attached descriptor
  installed under a number of its own, and this end can read what it wrote.\<close>

definition daemon_end :: "DaemonConfig \<Rightarrow> connection \<Rightarrow> world \<Rightarrow> (int \<Rightarrow> int) \<Rightarrow> sock \<Rightarrow> sock" where
  "daemon_end cfg c w install s =
     (case serve_connection cfg (c\<lparr>conn_sock := (conn_sock c)\<lparr>s_in := s_out s,
        s_anc_in := (case s_anc_out s of [] \<Rightarrow> None | d # _ \<Rightarrow> Some (install d))\<rparr>\<rparr>) w of
        (Inr t, _) \<Rightarrow> s\<lparr>s_in := s_out t\<rparr>
      | (Inl _, _) \<Rightarrow> s)"

definition sendable :: "Message \<Rightarrow> bool" where
  "sendable m \<longleftrightarrow> wire_safe m \<and> (case EncodeMessage m of Inl _ \<Rightarrow> False | Inr p \<Rightarrow> length p \<le> kMaxControlMessageBytes)"

definition reply :: "exn + Message \<Rightarrow> Message" where
  "reply r = (case r of Inl x \<Rightarrow> ErrorResponse x | Inr m \<Rightarrow> m)"

lemma sendableE:
  assumes "sendable m"
  obtains p where "EncodeMessage m = Inr p" and "length p \<le> kMaxControlMessageBytes" and "DecodeMessage p = Inr m"
    and "frame m = le32 (of_nat (length p)) @ p"
  using assms decode_encoded by (auto simp: sendable_def frame_def split: sum.splits)

lemma SendMessageWithFd_whole:
  assumes "benign (s_script s)" and "sendable m" and "fd \<ge> 0"
  shows "\<exists>sc. SendMessageWithFd m fd s =
    (Inr (), s\<lparr>s_out := s_out s @ frame m, s_anc_out := s_anc_out s @ [fd], s_script := sc\<rparr>) \<and> benign sc"
proof -
  obtain p where p: "EncodeMessage m = Inr p" "length p \<le> kMaxControlMessageBytes" "frame m = le32 (of_nat (length p)) @ p"
    using sendableE [OF assms(2)] .
  moreover have "frame m \<noteq> []" using p by (simp add: le32_def)
  moreover obtain sc where "write_loop (s_script s) [] (frame m) = (None, frame m, sc)" "benign sc"
    using write_loop_benign_suffix [OF assms(1), of "[]" "frame m"] by auto
  ultimately show ?thesis using assms(3) by (intro exI [of _ sc]) (simp add: SendMessageWithFd_def bnd_apply sendmsg_loop_write)
qed

lemma request_sent:
  assumes "benign (s_script s)" and "sendable m"
  shows "\<exists>sc. (if fd \<ge> 0 then SendMessageWithFd m fd s else SendMessage m s) =
    (Inr (), s\<lparr>s_out := s_out s @ frame m, s_anc_out := s_anc_out s @ (if fd \<ge> 0 then [fd] else []), s_script := sc\<rparr>) \<and> benign sc"
proof (cases "fd \<ge> 0")
  case True
  then show ?thesis using SendMessageWithFd_whole [OF assms] by simp
next
  case False
  obtain p where "EncodeMessage m = Inr p" "length p \<le> kMaxControlMessageBytes" using sendableE [OF assms(2)] .
  from SendMessage_whole [OF assms(1) this] show ?thesis using False by simp
qed

lemma recv_header_script: "recv_header s = (r, s') \<Longrightarrow> suffix (s_script s') (s_script s)"
  by (auto simp: recv_header_def recvmsg_loop_read split: prod.splits dest: read_loop_suffix)

lemma ReadAll_script: "ReadAll n s = (r, s') \<Longrightarrow> suffix (s_script s') (s_script s)"
  by (auto simp: ReadAll_def split: prod.splits dest: read_loop_suffix)

lemma ReceiveMessageWithFd_script:
  assumes "ReceiveMessageWithFd s = (r, s')"
  shows "suffix (s_script s') (s_script s)"
proof -
  obtain h s1 where h: "recv_header (s\<lparr>s_fd := - 1\<rparr>) = (h, s1)" by (cases "recv_header (s\<lparr>s_fd := - 1\<rparr>)")
  obtain q s2 where q: "ReadAll (unat (of_le32 (projr h))) s1 = (q, s2)" by (cases "ReadAll (unat (of_le32 (projr h))) s1")
  have "s_script s' = s_script s1 \<or> s_script s' = s_script s2"
    using assms h q
    by (cases h; cases q) (auto simp: ReceiveMessageWithFd_def bnd_apply modify_def close_received_fd_def raise_def lift_sum_def split: if_splits)
  then show ?thesis using recv_header_script [OF h] ReadAll_script [OF q] suffix_order.order_trans by fastforce
qed

lemma benign_suffix: "suffix sc' sc \<Longrightarrow> benign sc \<Longrightarrow> benign sc'"
  by (auto simp: benign_def dest: set_mono_suffix)

lemma ok_messages: "command (ok_response fs) = ''ok''" "command (StatusResponse job) = ''ok''"
  "command (CheckpointSuccessResponse job c ed) = ''ok''"
  by (simp_all add: ok_response_def StatusResponse_def CheckpointSuccessResponse_def)

lemma run_dump_ok: "run_dump cfg root job c extra ns w = (Inr m, w') \<Longrightarrow> command m = ''ok''"
  by (auto simp: run_dump_def dump_done_def bnd_Inr_iff Let_def ok_messages)

lemma HandleRequest_ok:
  assumes "HandleRequest request peer cfg root fd w = (Inr m, w')"
  shows "command m = ''ok''"
proof -
  have "command m = ''ok''" if "handle_run root peer request w = (Inr m, w')"
    using that by (auto simp: handle_run_def bnd_Inr_iff Let_def ok_messages)
  moreover have "command m = ''ok''" if "handle_status root peer request w = (Inr m, w')"
    using that by (auto simp: handle_status_def bnd_Inr_iff ok_messages)
  moreover have "command m = ''ok''" if "handle_checkpoint cfg root peer request w = (Inr m, w')"
    using that by (auto simp: handle_checkpoint_def bnd_Inr_iff split: if_splits option.splits dest: run_dump_ok)
  moreover have "command m = ''ok''" if "handle_checkpoint_pid cfg root peer request w = (Inr m, w')"
    using that by (auto simp: handle_checkpoint_pid_def bnd_Inr_iff split: option.splits dest: run_dump_ok)
  moreover have "command m = ''ok''" if "handle_restore cfg root peer fd request w = (Inr m, w')"
    by (rule handle_restore_InrE [OF that])
  ultimately show ?thesis using assms unfolding HandleRequest_def by (simp split: if_splits)
qed

lemma ErrorResponse_fields: "\<exists>code fs. ErrorResponse x = \<lparr>command = ''error'', msg_fields = (''code'', code) # (''message'', what x) # fs\<rparr>"
proof -
  have add: "foldl (\<lambda>r (k, v). AddField k v r) m fs = m\<lparr>msg_fields := msg_fields m @ fs\<rparr>" for fs and m :: Message
    by (induction fs arbitrary: m) (auto simp: AddField_def)
  show ?thesis by (cases x) (auto simp: ErrorResponse_def error_response_def add)
qed

lemma check_reply:
  assumes "\<And>m. r = Inr m \<Longrightarrow> command m = ''ok''"
  shows "check_response (reply r) = (case r of Inl x \<Rightarrow> Inl (RuntimeError (what x)) | Inr m \<Rightarrow> Inr m)"
proof (cases r)
  case (Inl x)
  then show ?thesis using ErrorResponse_fields [of x] by (auto simp: reply_def check_response_def GetOr_def)
next
  case (Inr m)
  then show ?thesis using assms by (simp add: reply_def check_response_def)
qed

text \<open>The daemon's end of an exchange over a socket without fatal faults.\<close>

lemma daemon_answers:
  assumes in_frame: "s_in (conn_sock c) = frame request" and req: "sendable request"
    and calm: "benign (s_script (conn_sock c))" and out: "s_out (conn_sock c) = []"
    and peer: "GetPeerCred c w = (Inr peer, w1)"
    and call: "HandleRequest request peer cfg (state_dir cfg)
      (case s_anc_in (conn_sock c) of Some d \<Rightarrow> d | None \<Rightarrow> - 1) w1 = (r, w2)"
    and rep: "sendable (reply r)"
  shows "\<exists>t w'. serve_connection cfg c w = (Inr t, w') \<and> s_out t = frame (reply r)"
proof -
  let ?s = "(conn_sock c)\<lparr>s_fd := - 1\<rparr>" and ?fd = "case s_anc_in (conn_sock c) of Some d \<Rightarrow> d | None \<Rightarrow> - 1"
  obtain p where p: "length p \<le> kMaxControlMessageBytes" "DecodeMessage p = Inr request" "frame request = le32 (of_nat (length p)) @ p"
    using sendableE [OF req] .
  obtain s1 where recv: "ReceiveMessageWithFd ?s = (Inr request, s1)" and fd: "s_fd s1 = ?fd"
    using ReceiveMessageWithFd_frame [of ?s p "[]"] calm in_frame p by auto
  have "handled cfg c ?s w = (reply r, w2, s1)"
    using peer recv call fd by (auto simp: handled_def reply_def split: sum.splits)
  from connection_sent [OF this] show ?thesis
    using benign_suffix [OF ReceiveMessageWithFd_script [OF recv]] calm out rep
    by (auto simp: sendable_def split: sum.splits)
qed

lemma with_connection_open:
  assumes "h_socket h = 0" and "length addr < kSunPathBytes" and "h_connect h addr = 0" and "talk s = (r, s')"
  shows "with_connection h addr talk s = (r, s'\<lparr>s_closed := s_closed s' @ [h_fd h]\<rparr>)"
  using assms by (cases r) (simp_all add: with_connection_def catch_exn_def bnd_apply close_end_def modify_def ret_def raise_def)

text \<open>C5: A call through the tool, the wire and the daemon refines a direct call of the request handler:
  for a request and a reply that fit a frame, over a connection with any partial transfers and
  interruptions but no fatal fault, \<^verbatim>\<open>CheckedRequest\<close> returns exactly the message \<^verbatim>\<open>HandleRequest\<close> returned
  for the peer the kernel names, and throws, with the text of the handler's exception, exactly if the
  handler threw; the handler sees the caller's descriptor if one was passed; and the caller's end of
  the connection is closed once.\<close>

theorem remote_call_refines_handler:
  assumes host: "h_socket h = 0" "length addr < kSunPathBytes" "h_connect h addr = 0"
    and fresh: "s_out s = []" "s_anc_out s = []" "s_out (conn_sock c) = []"
    and calm: "benign (s_script s)" "benign (s_script (conn_sock c))"
    and req: "sendable request" and peer: "GetPeerCred c w = (Inr peer, w1)"
    and call: "HandleRequest request peer cfg (state_dir cfg) (if fd \<ge> 0 then install fd else - 1) w1 = (r, w2)"
    and rep: "sendable (reply r)"
  shows "\<exists>s'. CheckedRequest h (daemon_end cfg c w install) addr request fd s
      = (case r of Inl x \<Rightarrow> Inl (RuntimeError (what x)) | Inr m \<Rightarrow> Inr m, s')
    \<and> s_closed s' = s_closed s @ [h_fd h]"
proof -
  obtain sc where sent: "(if fd \<ge> 0 then SendMessageWithFd request fd s else SendMessage request s) =
      (Inr (), s\<lparr>s_out := frame request, s_anc_out := (if fd \<ge> 0 then [fd] else []), s_script := sc\<rparr>)"
    and sc: "benign sc"
    using request_sent [OF calm(1) req, of fd] fresh by auto
  let ?s = "s\<lparr>s_out := frame request, s_anc_out := (if fd \<ge> 0 then [fd] else []), s_script := sc\<rparr>"
  let ?c = "c\<lparr>conn_sock := (conn_sock c)\<lparr>s_in := frame request,
    s_anc_in := (case s_anc_out ?s of [] \<Rightarrow> None | d # _ \<Rightarrow> Some (install d))\<rparr>\<rparr>"
  have peer': "GetPeerCred ?c w = (Inr peer, w1)" using peer by (simp add: GetPeerCred_def)
  have "(case s_anc_in (conn_sock ?c) of Some d \<Rightarrow> d | None \<Rightarrow> - 1) = (if fd \<ge> 0 then install fd else - 1)" by simp
  then have call': "HandleRequest request peer cfg (state_dir cfg)
      (case s_anc_in (conn_sock ?c) of Some d \<Rightarrow> d | None \<Rightarrow> - 1) w1 = (r, w2)" using call by (simp only:)
  have "\<exists>t w'. serve_connection cfg ?c w = (Inr t, w') \<and> s_out t = frame (reply r)"
    by (rule daemon_answers [OF _ req _ _ peer' call' rep]) (use calm(2) fresh(3) in simp_all)
  then obtain t w' where served: "serve_connection cfg ?c w = (Inr t, w')" and out: "s_out t = frame (reply r)" by blast
  then have round: "daemon_end cfg c w install ?s = ?s\<lparr>s_in := frame (reply r)\<rparr>" by (simp add: daemon_end_def)
  obtain p where p: "length p \<le> kMaxControlMessageBytes" "DecodeMessage p = Inr (reply r)"
    "frame (reply r) = le32 (of_nat (length p)) @ p"
    using sendableE [OF rep] .
  obtain s1 where recv: "ReceiveMessage (?s\<lparr>s_in := frame (reply r)\<rparr>) = (Inr (reply r), s1)" and cl: "s_closed s1 = s_closed s"
    using ReceiveMessage_frame [of "?s\<lparr>s_in := frame (reply r)\<rparr>" p "[]"] sc p by auto
  have "(if fd \<ge> 0 then RequestWithFd h (daemon_end cfg c w install) addr request fd
      else Request h (daemon_end cfg c w install) addr request) s
      = (Inr (reply r), s1\<lparr>s_closed := s_closed s1 @ [h_fd h]\<rparr>)"
    using sent recv round
    by (auto simp: RequestWithFd_def Request_def bnd_apply modify_def split: if_splits intro!: with_connection_open [OF host])
  moreover have "check_response (reply r) = (case r of Inl x \<Rightarrow> Inl (RuntimeError (what x)) | Inr m \<Rightarrow> Inr m)"
    by (rule check_reply) (use HandleRequest_ok call in blast)
  ultimately show ?thesis using cl by (simp add: CheckedRequest_def bnd_apply lift_sum_def)
qed

section \<open>Worked calls\<close>

definition sample_host :: host where
  "sample_host = \<lparr>h_env = [''PATH'' \<mapsto> ''/sbin:/bin''], h_getcwd = Inr ''/'', h_canon = Inr, h_access = (\<lambda>p. p = ''/bin/job''),
     h_socket = 0, h_connect = (\<lambda>_. 0), h_fd = 3, h_tty = - 1, h_strerror = (\<lambda>_. ''error'')\<rparr>"

theorem cli_requests_well_formed_witness:
  "cli_message sample_host ''run'' [''--'', ''job'', ''-v''] =
     Inr \<lparr>command = ''run'', msg_fields = [(''cwd'', ''/''), (''arg'', ''/bin/job''), (''arg'', ''-v'')]\<rparr>
   \<and> \<not> malformed \<lparr>command = ''run'', msg_fields = [(''cwd'', ''/''), (''arg'', ''/bin/job''), (''arg'', ''-v'')]\<rparr>"
proof -
  have m: "cli_message sample_host ''run'' [''--'', ''job'', ''-v''] =
     Inr \<lparr>command = ''run'', msg_fields = [(''cwd'', ''/''), (''arg'', ''/bin/job''), (''arg'', ''-v'')]\<rparr>" by code_simp
  have h: "host_ok sample_host" by (auto simp: host_ok_def sample_host_def IsAbsolutePath_def)
  from cli_requests_well_formed [OF m h] m show ?thesis by simp
qed

abbreviation run_reply :: Message where
  "run_reply \<equiv> \<lparr>command = ''ok'', msg_fields = [(''job_id'', ''job-1e1f202122232425''), (''pid'', ''42'')]\<rparr>"

theorem remote_call_refines_handler_witness:
  "\<exists>s'. CheckedRequest sample_host (daemon_end sample_daemon (sample_connection\<lparr>conn_sock := idle_sock\<lparr>s_script := [Short 1, Fail EINTR]\<rparr>\<rparr>)
       sample_launch id) ''/run/s'' run_request (- 1) (idle_sock\<lparr>s_script := [Fail EINTR, Short 0]\<rparr>) = (Inr run_reply, s')
     \<and> s_closed s' = [3]"
proof -
  let ?s = "idle_sock\<lparr>s_script := [Fail EINTR, Short 0]\<rparr>" and ?c = "sample_connection\<lparr>conn_sock := idle_sock\<lparr>s_script := [Short 1, Fail EINTR]\<rparr>\<rparr>"
  let ?r = "HandleRequest run_request sample_peer sample_daemon ''/s'' (- 1) (sample_launch\<lparr>w_tick := 1\<rparr>)"
  have "fst ?r = Inr run_reply" by code_simp
  then have call: "HandleRequest run_request sample_peer sample_daemon (state_dir sample_daemon)
      (if (- 1 :: int) \<ge> 0 then id (- 1) else - 1) (sample_launch\<lparr>w_tick := 1\<rparr>) = (Inr run_reply, snd ?r)"
    by (cases ?r) (simp add: sample_daemon_def)
  have host: "h_socket sample_host = 0" "length ''/run/s'' < kSunPathBytes" "h_connect sample_host ''/run/s'' = 0" "h_fd sample_host = 3"
    by (simp_all add: sample_host_def kSunPathBytes_def)
  have socks: "s_out ?s = []" "s_anc_out ?s = []" "s_out (conn_sock ?c) = []" "s_closed ?s = []"
    "benign (s_script ?s)" "benign (s_script (conn_sock ?c))"
    by (simp_all add: idle_sock_def benign_def)
  have msgs: "sendable run_request" "sendable (reply (Inr run_reply))"
    by (simp_all add: sendable_def reply_def wire_safe_def EncodeMessage_def kMaxControlMessageBytes_def)
  have peer: "GetPeerCred ?c sample_launch = (Inr sample_peer, sample_launch\<lparr>w_tick := 1\<rparr>)"
    by (simp add: GetPeerCred_def call_or_throw_def fault_def sys_def bnd_apply sample_connection_def
        sample_launch_def sample_proc_def sample_world_def)
  from remote_call_refines_handler [where install = id and fd = "- 1", OF host(1-3) socks(1-3) socks(5,6) msgs(1) peer call msgs(2)]
  show ?thesis using host(4) socks(4) by simp
qed

end
